(* ===== verification/Prelude.thy ===== *)
theory Prelude
  imports Main "HOL-Library.Multiset"
begin

text \<open>
  What every other theory shares: the collections of rewrite rules the component proofs use, the
  list functions of JavaScript that HOL's library lacks (\<open>Array.find\<close>, \<open>slice\<close>), and the generic
  facts about lists that the ledger pages and the SQL tables rest on.
\<close>

named_theorems async_simps \<open>unfolding of the program combinators of asynchronous code\<close>
named_theorems page_simps \<open>unfolding of the primitive operations on the document state\<close>
named_theorems api_simps \<open>unfolding of the accessors of API payloads\<close>

subsection \<open>List functions of JavaScript\<close>

text \<open>\<open>xs.find(p)\<close>: the first element that satisfies \<open>p\<close>, \<open>undefined\<close> (here \<open>None\<close>) otherwise.\<close>

fun array_find :: "('a \<Rightarrow> bool) \<Rightarrow> 'a list \<Rightarrow> 'a option" where
  "array_find p [] = None"
| "array_find p (x # xs) = (if p x then Some x else array_find p xs)"

text \<open>\<open>xs[i]\<close> for a non-negative index: \<open>undefined\<close> (here \<open>None\<close>) outside of the array.\<close>

definition array_at :: "'a list \<Rightarrow> nat \<Rightarrow> 'a option" where
  "array_at xs i = (if i < length xs then Some (xs ! i) else None)"

text \<open>\<open>xs.slice(from, to)\<close> for non-negative bounds.\<close>

definition array_slice :: "nat \<Rightarrow> nat \<Rightarrow> 'a list \<Rightarrow> 'a list" where
  "array_slice i j xs = take (j - i) (drop i xs)"

lemma array_find_SomeD:
  "array_find p xs = Some x \<Longrightarrow> x \<in> set xs \<and> p x"
  by (induction xs) (auto split: if_splits)

lemma array_find_None_iff [simp]: "array_find p xs = None \<longleftrightarrow> (\<forall>x \<in> set xs. \<not> p x)"
  by (induction xs) auto

lemma array_find_cong_map:
  "(\<And>x. x \<in> set xs \<Longrightarrow> p (f x) = p x) \<Longrightarrow>
   array_find p (map f xs) = map_option f (array_find p xs)"
  by (induction xs) auto

lemma array_find_append:
  "array_find p (xs @ ys) = (case array_find p xs of None \<Rightarrow> array_find p ys | Some x \<Rightarrow> Some x)"
  by (induction xs) auto

lemma array_at_Cons [simp]: "array_at (x # xs) 0 = Some x"
  "array_at (x # xs) (Suc i) = array_at xs i"
  by (simp_all add: array_at_def)

lemma array_at_Nil [simp]: "array_at [] i = None"
  by (simp add: array_at_def)

lemma array_at_numeral [simp]:
  "array_at (x # xs) (numeral k) = array_at xs (pred_numeral k)"
  by (simp add: array_at_def less_Suc_eq_0_disj numeral_eq_Suc)

lemma array_slice_0 [simp]: "array_slice 0 n xs = take n xs"
  by (simp add: array_slice_def)

subsection \<open>Cutting a list in pieces of equal length\<close>

text \<open>Consecutive slices of length \<open>n\<close>, put together, are the first \<open>k * n\<close> elements.\<close>

lemma concat_slices:
  "concat (map (\<lambda>p. array_slice (p * n) (p * n + n) xs) [0..<k]) = take (k * n) xs"
proof (induction k)
  case 0
  then show ?case by simp
next
  case (Suc k)
  have "take (Suc k * n) xs = take (k * n) xs @ take n (drop (k * n) xs)"
    by (metis add.commute mult_Suc take_add)
  with Suc show ?case by (simp add: array_slice_def)
qed

subsection \<open>Sums over updated tables\<close>

text \<open>
  An SQL \<open>UPDATE\<close> that changes one row is a \<open>map\<close>; the sum of a column over the table then
  changes by that row's difference.
\<close>

lemma sum_list_map_update_one:
  fixes f g :: "'a \<Rightarrow> int"
  assumes "distinct (map key xs)" and "x \<in> set xs"
    and "\<And>y. y \<in> set xs \<Longrightarrow> key y \<noteq> key x \<Longrightarrow> g y = f y"
  shows "sum_list (map g xs) = sum_list (map f xs) - f x + g x"
  using assms
proof (induction xs)
  case Nil
  then show ?case by simp
next
  case (Cons y ys)
  show ?case
  proof (cases "x = y")
    case True
    have "map g ys = map f ys"
    proof (rule map_cong [OF refl])
      fix z assume "z \<in> set ys"
      moreover from this have "key z \<noteq> key x" using Cons.prems(1) True by (auto simp: image_iff)
      ultimately show "g z = f z" using Cons.prems(3) by simp
    qed
    then have "sum_list (map g ys) = sum_list (map f ys)" by (rule arg_cong)
    with True show ?thesis by simp
  next
    case False
    with Cons.prems have "x \<in> set ys" and "key y \<noteq> key x" by force+
    with Cons show ?thesis by simp
  qed
qed

lemma sum_list_map_update_none:
  fixes f g :: "'a \<Rightarrow> int"
  assumes "\<And>y. y \<in> set xs \<Longrightarrow> g y = f y"
  shows "sum_list (map g xs) = sum_list (map f xs)"
  using assms by (metis (no_types, lifting) map_cong)

end
