(* ===== verification/Api.thy ===== *)
theory Api
  imports Prelude Complex_Main
begin

text \<open>
  The data that crosses the boundary between the console and the Go service: the JSON bodies of
  \<open>internal/core/model.go\<close>, \<open>assurance.go\<close>, \<open>evidence.go\<close>, \<open>internal/httpapi/batch.go\<close> and
  \<open>internal/foottraffic\<close> as records, the strings the code enumerates as datatypes, and an HTTP
  exchange as the console sees it. A body is a value of \<^verbatim>\<open>payload\<close>: the JSON text that carries
  it is not modelled, and an accessor answers \<open>None\<close> where a script would find the properties
  undefined. Screen coordinates, which only place dots on the map, are left out. A number with a
  fraction is a rational.
\<close>

subsection \<open>Entities\<close>

datatype rstate = Held | RSettled | Released

datatype dstatus = Accepted | Settled | Duplicate | Quarantined | Failed

fun rstate_name :: "rstate \<Rightarrow> string" where
  "rstate_name Held = ''held''"
| "rstate_name RSettled = ''settled''"
| "rstate_name Released = ''released''"

fun status_name :: "dstatus \<Rightarrow> string" where
  "status_name Accepted = ''accepted''"
| "status_name Settled = ''settled''"
| "status_name Duplicate = ''duplicate''"
| "status_name Quarantined = ''quarantined''"
| "status_name Failed = ''failed''"

record campaign =
  cmp_id :: string
  cmp_name :: string
  cmp_budget :: int
  cmp_reserved :: int
  cmp_spent :: int

record screen =
  scr_id :: string
  scr_name :: string
  scr_market :: string
  scr_format :: string

record reservation_input =
  inp_campaign :: string
  inp_screen :: string
  inp_cost :: int

record reservation =
  rsv_id :: string
  rsv_campaign :: string
  rsv_screen :: string
  rsv_cost :: int
  rsv_state :: rstate
  rsv_created :: int
  rsv_expires :: int

record receipt =
  rcp_version :: int
  rcp_event :: string
  rcp_reservation :: string
  rcp_screen :: string
  rcp_played_at :: int
  rcp_duration :: int

record delivery =
  dlv_id :: string
  dlv_receipt :: receipt
  dlv_status :: dstatus
  dlv_reason :: string
  dlv_received :: int
  dlv_attempts :: nat

record audit_entry =
  aud_id :: string
  aud_kind :: string
  aud_resource :: string
  aud_detail :: string
  aud_created :: int

record snapshot =
  snp_campaigns :: "campaign list"
  snp_screens :: "screen list"
  snp_reservations :: "reservation list"
  snp_deliveries :: "delivery list"
  snp_audit :: "audit_entry list"
  snp_counts :: "dstatus \<Rightarrow> int"
  snp_now :: int

record runtime_info =
  rt_storage :: string
  rt_transport :: string
  rt_demo :: bool
  rt_paused :: bool
  rt_breaker_open :: bool
  rt_can_reset :: bool

record evidence =
  evd_delivery :: delivery
  evd_reservation :: "reservation option"
  evd_outbox :: string
  evd_attempts :: nat
  evd_observed :: int

record screen_assurance =
  sas_screen :: string
  sas_name :: string
  sas_market :: string
  sas_format :: string
  sas_settled_plays :: int
  sas_held_plays :: int
  sas_settled_micros :: int
  sas_held_micros :: int
  sas_awaiting :: int
  sas_decisions :: "dstatus \<Rightarrow> int"

record assurance =
  asr_campaign :: campaign
  asr_screens :: "screen_assurance list"
  asr_observed :: int
  asr_budget_consistent :: bool
  asr_settled_plays :: int
  asr_held_plays :: int
  asr_awaiting :: int
  asr_decisions :: "dstatus \<Rightarrow> int"
  asr_scope :: string

subsection \<open>Receipt batches\<close>

text \<open>An element of the \<open>receipts\<close> array: a receipt object, or an object the strict decoder refuses.\<close>

datatype batch_item = Item receipt | Malformed string

record batch_result =
  brs_index :: nat
  brs_status :: int
  brs_id :: "string option"
  brs_replayed :: bool
  brs_retryable :: bool
  brs_detail :: string

record batch_response =
  bat_accepted :: int
  bat_rejected :: int
  bat_replayed :: int
  bat_results :: "batch_result list"

subsection \<open>Foot traffic\<close>

record traffic_window =
  win_zone :: string
  win_start :: int
  win_count :: int

record traffic_batch =
  tba_id :: string
  tba_source :: string
  tba_windows :: "traffic_window list"

datatype cell_status = Reported | Suppressed | Missing

record traffic_cell =
  cel_start :: int
  cel_status :: cell_status
  cel_observations :: "int option"

record traffic_zone =
  zon_id :: string
  zon_name :: string
  zon_context :: string
  zon_current :: "traffic_cell list"
  zon_previous :: "traffic_cell list"
  zon_published :: int
  zon_comparable :: nat
  zon_change :: "rat option"

record traffic_report =
  trp_zones :: "traffic_zone list"
  trp_source :: string
  trp_synthetic :: bool
  trp_published :: int
  trp_released :: int
  trp_suppressed :: int
  trp_missing :: int
  trp_as_of :: int
  trp_start :: int
  trp_end :: int
  trp_minimum :: int
  trp_scope :: string

subsection \<open>HTTP as the console sees it\<close>

text \<open>
  A JSON value as \<open>JSON.parse\<close> makes it; the numbers that the console reads from one are integers. Bodies are
  typed; \<open>P_object\<close> is an object of another shape, with its fields.
\<close>

datatype json = JNull | JBool bool | JNumber int | JText string | JArray "json list" | JObject "(string \<times> json) list"

datatype payload =
    P_empty
  | P_problem string
  | P_snapshot snapshot
  | P_runtime runtime_info
  | P_reservation_input reservation_input
  | P_reservation reservation
  | P_receipt receipt
  | P_accepted string bool
  | P_batch "batch_item list"
  | P_batch_response batch_response
  | P_evidence evidence
  | P_assurance assurance
  | P_control bool
  | P_scenario string
  | P_scenario_result string "(int \<times> int) option"
  | P_confirm bool
  | P_reset bool string
  | P_traffic_batch traffic_batch
  | P_traffic_result nat bool
  | P_traffic_report traffic_report
  | P_object "(string \<times> json) list"

record http_request =
  rq_post :: bool
  rq_path :: string
  rq_key :: "string option"
  rq_generation :: "string option"
  rq_body :: payload

record http_response =
  rs_status :: int
  rs_generation :: "string option"
  rs_retry_after :: "string option"

text \<open>\<open>response.ok\<close>: a status from 200 to 299.\<close>

definition ok :: "http_response \<Rightarrow> bool" where
  "ok r \<longleftrightarrow> 200 \<le> rs_status r \<and> rs_status r \<le> 299"

definition get_request :: "string \<Rightarrow> http_request" where
  "get_request p = \<lparr>rq_post = False, rq_path = p, rq_key = None, rq_generation = None,
     rq_body = P_empty\<rparr>"

definition post_request :: "string \<Rightarrow> payload \<Rightarrow> http_request" where
  "post_request p b = \<lparr>rq_post = True, rq_path = p, rq_key = None, rq_generation = None,
     rq_body = b\<rparr>"

lemma get_request_sel [simp]:
  "rq_post (get_request p) = False" "rq_path (get_request p) = p" "rq_key (get_request p) = None"
  "rq_generation (get_request p) = None" "rq_body (get_request p) = P_empty"
  by (simp_all add: get_request_def)

lemma post_request_sel [simp]:
  "rq_post (post_request p b) = True" "rq_path (post_request p b) = p"
  "rq_key (post_request p b) = None" "rq_generation (post_request p b) = None"
  "rq_body (post_request p b) = b"
  by (simp_all add: post_request_def)

subsection \<open>Accessors of a body\<close>

text \<open>\<open>data?.detail\<close>: of the typed bodies only problem documents have it.\<close>

fun detail_of :: "payload \<Rightarrow> string option" where
  "detail_of (P_problem d) = Some d"
| "detail_of (P_object fs) = (case map_of fs ''detail'' of Some (JText d) \<Rightarrow> Some d | _ \<Rightarrow> None)"
| "detail_of _ = None"

fun as_snapshot :: "payload \<Rightarrow> snapshot option" where
  "as_snapshot (P_snapshot x) = Some x"
| "as_snapshot _ = None"

fun as_runtime :: "payload \<Rightarrow> runtime_info option" where
  "as_runtime (P_runtime x) = Some x"
| "as_runtime _ = None"

fun as_reservation :: "payload \<Rightarrow> reservation option" where
  "as_reservation (P_reservation x) = Some x"
| "as_reservation _ = None"

fun as_accepted :: "payload \<Rightarrow> (string \<times> bool) option" where
  "as_accepted (P_accepted i r) = Some (i, r)"
| "as_accepted _ = None"

fun as_batch_response :: "payload \<Rightarrow> batch_response option" where
  "as_batch_response (P_batch_response x) = Some x"
| "as_batch_response _ = None"

fun as_evidence :: "payload \<Rightarrow> evidence option" where
  "as_evidence (P_evidence x) = Some x"
| "as_evidence _ = None"

fun as_assurance :: "payload \<Rightarrow> assurance option" where
  "as_assurance (P_assurance x) = Some x"
| "as_assurance _ = None"

fun as_traffic_report :: "payload \<Rightarrow> traffic_report option" where
  "as_traffic_report (P_traffic_report x) = Some x"
| "as_traffic_report _ = None"

fun as_traffic_result :: "payload \<Rightarrow> (nat \<times> bool) option" where
  "as_traffic_result (P_traffic_result n b) = Some (n, b)"
| "as_traffic_result _ = None"

end
