(* ===== verification/JsText.thy ===== *)
theory JsText
  imports Api "HOL-Library.Log_Nat" "HOL-Library.Char_ord"
begin

text \<open>
  The text helpers of \<open>internal/console/web/app.js\<close> and the string and number operations of
  JavaScript they and the price fields use. Strings are byte strings: a text beyond ASCII stands
  for its UTF-8 bytes, upper and lower case are those of ASCII. Amounts are integers; where the
  script computes with doubles beyond \<open>2^53\<close> the rounding is written out.
\<close>

subsection \<open>Escaping for HTML\<close>

definition esc_char :: "char \<Rightarrow> string" where
  "esc_char c =
     (if c = CHR ''&'' then ''&amp;''
      else if c = CHR ''<'' then ''&lt;''
      else if c = CHR ''>'' then ''&gt;''
      else if c = CHR 0x22 then ''&quot;''
      else if c = CHR 0x27 then ''&#39;''
      else [c])"

text \<open>\<open>esc(v)\<close>, with \<open>null\<close> and \<open>undefined\<close> shown as the empty text.\<close>

definition esc :: "string option \<Rightarrow> string" where
  "esc v = (case v of None \<Rightarrow> [] | Some t \<Rightarrow> concat (map esc_char t))"

text \<open>The characters that end a text node or an attribute value of a document.\<close>

definition markup_chars :: "char set" where
  "markup_chars = {CHR ''<'', CHR ''>'', CHR 0x22, CHR 0x27}"

text \<open>How a browser reads text back: the five character references, everything else as it is.\<close>

function html_text :: "string \<Rightarrow> string" where
  "html_text t =
     (if t = [] then []
      else if take 5 t = ''&amp;'' then CHR ''&'' # html_text (drop 5 t)
      else if take 4 t = ''&lt;'' then CHR ''<'' # html_text (drop 4 t)
      else if take 4 t = ''&gt;'' then CHR ''>'' # html_text (drop 4 t)
      else if take 6 t = ''&quot;'' then CHR 0x22 # html_text (drop 6 t)
      else if take 5 t = ''&#39;'' then CHR 0x27 # html_text (drop 5 t)
      else hd t # html_text (tl t))"
  by pat_completeness auto
termination
  by (relation "measure length") auto

declare html_text.simps [simp del]

lemma esc_char_safe: "set (esc_char c) \<inter> markup_chars = {}"
  by (auto simp: esc_char_def markup_chars_def)

lemma html_text_esc_char: "html_text (esc_char c @ t) = c # html_text t"
  by (subst html_text.simps) (auto simp: esc_char_def)

lemma html_text_esc_chars: "html_text (concat (map esc_char t)) = t"
proof (induction t)
  case Nil
  show ?case by (simp add: html_text.simps)
next
  case (Cons c t)
  then show ?case by (simp add: html_text_esc_char)
qed

lemma esc_chars_safe: "set (concat (map esc_char t)) \<inter> markup_chars = {}"
  using esc_char_safe by fastforce

subsection \<open>Letters\<close>

definition char_upper :: "char \<Rightarrow> char" where
  "char_upper c = (if CHR ''a'' \<le> c \<and> c \<le> CHR ''z'' then char_of (of_char c - 32 :: nat) else c)"

definition char_lower :: "char \<Rightarrow> char" where
  "char_lower c = (if CHR ''A'' \<le> c \<and> c \<le> CHR ''Z'' then char_of (of_char c + 32 :: nat) else c)"

definition to_lower :: "string \<Rightarrow> string" where
  "to_lower = map char_lower"

text \<open>\<open>title(s)\<close>: underscores become blanks, the first letter a capital.\<close>

definition title :: "string \<Rightarrow> string" where
  "title t = (case map (\<lambda>c. if c = CHR ''_'' then CHR '' '' else c) t of
      [] \<Rightarrow> [] | c # cs \<Rightarrow> char_upper c # cs)"

text \<open>\<open>text.includes(part)\<close>.\<close>

fun text_includes :: "string \<Rightarrow> string \<Rightarrow> bool" where
  "text_includes [] part = (part = [])"
| "text_includes (c # cs) part = (take (length part) (c # cs) = part \<or> text_includes cs part)"

lemma text_includes_empty [simp]: "text_includes t []"
  by (cases t) simp_all

lemma text_includes_iff: "text_includes t part \<longleftrightarrow> (\<exists>u v. t = u @ part @ v)"
proof (induction t)
  case Nil
  then show ?case by auto
next
  case (Cons c t)
  have "take (length part) (c # t) = part \<longleftrightarrow> (\<exists>v. c # t = part @ v)"
    by (metis append_eq_conv_conj append_take_drop_id)
  with Cons show ?case
    by (auto simp: Cons_eq_append_conv)
qed

subsection \<open>Percent encoding\<close>

definition hex_digit :: "nat \<Rightarrow> char" where
  "hex_digit n = (if n < 10 then char_of (48 + n) else char_of (55 + n))"

definition unreserved :: "char \<Rightarrow> bool" where
  "unreserved c \<longleftrightarrow> (CHR ''a'' \<le> c \<and> c \<le> CHR ''z'') \<or> (CHR ''A'' \<le> c \<and> c \<le> CHR ''Z'') \<or>
     (CHR ''0'' \<le> c \<and> c \<le> CHR ''9'') \<or> c \<in> set ''-_.!~*()'' \<or> c = CHR 0x27"

text \<open>\<open>encodeURIComponent(text)\<close>, byte by byte of the UTF-8 text.\<close>

definition encode_uri :: "string \<Rightarrow> string" where
  "encode_uri t = concat (map (\<lambda>c. if unreserved c then [c]
     else [CHR ''%'', hex_digit (of_char c div 16), hex_digit (of_char c mod 16)]) t)"

text \<open>Distinct texts have distinct encodings.\<close>

definition hex_val :: "char \<Rightarrow> nat" where
  "hex_val c = (if of_char c < (58::nat) then of_char c - 48 else of_char c - 55)"

fun decode_uri :: "string \<Rightarrow> string" where
  "decode_uri [] = []"
| "decode_uri (c # t) =
     (if c = CHR ''%''
      then (case t of a # b # u \<Rightarrow> char_of (16 * hex_val a + hex_val b) # decode_uri (drop 2 t) | _ \<Rightarrow> c # t)
      else c # decode_uri t)"

lemma hex_val_digit: "n < 16 \<Longrightarrow> hex_val (hex_digit n) = n"
  by (auto simp: hex_val_def hex_digit_def)

lemma decode_encode: "decode_uri (encode_uri t) = t"
proof (induction t)
  case (Cons c t)
  have "(of_char c :: nat) < 256" by simp
  then have "of_char c div 16 < (16::nat)" by (simp add: less_mult_imp_div_less)
  then have "16 * hex_val (hex_digit (of_char c div 16)) + hex_val (hex_digit (of_char c mod 16)) = (of_char c :: nat)"
    by (simp add: hex_val_digit)
  moreover have "\<not> unreserved (CHR ''%'')" by (simp add: unreserved_def less_eq_char_def)
  ultimately show ?case using Cons by (auto simp: encode_uri_def)
qed (simp add: encode_uri_def)

lemma encode_uri_inj [simp]: "encode_uri a = encode_uri b \<longleftrightarrow> a = b"
  by (metis decode_encode)

subsection \<open>Decimal numbers\<close>

fun dec :: "nat \<Rightarrow> string" where
  "dec n = (if n < 10 then [char_of (48 + n)] else dec (n div 10) @ [char_of (48 + n mod 10)])"

declare dec.simps [simp del]

definition is_digit :: "char \<Rightarrow> bool" where
  "is_digit c \<longleftrightarrow> CHR ''0'' \<le> c \<and> c \<le> CHR ''9''"

definition digit_val :: "char \<Rightarrow> nat" where
  "digit_val c = of_char c - 48"

text \<open>The integer a string of digits denotes: \<open>Number(text)\<close> before rounding to a double.\<close>

definition decimal :: "string \<Rightarrow> nat" where
  "decimal = foldl (\<lambda>n c. 10 * n + digit_val c) 0"

lemma digit_char:
  assumes "d < 10"
  shows "is_digit (char_of (48 + d))" and "digit_val (char_of (48 + d)) = d"
proof -
  have "(48 + d) mod 256 = 48 + d" using assms by simp
  then have *: "of_char (char_of (48 + d) :: char) = 48 + d" by (simp add: of_char_of)
  show "digit_val (char_of (48 + d)) = d" using assms by (simp add: digit_val_def *)
  show "is_digit (char_of (48 + d))"
    using assms by (simp add: is_digit_def less_eq_char_def *)
qed

lemma decimal_snoc [simp]: "decimal (t @ [c]) = 10 * decimal t + digit_val c"
  by (simp add: decimal_def)

lemma decimal_Nil [simp]: "decimal [] = 0"
  by (simp add: decimal_def)

lemma dec_digits: "\<forall>c \<in> set (dec n). is_digit c"
proof (induction n rule: dec.induct)
  case (1 n)
  then show ?case
    using digit_char(1) [of n] digit_char(1) [of "n mod 10"]
    by (subst dec.simps) auto
qed

lemma dec_nonempty [simp]: "dec n \<noteq> []"
  by (subst dec.simps) simp

lemma decimal_dec [simp]: "decimal (dec n) = n"
proof (induction n rule: dec.induct)
  case (1 n)
  show ?case
  proof (cases "n < 10")
    case True
    then have "dec n = [] @ [char_of (48 + n)]" by (subst dec.simps) simp
    with True digit_char(2) [OF True] show ?thesis by (simp only: decimal_snoc) simp
  next
    case False
    then have "dec n = dec (n div 10) @ [char_of (48 + n mod 10)]" by (subst dec.simps) simp
    with "1" False digit_char(2) [of "n mod 10"] show ?thesis by simp
  qed
qed

lemma dec_length: "n < 10 ^ k \<Longrightarrow> 0 < k \<Longrightarrow> length (dec n) \<le> k"
proof (induction k arbitrary: n)
  case 0
  then show ?case by simp
next
  case (Suc k)
  show ?case
  proof (cases "n < 10")
    case True
    then show ?thesis by (subst dec.simps) simp
  next
    case False
    with Suc.prems have "0 < k" by (cases k) auto
    moreover from Suc.prems have "n div 10 < 10 ^ k" by auto
    ultimately have "length (dec (n div 10)) \<le> k" by (rule Suc.IH [rotated])
    with False show ?thesis by (subst dec.simps) simp
  qed
qed

lemma decimal_bound: "\<forall>c \<in> set t. is_digit c \<Longrightarrow> decimal t < 10 ^ length t"
proof (induction t rule: rev_induct)
  case Nil
  then show ?case by simp
next
  case (snoc c t)
  then have "digit_val c < 10"
    by (auto simp: digit_val_def is_digit_def less_eq_char_def)
  with snoc show ?case by simp
qed

text \<open>Two digits, as cents are written.\<close>

definition two_digits :: "nat \<Rightarrow> string" where
  "two_digits n = [char_of (48 + n div 10), char_of (48 + n mod 10)]"

lemma two_digits_facts:
  assumes "n < 100"
  shows "decimal (two_digits n) = n" and "\<forall>c \<in> set (two_digits n). is_digit c"
    and "length (two_digits n) = 2"
proof -
  have "two_digits n = ([] @ [char_of (48 + n div 10)]) @ [char_of (48 + n mod 10)]"
    by (simp add: two_digits_def)
  with assms show "decimal (two_digits n) = n"
    using digit_char(2) [of "n div 10"] digit_char(2) [of "n mod 10"]
    by (simp only: decimal_snoc) simp
  show "\<forall>c \<in> set (two_digits n). is_digit c"
    using assms digit_char(1) [of "n div 10"] digit_char(1) [of "n mod 10"]
    by (simp add: two_digits_def)
qed (simp add: two_digits_def)

subsection \<open>Showing amounts\<close>

fun group_rev :: "string \<Rightarrow> string" where
  "group_rev (a # b # c # d # t) = a # b # c # CHR '','' # group_rev (d # t)"
| "group_rev t = t"

text \<open>\<open>num(n)\<close>: thousands separated by commas.\<close>

definition num :: "int \<Rightarrow> string" where
  "num n = (if n < 0 then ''-'' else []) @ rev (group_rev (rev (dec (nat \<bar>n\<bar>))))"

text \<open>\<open>money(n)\<close>: micros as US dollars, rounded half away from zero to whole cents.\<close>

definition money :: "int \<Rightarrow> string" where
  "money n =
     (let c = nat ((\<bar>n\<bar> + 5000) div 10000)
      in (if n < 0 then ''-'' else []) @ ''$'' @ num (int (c div 100)) @ ''.'' @ two_digits (c mod 100))"

lemma group_rev_digits: "CHR '','' \<notin> set t \<Longrightarrow> filter (\<lambda>c. c \<noteq> CHR '','') (group_rev t) = t"
  by (induction t rule: group_rev.induct) auto

lemma num_without_commas:
  "0 \<le> n \<Longrightarrow> filter (\<lambda>c. c \<noteq> CHR '','') (num n) = dec (nat n)"
proof -
  assume "0 \<le> n"
  have "CHR '','' \<notin> set (rev (dec (nat n)))"
    using dec_digits [of "nat n"] by (auto simp: is_digit_def less_eq_char_def)
  then have "filter (\<lambda>c. c \<noteq> CHR '','') (group_rev (rev (dec (nat n)))) = rev (dec (nat n))"
    by (rule group_rev_digits)
  with \<open>0 \<le> n\<close> show ?thesis by (simp add: num_def flip: rev_filter)
qed

subsection \<open>Doubles\<close>

text \<open>
  A non-negative integer as a double: exact below \<open>2^53\<close>, else rounded to 53 significant bits, to
  even on a tie. Values past the largest double would be infinite in a browser; both are unsafe
  integers and the prices below treat them alike.
\<close>

definition to_double :: "nat \<Rightarrow> nat" where
  "to_double n =
     (if n < 2 ^ 53 then n
      else let e = floorlog 2 n - 53; q = n div 2 ^ e; r = n mod 2 ^ e; h = 2 ^ (e - 1)
           in (if h < r \<or> (r = h \<and> odd q) then Suc q else q) * 2 ^ e)"

lemma to_double_exact [simp]: "n < 2 ^ 53 \<Longrightarrow> to_double n = n"
  by (simp add: to_double_def)

lemma to_double_large:
  assumes "2 ^ 53 \<le> n"
  shows "2 ^ 53 \<le> to_double n"
proof -
  define e where "e = floorlog 2 n - 53"
  have "0 < n" using assms by simp
  then have lo: "2 ^ (floorlog 2 n - 1) \<le> n" using floorlog_bounds [of n 2] by simp
  have "n < 2 ^ floorlog 2 n" using \<open>0 < n\<close> floorlog_bounds [of n 2] by simp
  with assms have "(2::nat) ^ 53 < 2 ^ floorlog 2 n" by linarith
  then have "53 < floorlog 2 n" by (rule power_less_imp_less_exp [rotated]) simp
  then have "floorlog 2 n - 1 = 52 + e" and "0 < e" by (simp_all add: e_def)
  with lo have "2 ^ 52 * 2 ^ e \<le> n" by (simp add: power_add)
  then have "2 ^ 52 \<le> n div 2 ^ e" by (simp add: less_eq_div_iff_mult_less_eq)
  then have q: "2 ^ 52 * 2 ^ e \<le> n div 2 ^ e * 2 ^ e" by simp
  have "(2::nat) ^ 1 \<le> 2 ^ e" using \<open>0 < e\<close> by (intro power_increasing) auto
  then have "(2::nat) ^ 53 \<le> 2 ^ 52 * 2 ^ e" by simp
  with q have "2 ^ 53 \<le> n div 2 ^ e * 2 ^ e" by linarith
  then show ?thesis using assms by (auto simp: to_double_def Let_def e_def [symmetric])
qed

lemma to_double_ge:
  assumes "m \<le> n" and "m \<le> 2 ^ 53"
  shows "m \<le> to_double n"
proof (cases "n < 2 ^ 53")
  case True
  with assms(1) show ?thesis by simp
next
  case False
  then have "2 ^ 53 \<le> n" by (simp only: not_less)
  with assms(2) show ?thesis using to_double_large by (meson le_trans)
qed

text \<open>
  Escaped text is inert and faithful: whatever a partner puts into a name, an identifier or a
  reason, the text that \<open>esc\<close> writes into the page has no character that opens a tag or ends an
  attribute, and a browser reads it back as the original.
\<close>

theorem esc_inert_and_faithful:
  "set (esc v) \<inter> markup_chars = {} \<and> html_text (esc v) = (case v of None \<Rightarrow> [] | Some t \<Rightarrow> t)"
proof (cases v)
  case None
  then show ?thesis by (simp add: esc_def html_text.simps)
next
  case (Some t)
  then show ?thesis using esc_chars_safe [of t] html_text_esc_chars [of t] by (simp add: esc_def)
qed

text \<open>
  A count printed for the reader loses nothing: the digits of \<open>num n\<close> without its group
  separators read as \<open>n\<close>.
\<close>

theorem num_digits:
  assumes "0 \<le> n"
  shows "decimal (filter (\<lambda>c. c \<noteq> CHR '','') (num n)) = nat n"
  using num_without_commas [OF assms] by simp

theorem num_digits_witness: "decimal (filter (\<lambda>c. c \<noteq> CHR '','') (num 1234567)) = 1234567"
  using num_digits [of 1234567] by simp

end
