(* ===== verification/Tables.thy ===== *)
theory Tables
  imports JsText "HOL-Library.List_Lexorder"
begin

text \<open>
  SQL tables as lists of rows: the few statements that the Go store executes, and the facts about
  an \<open>UPDATE\<close> of the row with a given key that its invariants rest on.
\<close>

subsection \<open>Statements\<close>

text \<open>\<open>UPDATE ... SET ... WHERE\<close>, and the number of rows it affects.\<close>

definition update_where :: "('r \<Rightarrow> bool) \<Rightarrow> ('r \<Rightarrow> 'r) \<Rightarrow> 'r list \<Rightarrow> 'r list" where
  "update_where p f rows = map (\<lambda>r. if p r then f r else r) rows"

definition affected :: "('r \<Rightarrow> bool) \<Rightarrow> 'r list \<Rightarrow> nat" where
  "affected p rows = length (filter p rows)"

text \<open>\<open>SUM(CASE WHEN ... THEN ... ELSE 0 END)\<close> and \<open>COUNT(*)\<close> under a condition.\<close>

definition sum_where :: "('r \<Rightarrow> bool) \<Rightarrow> ('r \<Rightarrow> int) \<Rightarrow> 'r list \<Rightarrow> int" where
  "sum_where p g rows = sum_list (map (\<lambda>r. if p r then g r else 0) rows)"

definition count_where :: "('r \<Rightarrow> bool) \<Rightarrow> 'r list \<Rightarrow> int" where
  "count_where p rows = sum_where p (\<lambda>_. 1) rows"

subsection \<open>Facts\<close>

lemma update_where_simps [simp]:
  "update_where p f [] = []"
  "update_where p f (r # rows) = (if p r then f r else r) # update_where p f rows"
  "length (update_where p f rows) = length rows"
  by (simp_all add: update_where_def)

lemma update_where_map:
  "(\<And>r. k (f r) = k r) \<Longrightarrow> map k (update_where p f rows) = map k rows"
  by (simp add: update_where_def)

lemma update_where_none: "affected p rows = 0 \<Longrightarrow> update_where p f rows = rows"
  by (induction rows) (auto simp: affected_def)

lemma affected_iff: "affected p rows = 0 \<longleftrightarrow> (\<forall>r \<in> set rows. \<not> p r)"
  by (simp add: affected_def filter_empty_conv)

lemma sum_where_simps [simp]:
  "sum_where p g [] = 0" "sum_where p g (r # rows) = (if p r then g r else 0) + sum_where p g rows"
  "sum_where p g (xs @ ys) = sum_where p g xs + sum_where p g ys"
  by (simp_all add: sum_where_def)

lemma count_where_simps [simp]:
  "count_where p [] = 0" "count_where p (r # rows) = (if p r then 1 else 0) + count_where p rows"
  "count_where p (xs @ ys) = count_where p xs + count_where p ys"
  by (simp_all add: count_where_def)

lemma sum_where_nonneg: "(\<And>r. r \<in> set rows \<Longrightarrow> p r \<Longrightarrow> 0 \<le> g r) \<Longrightarrow> 0 \<le> sum_where p g rows"
  by (induction rows) (auto intro: add_nonneg_nonneg)

lemma sum_where_ge:
  "(\<And>r. r \<in> set rows \<Longrightarrow> p r \<Longrightarrow> 0 \<le> g r) \<Longrightarrow> x \<in> set rows \<Longrightarrow> p x \<Longrightarrow> g x \<le> sum_where p g rows"
proof (induction rows)
  case (Cons r rows)
  moreover have "0 \<le> sum_where p g rows" by (rule sum_where_nonneg) (use Cons.prems in auto)
  moreover have "p r \<Longrightarrow> 0 \<le> g r" using Cons.prems(1) [of r] by simp
  ultimately show ?case by (cases "x = r") fastforce+
qed simp

lemma sum_where_none: "(\<And>r. r \<in> set rows \<Longrightarrow> \<not> p r) \<Longrightarrow> sum_where p g rows = 0"
  by (induction rows) auto

lemma count_where_none: "(\<And>r. r \<in> set rows \<Longrightarrow> \<not> p r) \<Longrightarrow> count_where p rows = 0"
  by (simp add: count_where_def sum_where_none)

lemma sum_where_same:
  "(\<And>r. r \<in> set rows \<Longrightarrow> w r \<Longrightarrow> p (f r) = p r \<and> g (f r) = g r) \<Longrightarrow>
   sum_where p g (update_where w f rows) = sum_where p g rows"
  by (induction rows) auto

lemma count_where_same:
  "(\<And>r. r \<in> set rows \<Longrightarrow> w r \<Longrightarrow> p (f r) = p r) \<Longrightarrow> count_where p (update_where w f rows) = count_where p rows"
  by (simp add: count_where_def sum_where_same)

text \<open>Changing the one row with a given key changes a sum by that row's difference.\<close>

lemma sum_where_update:
  assumes "distinct (map k rows)" and "x \<in> set rows" and "\<And>r. r \<in> set rows \<Longrightarrow> w r \<longleftrightarrow> k r = k x"
  shows "sum_where p g (update_where w f rows) =
    sum_where p g rows - (if p x then g x else 0) + (if p (f x) then g (f x) else 0)"
  using assms
proof (induction rows)
  case (Cons r rows)
  show ?case
  proof (cases "r = x")
    case True
    with Cons.prems have "\<And>y. y \<in> set rows \<Longrightarrow> \<not> w y" by (auto simp: image_iff)
    then have "sum_where p g (update_where w f rows) = sum_where p g rows"
      by (intro sum_where_same) auto
    with True Cons.prems(3) [of r] show ?thesis by simp
  next
    case False
    with Cons.prems have "x \<in> set rows" and "\<not> w r" by (auto simp: image_iff)
    with Cons show ?thesis by auto
  qed
qed simp

lemma count_where_update:
  assumes "distinct (map k rows)" and "x \<in> set rows" and "\<And>r. r \<in> set rows \<Longrightarrow> w r \<longleftrightarrow> k r = k x"
  shows "count_where p (update_where w f rows) =
    count_where p rows - (if p x then 1 else 0) + (if p (f x) then 1 else 0)"
  unfolding count_where_def using sum_where_update [OF assms, of p "\<lambda>_. 1" f] by simp

lemma set_update_where:
  "r \<in> set (update_where p f rows) \<longleftrightarrow> (\<exists>x \<in> set rows. r = (if p x then f x else x))"
  by (auto simp: update_where_def)

end
