(* ===== verification/Engine.thy ===== *)
theory Engine
  imports Tables
begin

text \<open>
  The settlement engine, \<open>internal/core\<close> of the Go service: \<open>store.go\<close> (reservations, receipts,
  reconciliation, expiry), \<open>queue.go\<close> (the outbox), the reads of \<open>evidence.go\<close> and \<open>assurance.go\<close>, and
  \<open>localdemo/reset.go\<close>. A transaction is a function of the database that either commits, returning
  the new database, or rolls back, returning the old one; they take effect one after the other,
  which is what the row locks at their beginning are for. The constraints of \<open>schema.sql\<close> are
  checked at commit. Readings of the clock (\<open>millis()\<close>) and random identifiers (\<open>ID()\<close>) during a call
  are its arguments, numbered in the order of the calls; nothing is assumed of them. \<open>digest\<close>, the
  SHA-256 of a JSON value, is a parameter. Trace carriers are not modelled.
\<close>

subsection \<open>Tables\<close>

record campaign_row = campaign +
  cmp_tenant :: string

record reservation_row = reservation +
  rsv_tenant :: string
  rsv_key :: string
  rsv_print :: string

record delivery_row =
  dr_tenant :: string
  dr_id :: string
  dr_event :: string
  dr_print :: string
  dr_payload :: payload
  dr_status :: dstatus
  dr_reason :: string
  dr_created :: int
  dr_attempts :: nat

datatype ostate = O_pending | O_leased | O_dispatched | O_done | O_dead

fun ostate_name :: "ostate \<Rightarrow> string" where
  "ostate_name O_pending = ''pending''"
| "ostate_name O_leased = ''leased''"
| "ostate_name O_dispatched = ''dispatched''"
| "ostate_name O_done = ''done''"
| "ostate_name O_dead = ''dead''"

record outbox_row =
  ob_tenant :: string
  ob_id :: string
  ob_state :: ostate
  ob_owner :: string
  ob_lease :: int
  ob_next :: int
  ob_attempts :: nat

record audit_row = audit_entry +
  aud_tenant :: string

record database =
  db_campaigns :: "campaign_row list"
  db_screens :: "screen list"
  db_reservations :: "reservation_row list"
  db_deliveries :: "delivery_row list"
  db_outbox :: "outbox_row list"
  db_audit :: "audit_row list"
  db_generation :: string

datatype engine_error = ErrConflict | ErrBudget | ErrNotFound | ErrInvalid string | ErrStorage

type_synonym ids = "nat \<Rightarrow> string"
type_synonym times = "nat \<Rightarrow> int"

subsection \<open>The schema\<close>

definition campaign_key :: "campaign_row \<Rightarrow> string \<times> string" where
  "campaign_key c = (cmp_tenant c, cmp_id c)"

definition reservation_key :: "reservation_row \<Rightarrow> string \<times> string" where
  "reservation_key r = (rsv_tenant r, rsv_id r)"

definition delivery_key :: "delivery_row \<Rightarrow> string \<times> string" where
  "delivery_key d = (dr_tenant d, dr_id d)"

definition outbox_key :: "outbox_row \<Rightarrow> string \<times> string" where
  "outbox_key b = (ob_tenant b, ob_id b)"

definition campaign_checks :: "campaign_row \<Rightarrow> bool" where
  "campaign_checks c \<longleftrightarrow> 0 < cmp_budget c \<and> 0 \<le> cmp_reserved c \<and> 0 \<le> cmp_spent c \<and>
     cmp_reserved c + cmp_spent c \<le> cmp_budget c"

definition schema_ok :: "database \<Rightarrow> bool" where
  "schema_ok s \<longleftrightarrow>
     list_all campaign_checks (db_campaigns s) \<and>
     distinct (map campaign_key (db_campaigns s)) \<and> distinct (map scr_id (db_screens s)) \<and>
     list_all (\<lambda>r. 0 < rsv_cost r) (db_reservations s) \<and>
     distinct (map reservation_key (db_reservations s)) \<and>
     distinct (map (\<lambda>r. (rsv_tenant r, rsv_key r)) (db_reservations s)) \<and>
     list_all (\<lambda>r. (rsv_tenant r, rsv_campaign r) \<in> set (map campaign_key (db_campaigns s)) \<and>
       rsv_screen r \<in> set (map scr_id (db_screens s))) (db_reservations s) \<and>
     distinct (map delivery_key (db_deliveries s)) \<and>
     distinct (map (\<lambda>d. (dr_tenant d, dr_event d)) (db_deliveries s)) \<and>
     distinct (map outbox_key (db_outbox s)) \<and>
     set (map outbox_key (db_outbox s)) \<subseteq> set (map delivery_key (db_deliveries s)) \<and>
     distinct (map aud_id (db_audit s))"

text \<open>\<open>tx.Commit()\<close>: a violated constraint is an error of the database, and nothing is changed.\<close>

definition commit :: "database \<Rightarrow> database \<Rightarrow> 'a \<Rightarrow> database \<times> (engine_error + 'a)" where
  "commit s s' a = (if schema_ok s' then (s', Inr a) else (s, Inl ErrStorage))"

definition add_audit :: "string \<Rightarrow> int \<Rightarrow> string \<Rightarrow> string \<Rightarrow> string \<Rightarrow> string \<Rightarrow> database \<Rightarrow> database" where
  "add_audit i now tenant kind resource detail s = s\<lparr>db_audit := db_audit s @
     [\<lparr>aud_id = i, aud_kind = kind, aud_resource = resource, aud_detail = detail, aud_created = now,
       aud_tenant = tenant\<rparr>]\<rparr>"

definition valid_id :: "string \<Rightarrow> bool" where
  "valid_id t \<longleftrightarrow> 1 \<le> length t \<and> length t \<le> 100 \<and>
     list_all (\<lambda>c. (CHR ''a'' \<le> c \<and> c \<le> CHR ''z'') \<or> (CHR ''A'' \<le> c \<and> c \<le> CHR ''Z'') \<or>
       (CHR ''0'' \<le> c \<and> c \<le> CHR ''9'') \<or> c = CHR ''-'' \<or> c = CHR ''_'') t"

subsection \<open>Reserving budget\<close>

definition hold_time :: int where "hold_time = 900000"

definition reserve ::
  "(payload \<Rightarrow> string) \<Rightarrow> ids \<Rightarrow> times \<Rightarrow> string \<Rightarrow> string \<Rightarrow> reservation_input \<Rightarrow> database \<Rightarrow>
   database \<times> (engine_error + reservation \<times> bool)" where
  "reserve digest u t tenant k inp s =
     (if \<not> valid_id k \<or> \<not> valid_id (inp_campaign inp) \<or> \<not> valid_id (inp_screen inp) \<or>
         inp_cost inp \<le> 0 \<or> 1000000000 < inp_cost inp
      then (s, Inl (ErrInvalid ''valid IDs and cost_micros between 1 and 1000000000 required''))
      else
        let own = (\<lambda>c. cmp_tenant c = tenant \<and> cmp_id c = inp_campaign inp);
            room = (\<lambda>c. own c \<and> inp_cost inp \<le> cmp_budget c - cmp_spent c - cmp_reserved c)
        in
        if affected own (db_campaigns s) = 0 then (s, Inl ErrNotFound)
        else case array_find (\<lambda>r. rsv_tenant r = tenant \<and> rsv_key r = k) (db_reservations s) of
          Some r \<Rightarrow>
            (s, if rsv_print r \<noteq> digest (P_reservation_input inp) then Inl ErrConflict
                else Inr (reservation.truncate r, True))
        | None \<Rightarrow>
            if \<not> list_ex (\<lambda>v. scr_id v = inp_screen inp) (db_screens s) then (s, Inl ErrNotFound)
            else if affected room (db_campaigns s) = 0 then (s, Inl ErrBudget)
            else
              let r = \<lparr>rsv_id = u 0, rsv_campaign = inp_campaign inp, rsv_screen = inp_screen inp,
                       rsv_cost = inp_cost inp, rsv_state = Held, rsv_created = t 0,
                       rsv_expires = t 1 + hold_time\<rparr>;
                  row = reservation.extend r \<lparr>rsv_tenant = tenant, rsv_key = k,
                       rsv_print = digest (P_reservation_input inp)\<rparr>;
                  s1 = s\<lparr>db_campaigns := update_where room
                           (\<lambda>c. c\<lparr>cmp_reserved := cmp_reserved c + inp_cost inp\<rparr>) (db_campaigns s),
                         db_reservations := db_reservations s @ [row]\<rparr>
              in commit s
                   (add_audit (u 1) (t 2) tenant ''reserved'' (u 0)
                     (dec (nat (inp_cost inp)) @ '' micros held; '' @ inp_screen inp) s1)
                   (r, False))"

subsection \<open>Accepting receipts\<close>

definition accept ::
  "(payload \<Rightarrow> string) \<Rightarrow> ids \<Rightarrow> times \<Rightarrow> string \<Rightarrow> receipt \<Rightarrow> database \<Rightarrow>
   database \<times> (engine_error + string \<times> bool)" where
  "accept digest u t tenant p s =
     (if \<not> valid_id (rcp_event p) \<or> \<not> valid_id (rcp_reservation p) \<or> \<not> valid_id (rcp_screen p)
      then (s, Inl (ErrInvalid ''event, reservation and screen IDs required''))
      else case array_find (\<lambda>d. dr_tenant d = tenant \<and> dr_event d = rcp_event p) (db_deliveries s) of
          Some d \<Rightarrow> (s, if dr_print d \<noteq> digest (P_receipt p) then Inl ErrConflict else Inr (dr_id d, True))
        | None \<Rightarrow>
            let d = \<lparr>dr_tenant = tenant, dr_id = u 0, dr_event = rcp_event p,
                     dr_print = digest (P_receipt p), dr_payload = P_receipt p, dr_status = Accepted,
                     dr_reason = [], dr_created = t 0, dr_attempts = 0\<rparr>;
                b = \<lparr>ob_tenant = tenant, ob_id = u 0, ob_state = O_pending, ob_owner = [],
                     ob_lease = 0, ob_next = 0, ob_attempts = 0\<rparr>
            in commit s
                 (add_audit (u 1) (t 1) tenant ''accepted'' (u 0)
                   ''Receipt and dispatch intent committed together''
                   (s\<lparr>db_deliveries := db_deliveries s @ [d], db_outbox := db_outbox s @ [b]\<rparr>))
                 (u 0, False))"

subsection \<open>Reconciling\<close>

fun as_receipt :: "payload \<Rightarrow> receipt option" where
  "as_receipt (P_receipt p) = Some p"
| "as_receipt _ = None"

text \<open>Why a receipt is refused before its reservation is looked up; empty when it is not.\<close>

definition envelope_reason :: "int \<Rightarrow> payload \<Rightarrow> string" where
  "envelope_reason now body =
     (case as_receipt body of
        None \<Rightarrow> ''malformed_payload''
      | Some p \<Rightarrow>
          if rcp_version p \<noteq> 1 then ''unsupported_schema''
          else if rcp_duration p < 1000 \<or> 120000 < rcp_duration p then ''invalid_play_duration''
          else if now + 60000 < rcp_played_at p then ''future_play_time''
          else [])"

definition match_reason :: "receipt \<Rightarrow> reservation_row option \<Rightarrow> string" where
  "match_reason p found =
     (case found of
        None \<Rightarrow> ''unknown_reservation''
      | Some r \<Rightarrow>
          if rsv_screen r \<noteq> rcp_screen p then ''screen_mismatch''
          else if rcp_played_at p < rsv_created r \<or> rsv_expires r < rcp_played_at p
          then ''outside_reservation_window''
          else if rsv_state r = Released then ''reservation_released''
          else [])"

text \<open>The decision: status, reason, and the reservation whose money moves.\<close>

definition reservation_of :: "string \<Rightarrow> payload \<Rightarrow> database \<Rightarrow> reservation_row option" where
  "reservation_of tenant body s =
     (case as_receipt body of None \<Rightarrow> None
      | Some p \<Rightarrow> array_find (\<lambda>r. rsv_tenant r = tenant \<and> rsv_id r = rcp_reservation p) (db_reservations s))"

definition decision ::
  "int \<Rightarrow> string \<Rightarrow> payload \<Rightarrow> database \<Rightarrow> dstatus \<times> string \<times> reservation_row option" where
  "decision now tenant body s =
     (let early = envelope_reason now body;
          found = reservation_of tenant body s;
          reason = (if early \<noteq> [] then early
                    else case as_receipt body of None \<Rightarrow> early | Some p \<Rightarrow> match_reason p found)
      in if reason \<noteq> [] then (Quarantined, reason, None)
         else case found of
           None \<Rightarrow> (Duplicate, ''reservation_already_settled'', None)
         | Some r \<Rightarrow> if rsv_state r = Held
             then (Settled, ''matched_screen_window_and_reservation'', Some r)
             else (Duplicate, ''reservation_already_settled'', None))"

definition settle_money :: "string \<Rightarrow> reservation_row \<Rightarrow> database \<Rightarrow> database" where
  "settle_money tenant r s = s\<lparr>
     db_reservations := update_where (\<lambda>x. rsv_tenant x = tenant \<and> rsv_id x = rsv_id r)
       (\<lambda>x. x\<lparr>rsv_state := RSettled\<rparr>) (db_reservations s),
     db_campaigns := update_where (\<lambda>c. cmp_tenant c = tenant \<and> cmp_id c = rsv_campaign r)
       (\<lambda>c. c\<lparr>cmp_reserved := cmp_reserved c - rsv_cost r, cmp_spent := cmp_spent c + rsv_cost r\<rparr>)
       (db_campaigns s)\<rparr>"

definition process :: "ids \<Rightarrow> times \<Rightarrow> string \<Rightarrow> string \<Rightarrow> database \<Rightarrow> database \<times> (engine_error + dstatus)" where
  "process u t tenant i s =
     (let own = (\<lambda>d. dr_tenant d = tenant \<and> dr_id d = i);
          s1 = s\<lparr>db_deliveries := update_where own (\<lambda>d. d\<lparr>dr_attempts := Suc (dr_attempts d)\<rparr>) (db_deliveries s)\<rparr>
      in case array_find own (db_deliveries s1) of
           None \<Rightarrow> (s, Inl ErrNotFound)
         | Some d \<Rightarrow>
             if dr_status d \<noteq> Accepted then commit s s1 (dr_status d)
             else case decision (t 0) tenant (dr_payload d) s1 of (status, reason, moved) \<Rightarrow>
               let s2 = (case moved of None \<Rightarrow> s1 | Some r \<Rightarrow> settle_money tenant r s1);
                   s3 = s2\<lparr>db_deliveries := update_where own (\<lambda>x. x\<lparr>dr_status := status, dr_reason := reason\<rparr>)
                          (db_deliveries s2)\<rparr>
               in commit s (add_audit (u 0) (t 1) tenant (status_name status) i reason s3) status)"

subsection \<open>Expiry\<close>

definition release :: "ids \<Rightarrow> times \<Rightarrow> string \<Rightarrow> string \<Rightarrow> int \<Rightarrow> database \<Rightarrow> database \<times> (engine_error + unit)" where
  "release u t tenant i now s =
     (case array_find (\<lambda>r. rsv_tenant r = tenant \<and> rsv_id r = i \<and> rsv_state r = Held \<and>
          rsv_expires r < now - 900000) (db_reservations s) of
        None \<Rightarrow> (s, Inr ())
      | Some r \<Rightarrow> commit s
          (add_audit (u 0) (t 0) tenant ''released'' i ''Expired after receipt grace period; funds returned''
            (s\<lparr>db_reservations := update_where (\<lambda>x. rsv_tenant x = tenant \<and> rsv_id x = i \<and> rsv_state x = Held \<and>
                  rsv_expires x < now - 900000) (\<lambda>x. x\<lparr>rsv_state := Released\<rparr>) (db_reservations s),
               db_campaigns := update_where (\<lambda>c. cmp_tenant c = tenant \<and> cmp_id c = rsv_campaign r)
                  (\<lambda>c. c\<lparr>cmp_reserved := cmp_reserved c - rsv_cost r\<rparr>) (db_campaigns s)\<rparr>)) ())"

text \<open>Each release is a transaction of its own; the first error ends the sweep.\<close>

fun release_all ::
  "(nat \<Rightarrow> ids) \<Rightarrow> (nat \<Rightarrow> times) \<Rightarrow> int \<Rightarrow> (string \<times> string) list \<Rightarrow> database \<Rightarrow>
   database \<times> (engine_error + unit)" where
  "release_all u t now [] s = (s, Inr ())"
| "release_all u t now (x # xs) s =
     (case release (u (length xs)) (t (length xs)) (fst x) (snd x) now s of
        (s', Inl e) \<Rightarrow> (s', Inl e)
      | (s', Inr _) \<Rightarrow> release_all u t now xs s')"

definition expired :: "int \<Rightarrow> database \<Rightarrow> (string \<times> string) list" where
  "expired now s = take 100 (map reservation_key
     (filter (\<lambda>r. rsv_state r = Held \<and> rsv_expires r < now - 900000) (db_reservations s)))"

definition release_expired ::
  "(nat \<Rightarrow> ids) \<Rightarrow> (nat \<Rightarrow> times) \<Rightarrow> int \<Rightarrow> database \<Rightarrow> database \<times> (engine_error + unit)" where
  "release_expired u t now s = release_all u t now (expired now s) s"

subsection \<open>The outbox\<close>

record job =
  job_tenant :: string
  job_id :: string
  job_owner :: string
  job_attempts :: nat

definition lease_time :: int where "lease_time = 30000"

definition due :: "int \<Rightarrow> outbox_row \<Rightarrow> bool" where
  "due now b \<longleftrightarrow> ob_state b \<in> {O_pending, O_leased} \<and> ob_next b \<le> now \<and> ob_lease b \<le> now"

text \<open>\<open>ORDER BY next_at,id LIMIT 1\<close>.\<close>

definition next_due :: "int \<Rightarrow> database \<Rightarrow> outbox_row option" where
  "next_due now s = array_at (sort_key ob_next (sort_key ob_id (filter (due now) (db_outbox s)))) 0"

definition claim :: "ids \<Rightarrow> int \<Rightarrow> database \<Rightarrow> database \<times> (engine_error + job option)" where
  "claim u now s =
     (case next_due now s of
        None \<Rightarrow> (s, Inr None)
      | Some b \<Rightarrow> commit s
          (s\<lparr>db_outbox := update_where (\<lambda>x. ob_tenant x = ob_tenant b \<and> ob_id x = ob_id b)
             (\<lambda>x. x\<lparr>ob_state := O_leased, ob_owner := u 0, ob_lease := now + lease_time,
                    ob_attempts := Suc (ob_attempts x)\<rparr>) (db_outbox s)\<rparr>)
          (Some \<lparr>job_tenant = ob_tenant b, job_id = ob_id b, job_owner = u 0,
                 job_attempts = Suc (ob_attempts b)\<rparr>))"

text \<open>The row of a job, as long as the owner that claimed it still leases it.\<close>

definition owned :: "job \<Rightarrow> outbox_row \<Rightarrow> bool" where
  "owned j b \<longleftrightarrow> ob_tenant b = job_tenant j \<and> ob_id b = job_id j \<and> ob_owner b = job_owner j \<and>
     ob_state b = O_leased"

definition dispatched :: "job \<Rightarrow> database \<Rightarrow> database \<times> (engine_error + unit)" where
  "dispatched j s = commit s
     (s\<lparr>db_outbox := update_where (owned j)
        (\<lambda>b. b\<lparr>ob_state := O_dispatched, ob_owner := [], ob_lease := 0\<rparr>) (db_outbox s)\<rparr>) ()"

definition complete :: "string \<Rightarrow> string \<Rightarrow> database \<Rightarrow> database \<times> (engine_error + unit)" where
  "complete tenant i s =
     (case array_find (\<lambda>d. dr_tenant d = tenant \<and> dr_id d = i) (db_deliveries s) of
        None \<Rightarrow> (s, Inl ErrStorage)
      | Some d \<Rightarrow>
          if dr_status d = Accepted then (s, Inr ())
          else commit s
            (s\<lparr>db_outbox := update_where (\<lambda>b. ob_tenant b = tenant \<and> ob_id b = i)
               (\<lambda>b. b\<lparr>ob_state := O_done, ob_owner := [], ob_lease := 0\<rparr>) (db_outbox s)\<rparr>) ())"

definition fail_job :: "ids \<Rightarrow> times \<Rightarrow> job \<Rightarrow> int \<Rightarrow> database \<Rightarrow> database \<times> (engine_error + unit)" where
  "fail_job u t j next s =
     (let st = (if 5 \<le> job_attempts j then O_dead else O_pending);
          s1 = s\<lparr>db_outbox := update_where (owned j)
             (\<lambda>b. b\<lparr>ob_state := st, ob_owner := [], ob_lease := 0, ob_next := next\<rparr>) (db_outbox s)\<rparr>;
          s2 = (if st = O_dead
                then s1\<lparr>db_deliveries := update_where
                       (\<lambda>d. dr_tenant d = job_tenant j \<and> dr_id d = job_id j \<and> dr_status d = Accepted)
                       (\<lambda>d. d\<lparr>dr_status := Failed, dr_reason := ''dispatch_retries_exhausted''\<rparr>) (db_deliveries s1)\<rparr>
                else s1)
      in if affected (owned j) (db_outbox s) = 0 then (s, Inr ())
         else commit s (add_audit (u 0) (t 0) (job_tenant j) ''retry'' (job_id j) (ostate_name st) s2) ())"

definition replay :: "ids \<Rightarrow> times \<Rightarrow> string \<Rightarrow> string \<Rightarrow> database \<Rightarrow> database \<times> (engine_error + unit)" where
  "replay u t tenant i s =
     (let failed = (\<lambda>d. dr_tenant d = tenant \<and> dr_id d = i \<and> dr_status d \<in> {Failed, Quarantined});
          s1 = s\<lparr>db_deliveries := update_where failed (\<lambda>d. d\<lparr>dr_status := Accepted, dr_reason := []\<rparr>)
                   (db_deliveries s),
                 db_outbox := update_where (\<lambda>b. ob_tenant b = tenant \<and> ob_id b = i)
                   (\<lambda>b. b\<lparr>ob_state := O_pending, ob_owner := [], ob_lease := 0, ob_next := 0, ob_attempts := 0\<rparr>)
                   (db_outbox s)\<rparr>
      in if affected failed (db_deliveries s) = 0 then (s, Inl ErrConflict)
         else commit s (add_audit (u 0) (t 0) tenant ''replayed'' i
           ''Original immutable payload requeued; validation still applies'' s1) ())"

subsection \<open>Reads\<close>

definition evidence_of :: "int \<Rightarrow> string \<Rightarrow> string \<Rightarrow> database \<Rightarrow> engine_error + evidence" where
  "evidence_of now tenant i s =
     (if \<not> valid_id i then Inl (ErrInvalid ''invalid_delivery_id'')
      else case (array_find (\<lambda>d. dr_tenant d = tenant \<and> dr_id d = i) (db_deliveries s),
                 array_find (\<lambda>b. ob_tenant b = tenant \<and> ob_id b = i) (db_outbox s)) of
          (Some d, Some b) \<Rightarrow>
            (case as_receipt (dr_payload d) of
               None \<Rightarrow> Inl ErrStorage
             | Some p \<Rightarrow> Inr
                 \<lparr>evd_delivery = \<lparr>dlv_id = i, dlv_receipt = p, dlv_status = dr_status d,
                    dlv_reason = dr_reason d, dlv_received = dr_created d, dlv_attempts = dr_attempts d\<rparr>,
                  evd_reservation = map_option reservation.truncate (array_find
                    (\<lambda>r. rsv_tenant r = tenant \<and> rsv_id r = rcp_reservation p) (db_reservations s)),
                  evd_outbox = ostate_name (ob_state b), evd_attempts = ob_attempts b, evd_observed = now\<rparr>)
        | _ \<Rightarrow> Inl ErrNotFound)"

text \<open>The money of a campaign in the reservations with a given state.\<close>

definition of_campaign :: "string \<Rightarrow> string \<Rightarrow> rstate \<Rightarrow> reservation_row \<Rightarrow> bool" where
  "of_campaign tenant c st r \<longleftrightarrow> rsv_tenant r = tenant \<and> rsv_campaign r = c \<and> rsv_state r = st"

definition in_state :: "string \<Rightarrow> string \<Rightarrow> rstate \<Rightarrow> database \<Rightarrow> int" where
  "in_state tenant c st s = sum_where (of_campaign tenant c st) rsv_cost (db_reservations s)"

text \<open>A \<open>ScreenAssurance\<close> row, and the receipts of a campaign's reservations by status.\<close>

definition on_screen :: "string \<Rightarrow> string \<Rightarrow> string \<Rightarrow> reservation_row \<Rightarrow> bool" where
  "on_screen tenant c v r \<longleftrightarrow> rsv_tenant r = tenant \<and> rsv_campaign r = c \<and> rsv_screen r = v"

definition decisions_of :: "(reservation_row \<Rightarrow> bool) \<Rightarrow> string \<Rightarrow> database \<Rightarrow> dstatus \<Rightarrow> int" where
  "decisions_of which tenant s st = count_where
     (\<lambda>(d, r). dr_tenant d = tenant \<and> dr_status d = st \<and> which r \<and>
        map_option rcp_reservation (as_receipt (dr_payload d)) = Some (rsv_id r))
     (List.product (db_deliveries s) (db_reservations s))"

definition screen_row :: "int \<Rightarrow> string \<Rightarrow> string \<Rightarrow> database \<Rightarrow> screen \<Rightarrow> screen_assurance" where
  "screen_row now tenant c s v =
     (let rows = filter (on_screen tenant c (scr_id v)) (db_reservations s);
          held = (\<lambda>r. rsv_state r = Held); settled = (\<lambda>r. rsv_state r = RSettled)
      in \<lparr>sas_screen = scr_id v, sas_name = scr_name v, sas_market = scr_market v,
          sas_format = scr_format v, sas_settled_plays = count_where settled rows,
          sas_held_plays = count_where held rows, sas_settled_micros = sum_where settled rsv_cost rows,
          sas_held_micros = sum_where held rsv_cost rows,
          sas_awaiting = count_where (\<lambda>r. held r \<and> rsv_expires r < now) rows,
          sas_decisions = decisions_of (on_screen tenant c (scr_id v)) tenant s\<rparr>)"

definition assurance_scope :: string where
  "assurance_scope = ''All retained campaign reservations and linked receipts. Operational playback evidence, not audience '' @
     ''measurement. Unknown-reservation receipts cannot be attributed to a campaign.''"

definition assurance_of :: "int \<Rightarrow> string \<Rightarrow> string \<Rightarrow> database \<Rightarrow> engine_error + assurance" where
  "assurance_of now tenant c s =
     (if \<not> valid_id c then Inl (ErrInvalid ''invalid_campaign_id'')
      else case array_find (\<lambda>x. cmp_tenant x = tenant \<and> cmp_id x = c) (db_campaigns s) of
          None \<Rightarrow> Inl ErrNotFound
        | Some x \<Rightarrow>
            let screens = sort_key scr_market (sort_key scr_id
                  (filter (\<lambda>v. list_ex (on_screen tenant c (scr_id v)) (db_reservations s)) (db_screens s)));
                rows = map (screen_row now tenant c s) screens;
                held = sum_list (map sas_held_micros rows); spent = sum_list (map sas_settled_micros rows)
            in Inr \<lparr>asr_campaign = campaign.truncate x, asr_screens = rows, asr_observed = now,
                 asr_budget_consistent = (held = cmp_reserved x \<and> spent = cmp_spent x \<and> held + spent \<le> cmp_budget x),
                 asr_settled_plays = sum_list (map sas_settled_plays rows),
                 asr_held_plays = sum_list (map sas_held_plays rows),
                 asr_awaiting = sum_list (map sas_awaiting rows),
                 asr_decisions = decisions_of (\<lambda>r. rsv_tenant r = tenant \<and> rsv_campaign r = c) tenant s,
                 asr_scope = assurance_scope\<rparr>)"

subsection \<open>The demo's data\<close>

definition seed_campaigns :: "(string \<times> string \<times> int) list" where
  "seed_campaigns = [(''cmp-cascade'', ''Cascade / A little further'', 250000000),
     (''cmp-northstar'', ''Northstar / Next departure'', 180000000),
     (''cmp-solstice'', ''Solstice / Find your outside'', 120000000)]"

definition seed_screens :: "screen list" where
  "seed_screens = map (\<lambda>(i, n, m, f). \<lparr>scr_id = i, scr_name = n, scr_market = m, scr_format = f\<rparr>)
     [(''sea-01'', ''SEA / Concourse A'', ''Seattle'', ''Airport''),
      (''sea-02'', ''I-5 / Downtown'', ''Seattle'', ''Roadside''),
      (''pdx-01'', ''PDX / North lobby'', ''Portland'', ''Airport''),
      (''sfo-01'', ''SFO / Terminal 2'', ''San Francisco'', ''Airport''),
      (''lax-01'', ''LAX / Arrivals'', ''Los Angeles'', ''Airport''),
      (''den-01'', ''DEN / Concourse B'', ''Denver'', ''Airport''),
      (''ord-01'', ''ORD / Terminal 1'', ''Chicago'', ''Airport''),
      (''jfk-01'', ''JFK / Departures'', ''New York'', ''Airport'')]"

text \<open>\<open>INSERT ... ON CONFLICT DO NOTHING\<close>, one row after the other.\<close>

definition insert_new :: "('r \<Rightarrow> 'k) \<Rightarrow> 'r \<Rightarrow> 'r list \<Rightarrow> 'r list" where
  "insert_new k r rows = (if k r \<in> set (map k rows) then rows else rows @ [r])"

definition seed :: "string \<Rightarrow> database \<Rightarrow> database \<times> (engine_error + unit)" where
  "seed tenant s = commit s
     (s\<lparr>db_campaigns := fold (insert_new campaign_key)
          (map (\<lambda>(i, n, b). \<lparr>cmp_id = i, cmp_name = n, cmp_budget = b, cmp_reserved = 0, cmp_spent = 0,
             cmp_tenant = tenant\<rparr>) seed_campaigns) (db_campaigns s),
        db_screens := fold (insert_new scr_id) seed_screens (db_screens s)\<rparr>) ()"

definition reset_demo :: "ids \<Rightarrow> database \<Rightarrow> database \<times> (engine_error + string)" where
  "reset_demo u s = commit s
     (s\<lparr>db_outbox := [], db_deliveries := [], db_reservations := [], db_audit := [],
        db_campaigns := map (\<lambda>c. c\<lparr>cmp_reserved := 0, cmp_spent := 0\<rparr>) (db_campaigns s),
        db_generation := u 0\<rparr>) (u 0)"

definition empty_database :: database where
  "empty_database = \<lparr>db_campaigns = [], db_screens = [], db_reservations = [], db_deliveries = [],
     db_outbox = [], db_audit = [], db_generation = ''g''\<rparr>"

subsection \<open>All transactions, in any order\<close>

inductive engine_step :: "(payload \<Rightarrow> string) \<Rightarrow> database \<Rightarrow> database \<Rightarrow> bool" for digest where
  e_seed: "engine_step digest s (fst (seed tenant s))"
| e_reserve: "engine_step digest s (fst (reserve digest u t tenant k inp s))"
| e_accept: "engine_step digest s (fst (accept digest u t tenant p s))"
| e_process: "engine_step digest s (fst (process u t tenant i s))"
| e_release: "engine_step digest s (fst (release u t tenant i now s))"
| e_claim: "engine_step digest s (fst (claim u now s))"
| e_dispatched: "engine_step digest s (fst (dispatched j s))"
| e_complete: "engine_step digest s (fst (complete tenant i s))"
| e_fail: "engine_step digest s (fst (fail_job u t j now s))"
| e_replay: "engine_step digest s (fst (replay u t tenant i s))"

text \<open>What a database may come from: these steps and resets of the demo.\<close>

definition demo_step :: "(payload \<Rightarrow> string) \<Rightarrow> database \<Rightarrow> database \<Rightarrow> bool" where
  "demo_step digest s s' \<longleftrightarrow> engine_step digest s s' \<or> (\<exists>u. s' = fst (reset_demo u s))"

definition engine_reaches :: "(payload \<Rightarrow> string) \<Rightarrow> database \<Rightarrow> bool" where
  "engine_reaches digest s \<longleftrightarrow> (demo_step digest)\<^sup>*\<^sup>* empty_database s"

end
