(* ===== verification/Async.thy ===== *)
theory Async
  imports Api
begin

text \<open>
  Asynchronous JavaScript. A script runs to its next \<open>await\<close> without interruption, and everything
  else may happen before it is resumed. An \<open>async\<close> function is therefore a function from the
  document's state to a resumption: it has returned, it has thrown, or it is suspended on an
  awaited operation and continues from the reply and from whatever the state is by then. The
  second half is the event loop: suspended tasks, handlers that start new ones, and an
  environment, interleaved in every order; with two disciplines of handlers, each proved once and
  used by the components that follow it.
\<close>

subsection \<open>Resumptions\<close>

record js_error =
  err_message :: string
  err_status :: "int option"

definition js_err :: "string \<Rightarrow> js_error" where
  "js_err m = \<lparr>err_message = m, err_status = None\<rparr>"

datatype awaiting = Fetch http_request | ReadBody http_request | Sleep int

datatype reply = Responded http_response | Refused string | Body payload | BadBody string | Woken

datatype ('s, 'a) async =
    Return 's 'a
  | Throw 's js_error
  | Await 's awaiting "reply \<Rightarrow> 's \<Rightarrow> ('s, 'a) async"

text \<open>Induction with one hypothesis per reply and state at resumption.\<close>

lemma async_induct [case_names Return Throw Await, induct type: async]:
  assumes "\<And>s a. P (Return s a)" and "\<And>s e. P (Throw s e)"
    and "\<And>s q k. (\<And>r s'. P (k r s')) \<Longrightarrow> P (Await s q k)"
  shows "P m"
proof (induction m rule: async.induct)
  case (Await s q k)
  then show ?case by (intro assms(3)) (auto intro: rangeI)
qed (auto intro: assms)

type_synonym ('s, 'a) prog = "'s \<Rightarrow> ('s, 'a) async"

text \<open>The reply an awaited operation can have.\<close>

fun fits :: "awaiting \<Rightarrow> reply \<Rightarrow> bool" where
  "fits (Fetch _) r \<longleftrightarrow> (case r of Responded _ \<Rightarrow> True | Refused _ \<Rightarrow> True | _ \<Rightarrow> False)"
| "fits (ReadBody _) r \<longleftrightarrow> (case r of Body _ \<Rightarrow> True | BadBody _ \<Rightarrow> True | _ \<Rightarrow> False)"
| "fits (Sleep _) r \<longleftrightarrow> r = Woken"

subsection \<open>Program combinators\<close>

text \<open>\<open>await m\<close> followed by the rest; \<open>try ... catch\<close>; \<open>try ... finally\<close> with a synchronous block.\<close>

primrec abind :: "('s, 'a) async \<Rightarrow> ('a \<Rightarrow> ('s, 'b) prog) \<Rightarrow> ('s, 'b) async" where
  "abind (Return s a) f = f a s"
| "abind (Throw s e) f = Throw s e"
| "abind (Await s q k) f = Await s q (\<lambda>r s'. abind (k r s') f)"

primrec acatch :: "('s, 'a) async \<Rightarrow> (js_error \<Rightarrow> ('s, 'a) prog) \<Rightarrow> ('s, 'a) async" where
  "acatch (Return s a) h = Return s a"
| "acatch (Throw s e) h = h e s"
| "acatch (Await s q k) h = Await s q (\<lambda>r s'. acatch (k r s') h)"

primrec afinally :: "('s, 'a) async \<Rightarrow> ('s \<Rightarrow> 's) \<Rightarrow> ('s, 'a) async" where
  "afinally (Return s a) f = Return (f s) a"
| "afinally (Throw s e) f = Throw (f s) e"
| "afinally (Await s q k) f = Await s q (\<lambda>r s'. afinally (k r s') f)"

definition ret :: "'a \<Rightarrow> ('s, 'a) prog" where [async_simps]: "ret a s = Return s a"
definition throw :: "js_error \<Rightarrow> ('s, 'a) prog" where [async_simps]: "throw e s = Throw s e"
definition gets :: "('s \<Rightarrow> 'a) \<Rightarrow> ('s, 'a) prog" where [async_simps]: "gets f s = Return s (f s)"
definition modify :: "('s \<Rightarrow> 's) \<Rightarrow> ('s, unit) prog" where
  [async_simps]: "modify f s = Return (f s) ()"
definition await :: "awaiting \<Rightarrow> ('s, reply) prog" where
  [async_simps]: "await q s = Await s q (\<lambda>r s'. Return s' r)"
definition bind :: "('s, 'a) prog \<Rightarrow> ('a \<Rightarrow> ('s, 'b) prog) \<Rightarrow> ('s, 'b) prog" where
  [async_simps]: "bind m f s = abind (m s) f"
definition seq :: "('s, 'a) prog \<Rightarrow> ('s, 'b) prog \<Rightarrow> ('s, 'b) prog" where
  [async_simps]: "seq m n s = abind (m s) (\<lambda>_. n)"
definition try_catch :: "('s, 'a) prog \<Rightarrow> (js_error \<Rightarrow> ('s, 'a) prog) \<Rightarrow> ('s, 'a) prog" where
  [async_simps]: "try_catch m h s = acatch (m s) h"
definition try_finally :: "('s, 'a) prog \<Rightarrow> ('s \<Rightarrow> 's) \<Rightarrow> ('s, 'a) prog" where
  [async_simps]: "try_finally m f s = afinally (m s) f"
definition only_if :: "bool \<Rightarrow> ('s, unit) prog \<Rightarrow> ('s, unit) prog" where
  [async_simps]: "only_if b m s = (if b then m s else Return s ())"

text \<open>\<open>assert(condition, text)\<close> of \<open>proof.js\<close>, and a property read that would raise a TypeError.\<close>

definition demand :: "'a option \<Rightarrow> string \<Rightarrow> ('s, 'a) prog" where
  [async_simps]: "demand x m s = (case x of None \<Rightarrow> Throw s (js_err m) | Some a \<Rightarrow> Return s a)"

subsection \<open>Running against a responder\<close>

text \<open>
  A run of one program with nothing else interleaved: a responder answers each awaited operation
  from a state of its own (the server) and may move the document's clock. Every resumption is
  finite along every path, so this needs no fuel.
\<close>

primrec drive ::
  "('s, 'a) async \<Rightarrow> ('w \<Rightarrow> awaiting \<Rightarrow> 's \<Rightarrow> reply \<times> 's \<times> 'w) \<Rightarrow> 'w \<Rightarrow> (js_error + 'a) \<times> 's \<times> 'w" where
  "drive (Return s a) env w = (Inr a, s, w)"
| "drive (Throw s e) env w = (Inl e, s, w)"
| "drive (Await s q k) env w = (case env w q s of (r, s', w') \<Rightarrow> drive (k r s') env w')"

lemma drive_abind:
  "drive (abind m f) env w =
     (case drive m env w of
        (Inl e, s, w') \<Rightarrow> (Inl e, s, w')
      | (Inr a, s, w') \<Rightarrow> drive (f a s) env w')"
  by (induction m arbitrary: w) (auto split: prod.splits)

lemma drive_acatch:
  "drive (acatch m h) env w =
     (case drive m env w of
        (Inl e, s, w') \<Rightarrow> drive (h e s) env w'
      | (Inr a, s, w') \<Rightarrow> (Inr a, s, w'))"
  by (induction m arbitrary: w) (auto split: prod.splits)

lemma drive_afinally:
  "drive (afinally m f) env w = (case drive m env w of (r, s, w') \<Rightarrow> (r, f s, w'))"
  by (induction m arbitrary: w) (auto split: prod.splits)

lemmas drive_simps = drive_abind drive_acatch drive_afinally

subsection \<open>The event loop\<close>

type_synonym 's task = "awaiting \<times> (reply \<Rightarrow> ('s, unit) prog)"
type_synonym 's config = "'s \<times> 's task list"

text \<open>
  What is left of a task after it ran to its next suspension: its state, and itself if it waits.
  A rejected promise nobody handles ends the task like a return does.
\<close>

primrec absorb :: "('s, unit) async \<Rightarrow> 's task list \<Rightarrow> 's config" where
  "absorb (Return s u) ts = (s, ts)"
| "absorb (Throw s e) ts = (s, ts)"
| "absorb (Await s q k) ts = (s, ts @ [(q, k)])"

inductive loop_step ::
  "('s, unit) prog set \<Rightarrow> ('s \<Rightarrow> 's \<Rightarrow> bool) \<Rightarrow> (awaiting \<Rightarrow> reply \<Rightarrow> bool) \<Rightarrow>
   's config \<Rightarrow> 's config \<Rightarrow> bool"
  for handlers env ans where
  start: "h \<in> handlers \<Longrightarrow> loop_step handlers env ans (s, ts) (absorb (h s) ts)"
| resume: "ans q r \<Longrightarrow>
    loop_step handlers env ans (s, us @ (q, k) # vs) (absorb (k r s) (us @ vs))"
| outside: "env s s' \<Longrightarrow> loop_step handlers env ans (s, ts) (s', ts)"

inductive_cases loop_stepE: "loop_step handlers env ans (s, ts) c"

definition reaches ::
  "('s, unit) prog set \<Rightarrow> ('s \<Rightarrow> 's \<Rightarrow> bool) \<Rightarrow> (awaiting \<Rightarrow> reply \<Rightarrow> bool) \<Rightarrow>
   's \<Rightarrow> 's config \<Rightarrow> bool" where
  "reaches handlers env ans s0 c \<longleftrightarrow> (loop_step handlers env ans)\<^sup>*\<^sup>* (s0, []) c"

text \<open>An invariant of configurations: it holds at the start and every step keeps it.\<close>

lemma reaches_induct [consumes 1, case_names init step]:
  assumes "reaches handlers env ans s0 c"
    and "P (s0, [])"
    and "\<And>c c'. reaches handlers env ans s0 c \<Longrightarrow> P c \<Longrightarrow> loop_step handlers env ans c c' \<Longrightarrow> P c'"
  shows "P c"
  using assms(1) unfolding reaches_def
proof (induction rule: rtranclp_induct)
  case base
  show ?case by (rule assms(2))
next
  case (step c c')
  then show ?case using assms(3) [unfolded reaches_def] by blast
qed

lemma reaches_start: "reaches handlers env ans s0 (s0, [])"
  by (simp add: reaches_def)

lemma reaches_step:
  "reaches handlers env ans s0 c \<Longrightarrow> loop_step handlers env ans c c' \<Longrightarrow>
   reaches handlers env ans s0 c'"
  unfolding reaches_def by (rule rtranclp.rtrancl_into_rtrancl)

text \<open>
  Running a given schedule: handlers begun and replies delivered to the waiting task of a given
  position. A schedule whose handlers are admitted and whose replies fit reaches its result.
\<close>

datatype 's event = Begin "('s, unit) prog" | Deliver nat reply

fun run_event :: "'s event \<Rightarrow> 's config \<Rightarrow> 's config" where
  "run_event (Begin h) (s, ts) = absorb (h s) ts"
| "run_event (Deliver i r) (s, ts) =
     (if i < length ts then absorb (snd (ts ! i) r s) (take i ts @ drop (Suc i) ts) else (s, ts))"

fun event_ok :: "('s, unit) prog set \<Rightarrow> (awaiting \<Rightarrow> reply \<Rightarrow> bool) \<Rightarrow> 's event \<Rightarrow> 's config \<Rightarrow> bool" where
  "event_ok handlers ans (Begin h) c \<longleftrightarrow> h \<in> handlers"
| "event_ok handlers ans (Deliver i r) c \<longleftrightarrow> i < length (snd c) \<and> ans (fst (snd c ! i)) r"

fun run_events :: "'s event list \<Rightarrow> 's config \<Rightarrow> 's config" where
  "run_events [] c = c"
| "run_events (e # es) c = run_events es (run_event e c)"

fun events_ok ::
  "('s, unit) prog set \<Rightarrow> (awaiting \<Rightarrow> reply \<Rightarrow> bool) \<Rightarrow> 's event list \<Rightarrow> 's config \<Rightarrow> bool" where
  "events_ok handlers ans [] c = True"
| "events_ok handlers ans (e # es) c =
     (event_ok handlers ans e c \<and> events_ok handlers ans es (run_event e c))"

lemma run_event_step:
  assumes "event_ok handlers ans e c"
  shows "loop_step handlers env ans c (run_event e c)"
proof (cases e)
  case (Begin h)
  with assms show ?thesis by (cases c) (auto intro: loop_step.start)
next
  case (Deliver i r)
  obtain s ts where c: "c = (s, ts)" by (cases c)
  obtain q k where qk: "ts ! i = (q, k)" by (cases "ts ! i")
  from assms Deliver c have i: "i < length ts" and "ans q r" by (auto simp: qk)
  from i qk have "ts = take i ts @ (q, k) # drop (Suc i) ts" by (metis id_take_nth_drop)
  with loop_step.resume [where us = "take i ts" and vs = "drop (Suc i) ts" and s = s and k = k,
      of ans q r handlers env] \<open>ans q r\<close>
  show ?thesis using Deliver c i qk by simp
qed

lemma run_events_reaches:
  "events_ok handlers ans es c \<Longrightarrow> reaches handlers env ans s0 c \<Longrightarrow>
   reaches handlers env ans s0 (run_events es c)"
proof (induction es arbitrary: c)
  case Nil
  then show ?case by simp
next
  case (Cons e es)
  from Cons.prems(1) have e: "event_ok handlers ans e c"
    and es: "events_ok handlers ans es (run_event e c)" by simp_all
  from run_event_step [OF e] have "reaches handlers env ans s0 (run_event e c)"
    by (rule reaches_step [OF Cons.prems(2)])
  with Cons.IH [OF es] show ?case by simp
qed

lemma run_events_reaches_start:
  "events_ok handlers ans es (s0, []) \<Longrightarrow> reaches handlers env ans s0 (run_events es (s0, []))"
  by (rule run_events_reaches [OF _ reaches_start])

end
