(* ===== verification/Cooperation.thy ===== *)
theory Cooperation
  imports Async
begin

text \<open>
  Two contracts of event handlers that share the document's state, as locales. In the first every
  handler promises a relation between the states before and after each of its uninterrupted
  stretches, and may rely on it across its own \<open>await\<close>s; the pages use it for latest-request-wins
  tickets and for the invalidation of a demo session. In the second a flag serialises the
  handlers: \<^verbatim>\<open>if (busy) return; busy = true; try { ... } finally { busy = false }\<close>.
\<close>

subsection \<open>Promises and reliance across await\<close>

text \<open>
  \<open>rg R I ans Q E p m\<close>: the resumption \<open>m\<close>, entered from state \<open>p\<close>, reaches each of its next
  suspensions or its end by a step of \<open>R\<close>, in a state of \<open>I\<close>, as long as others keep \<open>I\<close> and
  move by \<open>R\<close> while it waits; its value satisfies \<open>Q\<close>, its error \<open>E\<close>.
\<close>

primrec rg ::
  "('s \<Rightarrow> 's \<Rightarrow> bool) \<Rightarrow> ('s \<Rightarrow> bool) \<Rightarrow> (awaiting \<Rightarrow> reply \<Rightarrow> bool) \<Rightarrow> ('a \<Rightarrow> 's \<Rightarrow> bool) \<Rightarrow>
   (js_error \<Rightarrow> 's \<Rightarrow> bool) \<Rightarrow> 's \<Rightarrow> ('s, 'a) async \<Rightarrow> bool" where
  "rg R I ans Q E p (Return s a) \<longleftrightarrow> R p s \<and> I s \<and> Q a s"
| "rg R I ans Q E p (Throw s e) \<longleftrightarrow> R p s \<and> I s \<and> E e s"
| "rg R I ans Q E p (Await s q k) \<longleftrightarrow> R p s \<and> I s \<and>
     (\<forall>r s'. ans q r \<longrightarrow> I s' \<longrightarrow> R s s' \<longrightarrow> rg R I ans Q E s' (k r s'))"

lemma rg_pre:
  assumes "transp R" and "R p p'" and "rg R I ans Q E p' m"
  shows "rg R I ans Q E p m"
  using assms by (cases m) (auto elim: transpE)

lemma rg_post:
  assumes "rg R I ans Q E p m" and "\<And>a s. Q a s \<Longrightarrow> Q' a s" and "\<And>e s. E e s \<Longrightarrow> E' e s"
  shows "rg R I ans Q' E' p m"
  using assms by (induction m arbitrary: p) auto

lemma rg_abind:
  assumes "transp R" and "rg R I ans Q' E p m"
    and "\<And>a s. I s \<Longrightarrow> Q' a s \<Longrightarrow> rg R I ans Q E s (f a s)"
  shows "rg R I ans Q E p (abind m f)"
  using assms(2)
proof (induction m arbitrary: p)
  case (Return s a)
  then show ?case using assms(1,3) by (auto intro: rg_pre)
qed auto

lemma rg_acatch:
  assumes "transp R" and "rg R I ans Q E' p m"
    and "\<And>e s. I s \<Longrightarrow> E' e s \<Longrightarrow> rg R I ans Q E s (h e s)"
  shows "rg R I ans Q E p (acatch m h)"
  using assms(2)
proof (induction m arbitrary: p)
  case (Throw s e)
  then show ?case using assms(1,3) by (auto intro: rg_pre)
qed auto

lemma rg_afinally:
  assumes "transp R" and "rg R I ans Q' E' p m"
    and "\<And>s. I s \<Longrightarrow> R s (f s) \<and> I (f s)"
    and "\<And>a s. I s \<Longrightarrow> Q' a s \<Longrightarrow> Q a (f s)" and "\<And>e s. I s \<Longrightarrow> E' e s \<Longrightarrow> E e (f s)"
  shows "rg R I ans Q E p (afinally m f)"
  using assms(2)
proof (induction m arbitrary: p)
  case (Return s a)
  then show ?case using assms(1,3,4) by (auto elim: transpE)
next
  case (Throw s e)
  then show ?case using assms(1,3,5) by (auto elim: transpE)
qed auto

text \<open>A run with a responder that keeps the promise.\<close>

lemma drive_rg:
  assumes "transp R" and "rg R I ans Q E p m"
    and "\<And>w q s r s' w'. env w q s = (r, s', w') \<Longrightarrow> I s \<Longrightarrow> ans q r \<and> R s s' \<and> I s'"
  shows "case drive m env w of
      (Inl e, s', _) \<Rightarrow> R p s' \<and> E e s' | (Inr a, s', _) \<Rightarrow> R p s' \<and> Q a s'"
  using assms(2)
proof (induction m arbitrary: p w)
  case (Await s q k)
  obtain r s' w' where e: "env w q s = (r, s', w')" by (cases "env w q s")
  with assms(3) Await.prems have *: "ans q r" "R s s'" "I s'" "R p s" by auto
  then have "rg R I ans Q E p (k r s')"
    using Await.prems rg_pre [OF assms(1)] transpD [OF assms(1)] by (metis rg.simps(3))
  from Await.IH [OF this] e show ?case by simp
qed auto

text \<open>The same rules in the form that reduces a goal about a program to goals about its parts.\<close>

lemma rg_bindI:
  assumes "transp R" and "rg R I ans (\<lambda>a s'. I s' \<longrightarrow> rg R I ans Q E s' (f a s')) E p (m s)"
  shows "rg R I ans Q E p (bind m f s)"
  unfolding bind_def using assms by (auto intro: rg_abind)

lemma rg_seqI:
  assumes "transp R" and "rg R I ans (\<lambda>_ s'. I s' \<longrightarrow> rg R I ans Q E s' (n s')) E p (m s)"
  shows "rg R I ans Q E p (seq m n s)"
  unfolding seq_def using assms by (auto intro: rg_abind)

lemma rg_catchI:
  assumes "transp R" and "rg R I ans Q (\<lambda>e s'. I s' \<longrightarrow> rg R I ans Q E s' (h e s')) p (m s)"
  shows "rg R I ans Q E p (try_catch m h s)"
  unfolding try_catch_def using assms by (auto intro: rg_acatch)

lemma rg_finallyI:
  assumes "transp R" and "\<And>s. I s \<Longrightarrow> R s (f s) \<and> I (f s)"
    and "rg R I ans (\<lambda>a s'. Q a (f s')) (\<lambda>e s'. E e (f s')) p (m s)"
  shows "rg R I ans Q E p (try_finally m f s)"
  unfolding try_finally_def using assms by (auto intro: rg_afinally)

text \<open>A program that may be started in any state of \<open>I\<close>; closure under the combinators.\<close>

definition obeys ::
  "('s \<Rightarrow> 's \<Rightarrow> bool) \<Rightarrow> ('s \<Rightarrow> bool) \<Rightarrow> (awaiting \<Rightarrow> reply \<Rightarrow> bool) \<Rightarrow> ('s, 'a) prog \<Rightarrow> bool" where
  "obeys R I ans m \<longleftrightarrow> (\<forall>s. I s \<longrightarrow> rg R I ans (\<lambda>_ _. True) (\<lambda>_ _. True) s (m s))"

lemma obeysI:
  "(\<And>s. I s \<Longrightarrow> rg R I ans (\<lambda>_ _. True) (\<lambda>_ _. True) s (m s)) \<Longrightarrow> obeys R I ans m"
  by (simp add: obeys_def)

lemma obeys_at:
  assumes "transp R" and "obeys R I ans m" and "R p s" and "I s"
  shows "rg R I ans (\<lambda>_ _. True) (\<lambda>_ _. True) p (m s)"
  using assms by (auto simp: obeys_def intro: rg_pre)

lemma obeys_bind:
  assumes "transp R" and "obeys R I ans m" and "\<And>a. obeys R I ans (f a)"
  shows "obeys R I ans (bind m f)"
  using assms by (auto simp: obeys_def bind_def intro: rg_abind)

lemma obeys_seq:
  assumes "transp R" and "obeys R I ans m" and "obeys R I ans n"
  shows "obeys R I ans (seq m n)"
  using assms by (auto simp: obeys_def seq_def intro: rg_abind)

lemma obeys_catch:
  assumes "transp R" and "obeys R I ans m" and "\<And>e. obeys R I ans (h e)"
  shows "obeys R I ans (try_catch m h)"
  using assms by (auto simp: obeys_def try_catch_def intro: rg_acatch)

lemma obeys_finally:
  assumes "transp R" and "obeys R I ans m" and "\<And>s. I s \<Longrightarrow> R s (f s) \<and> I (f s)"
  shows "obeys R I ans (try_finally m f)"
  using assms by (auto simp: obeys_def try_finally_def intro: rg_afinally)

lemma obeys_modify:
  "(\<And>s. I s \<Longrightarrow> R s (f s) \<and> I (f s)) \<Longrightarrow> obeys R I ans (modify f)"
  by (simp add: obeys_def modify_def)

lemma obeys_pure:
  assumes "\<And>s. R s s"
  shows "obeys R I ans (ret a)" "obeys R I ans (throw e)" "obeys R I ans (gets g)"
    "obeys R I ans (demand x t)"
  using assms by (auto simp: obeys_def async_simps split: option.split)

lemma obeys_await: "(\<And>s. R s s) \<Longrightarrow> obeys R I ans (await q)"
  by (simp add: obeys_def await_def)

lemma obeys_cases:
  "(b \<Longrightarrow> obeys R I ans m) \<Longrightarrow> (\<not> b \<Longrightarrow> obeys R I ans n) \<Longrightarrow> obeys R I ans (if b then m else n)"
  "(x = None \<Longrightarrow> obeys R I ans m) \<Longrightarrow> (\<And>a. x = Some a \<Longrightarrow> obeys R I ans (f a)) \<Longrightarrow>
   obeys R I ans (case x of None \<Rightarrow> m | Some a \<Rightarrow> f a)"
  "(\<And>a. y = Inl a \<Longrightarrow> obeys R I ans (g a)) \<Longrightarrow> (\<And>b. y = Inr b \<Longrightarrow> obeys R I ans (h b)) \<Longrightarrow>
   obeys R I ans (case y of Inl a \<Rightarrow> g a | Inr b \<Rightarrow> h b)"
  by (auto split: option.split sum.split)

text \<open>A guard that refuses, or admits after a synchronous change of the state.\<close>

lemma obeys_guard:
  assumes "transp R" and "\<And>s. R s s" and "\<And>s. I s \<Longrightarrow> R s (f s) \<and> I (f s)" and "obeys R I ans m"
  shows "obeys R I ans (\<lambda>s. if b s then Return s () else m (f s))"
  using assms by (intro obeysI) (auto intro: obeys_at)

locale cooperative =
  fixes handlers :: "('s, unit) prog set"
    and env :: "'s \<Rightarrow> 's \<Rightarrow> bool"
    and ans :: "awaiting \<Rightarrow> reply \<Rightarrow> bool"
    and R :: "'s \<Rightarrow> 's \<Rightarrow> bool"
    and I :: "'s \<Rightarrow> bool"
  assumes R_refl: "R s s"
    and R_trans: "transp R"
    and handler: "h \<in> handlers \<Longrightarrow> I s \<Longrightarrow> rg R I ans (\<lambda>_ _. True) (\<lambda>_ _. True) s (h s)"
    and outside: "env s s' \<Longrightarrow> I s \<Longrightarrow> R s s' \<and> I s'"
begin

definition waits :: "'s \<Rightarrow> 's task \<Rightarrow> bool" where
  "waits s t \<longleftrightarrow> (\<exists>s0. R s0 s \<and> (\<forall>r s'. ans (fst t) r \<longrightarrow> I s' \<longrightarrow> R s0 s' \<longrightarrow>
     rg R I ans (\<lambda>_ _. True) (\<lambda>_ _. True) s' (snd t r s')))"

lemma waits_mono: "waits s t \<Longrightarrow> R s s' \<Longrightarrow> waits s' t"
  unfolding waits_def using R_trans by (meson transpE)

definition sound :: "'s config \<Rightarrow> bool" where
  "sound c \<longleftrightarrow> I (fst c) \<and> (\<forall>t \<in> set (snd c). waits (fst c) t)"

lemma absorb_sound:
  assumes "rg R I ans (\<lambda>_ _. True) (\<lambda>_ _. True) p m" and "\<forall>t \<in> set ts. waits p t"
  shows "sound (absorb m ts) \<and> R p (fst (absorb m ts))"
proof (cases m)
  case (Await s q k)
  with assms(1) have "waits s (q, k)"
    unfolding waits_def using R_refl by auto
  with Await assms show ?thesis
    by (auto simp: sound_def intro: waits_mono)
qed (use assms in \<open>auto simp: sound_def intro: waits_mono\<close>)

lemma step_sound:
  assumes "loop_step handlers env ans c c'" and "sound c"
  shows "sound c' \<and> R (fst c) (fst c')"
  using assms
proof (cases rule: loop_step.cases)
  case (start h s ts)
  with assms(2) handler have "rg R I ans (\<lambda>_ _. True) (\<lambda>_ _. True) s (h s)"
    by (simp add: sound_def)
  with start assms(2) show ?thesis using absorb_sound by (fastforce simp: sound_def)
next
  case (resume q r s us k vs)
  with assms(2) have "waits s (q, k)" and "I s" by (auto simp: sound_def)
  with resume have "rg R I ans (\<lambda>_ _. True) (\<lambda>_ _. True) s (k r s)"
    unfolding waits_def by auto
  with resume assms(2) show ?thesis using absorb_sound [of s "k r s" "us @ vs"]
    by (auto simp: sound_def)
next
  case (outside s s' ts)
  with assms(2) have "R s s'" and "I s'" using cooperative.outside [OF cooperative_axioms]
    by (auto simp: sound_def)
  with outside assms(2) show ?thesis by (auto simp: sound_def intro: waits_mono)
qed

theorem reaches_sound:
  assumes "I s0" and "reaches handlers env ans s0 c"
  shows "I (fst c) \<and> R s0 (fst c)"
proof -
  from assms(2) have "sound c \<and> R s0 (fst c)"
  proof (induction rule: reaches_induct)
    case init
    show ?case using assms(1) R_refl by (simp add: sound_def)
  next
    case (step c c')
    then show ?case using step_sound R_trans by (meson transpE)
  qed
  then show ?thesis by (simp add: sound_def)
qed

end

subsection \<open>Handlers serialised by a flag\<close>

text \<open>
  \<open>keeps own P ans Q E m\<close>: whenever the resumption \<open>m\<close> waits for \<open>q\<close>, its fields \<open>own\<close> satisfy
  \<open>P q\<close>, provided nobody else changes them meanwhile; they satisfy \<open>Q\<close> with its value and \<open>E\<close>
  with its error. \<open>owns\<close> is the contract of the whole handler: the flag is set at each suspension
  and clear at the end, the data invariant holds at both, and what is awaited agrees with the data.
\<close>

primrec keeps ::
  "('s \<Rightarrow> 'o) \<Rightarrow> (awaiting \<Rightarrow> 'o \<Rightarrow> bool) \<Rightarrow> (awaiting \<Rightarrow> reply \<Rightarrow> bool) \<Rightarrow> ('a \<Rightarrow> 'o \<Rightarrow> bool) \<Rightarrow>
   (js_error \<Rightarrow> 'o \<Rightarrow> bool) \<Rightarrow> ('s, 'a) async \<Rightarrow> bool" where
  "keeps own P ans Q E (Return s a) \<longleftrightarrow> Q a (own s)"
| "keeps own P ans Q E (Throw s e) \<longleftrightarrow> E e (own s)"
| "keeps own P ans Q E (Await s q k) \<longleftrightarrow> P q (own s) \<and>
     (\<forall>r s'. ans q r \<longrightarrow> own s' = own s \<longrightarrow> keeps own P ans Q E (k r s'))"

definition owns ::
  "('s \<Rightarrow> 'o) \<Rightarrow> ('o \<Rightarrow> bool) \<Rightarrow> ('o \<Rightarrow> bool) \<Rightarrow> (awaiting \<Rightarrow> 'o \<Rightarrow> bool) \<Rightarrow>
   (awaiting \<Rightarrow> reply \<Rightarrow> bool) \<Rightarrow> ('s, 'a) async \<Rightarrow> bool"
  where
  "owns own busy inva sends ans = keeps own (\<lambda>q x. busy x \<and> inva x \<and> sends q x) ans
     (\<lambda>_ x. \<not> busy x \<and> inva x) (\<lambda>_ x. \<not> busy x \<and> inva x)"

lemma keeps_mono:
  assumes "keeps own P ans Q E m" and "\<And>q x. P q x \<Longrightarrow> P' q x"
    and "\<And>a x. Q a x \<Longrightarrow> Q' a x" and "\<And>e x. E e x \<Longrightarrow> E' e x"
  shows "keeps own P' ans Q' E' m"
  using assms by (induction m) auto

text \<open>The same for a run with a responder that does not touch the fields.\<close>

lemma drive_keeps:
  assumes "keeps own P ans Q E m"
    and "\<And>w q s r s' w'. env w q s = (r, s', w') \<Longrightarrow> ans q r \<and> own s' = own s"
  shows "case drive m env w of
      (Inl e, s', _) \<Rightarrow> E e (own s') | (Inr a, s', _) \<Rightarrow> Q a (own s')"
  using assms(1)
proof (induction m arbitrary: w)
  case (Await s q k)
  obtain r s' w' where e: "env w q s = (r, s', w')" by (cases "env w q s")
  with assms(2) Await.prems have "keeps own P ans Q E (k r s')" by auto
  from Await.IH [OF this] e show ?case by simp
qed auto

lemma keeps_abind:
  assumes "keeps own P ans Q' E m"
    and "\<And>a s. Q' a (own s) \<Longrightarrow> keeps own P ans Q E (f a s)"
  shows "keeps own P ans Q E (abind m f)"
  using assms by (induction m) auto

lemma keeps_acatch:
  assumes "keeps own P ans Q E' m"
    and "\<And>e s. E' e (own s) \<Longrightarrow> keeps own P ans Q E (h e s)"
  shows "keeps own P ans Q E (acatch m h)"
  using assms by (induction m) auto

lemma keeps_afinally:
  assumes "keeps own P ans Q' E' m"
    and "\<And>a s. Q' a (own s) \<Longrightarrow> Q a (own (f s))" and "\<And>e s. E' e (own s) \<Longrightarrow> E e (own (f s))"
  shows "keeps own P ans Q E (afinally m f)"
  using assms by (induction m) auto

lemma keeps_bindI:
  assumes "keeps own P ans (\<lambda>a x. \<forall>s'. own s' = x \<longrightarrow> keeps own P ans Q E (f a s')) E (m s)"
  shows "keeps own P ans Q E (bind m f s)"
  unfolding bind_def by (rule keeps_abind [OF assms]) simp

lemma keeps_seqI:
  assumes "keeps own P ans (\<lambda>_ x. \<forall>s'. own s' = x \<longrightarrow> keeps own P ans Q E (n s')) E (m s)"
  shows "keeps own P ans Q E (seq m n s)"
  unfolding seq_def by (rule keeps_abind [OF assms]) simp

lemma keeps_catchI:
  assumes "keeps own P ans Q (\<lambda>e x. \<forall>s'. own s' = x \<longrightarrow> keeps own P ans Q E (h e s')) (m s)"
  shows "keeps own P ans Q E (try_catch m h s)"
  unfolding try_catch_def by (rule keeps_acatch [OF assms]) simp

lemma keeps_finallyI:
  assumes "keeps own P ans (\<lambda>a x. \<forall>s'. own s' = x \<longrightarrow> Q a (own (f s')))
             (\<lambda>e x. \<forall>s'. own s' = x \<longrightarrow> E e (own (f s'))) (m s)"
  shows "keeps own P ans Q E (try_finally m f s)"
  unfolding try_finally_def by (rule keeps_afinally [OF assms]) simp_all

text \<open>The same with the two postconditions of the first part given.\<close>

lemma keeps_bind:
  assumes "keeps own P ans Q' E (m s)"
    and "\<And>a s'. Q' a (own s') \<Longrightarrow> keeps own P ans Q E (f a s')"
  shows "keeps own P ans Q E (bind m f s)"
  unfolding bind_def by (rule keeps_abind [OF assms])

lemma keeps_seq:
  assumes "keeps own P ans Q' E (m s)"
    and "\<And>a s'. Q' a (own s') \<Longrightarrow> keeps own P ans Q E (n s')"
  shows "keeps own P ans Q E (seq m n s)"
  unfolding seq_def by (rule keeps_abind [OF assms])

text \<open>The shape all these handlers have, once for all: a body between a catch and a finally block.\<close>

lemma owns_try:
  assumes body: "keeps own (\<lambda>q x. G x \<and> sends q x) ans (\<lambda>_. H) (\<lambda>_. H) (m s)"
    and during: "\<And>x. G x \<Longrightarrow> busy x \<and> inva x"
    and caught: "\<And>e s. H (own s) \<Longrightarrow> H (own (h e s))"
    and finished: "\<And>s. H (own s) \<Longrightarrow> \<not> busy (own (f s)) \<and> inva (own (f s))"
  shows "owns own busy inva sends ans (try_finally (try_catch m (\<lambda>e. modify (h e))) f s)"
proof -
  let ?P = "\<lambda>q x. G x \<and> sends q x"
  have handled: "keeps own ?P ans (\<lambda>_. H) (\<lambda>_. H) (acatch (m s) (\<lambda>e. modify (h e)))"
    by (rule keeps_acatch [OF body]) (simp add: modify_def caught)
  have "keeps own ?P ans (\<lambda>_ x. \<not> busy x \<and> inva x) (\<lambda>_ x. \<not> busy x \<and> inva x)
      (afinally (acatch (m s) (\<lambda>e. modify (h e))) f)"
    by (rule keeps_afinally [OF handled]) (rule finished, assumption)+
  then show ?thesis
    unfolding owns_def try_finally_def try_catch_def
    by (rule keeps_mono) (use during in auto)
qed

text \<open>
  \<open>survives own ans A lost Q m\<close>: whenever the resumption \<open>m\<close> waits for an operation of \<open>A\<close>, with the fields \<open>v\<close>,
  and this and every later operation has a reply of \<open>lost\<close>, it ends with fields \<open>v'\<close> such that \<open>Q v v'\<close>.
\<close>

primrec survives ::
  "('s \<Rightarrow> 'o) \<Rightarrow> (awaiting \<Rightarrow> reply \<Rightarrow> bool) \<Rightarrow> (awaiting \<Rightarrow> bool) \<Rightarrow> (awaiting \<Rightarrow> reply \<Rightarrow> bool) \<Rightarrow>
   ('o \<Rightarrow> 'o \<Rightarrow> bool) \<Rightarrow> ('s, 'a) async \<Rightarrow> bool" where
  "survives own ans A lost Q (Return s a) = True"
| "survives own ans A lost Q (Throw s e) = True"
| "survives own ans A lost Q (Await s q k) \<longleftrightarrow>
     (A q \<longrightarrow> (\<forall>r s'. lost q r \<longrightarrow> own s' = own s \<longrightarrow>
        keeps own (\<lambda>_ _. True) lost (\<lambda>_. Q (own s)) (\<lambda>_. Q (own s)) (k r s'))) \<and>
     (\<forall>r s'. ans q r \<longrightarrow> own s' = own s \<longrightarrow> survives own ans A lost Q (k r s'))"

text \<open>A resumption that never waits for such an operation, or only at its start.\<close>

lemma survives_never: "keeps own (\<lambda>q _. \<not> A q) ans (\<lambda>_ _. True) (\<lambda>_ _. True) m \<Longrightarrow> survives own ans A lost Q m"
  by (induction m) auto

lemma survives_once:
  assumes "m = Await s q k" and "keeps own (\<lambda>_ _. True) lost (\<lambda>_. Q (own s)) (\<lambda>_. Q (own s)) m"
    and "\<And>r s'. ans q r \<Longrightarrow> own s' = own s \<Longrightarrow> keeps own (\<lambda>q _. \<not> A q) ans (\<lambda>_ _. True) (\<lambda>_ _. True) (k r s')"
  shows "survives own ans A lost Q m"
  using assms by (auto intro: survives_never)

text \<open>What comes before inside a \<open>try\<close> block, and the rest of it.\<close>

lemma survives_after:
  assumes "keeps own (\<lambda>q _. \<not> A q) ans (\<lambda>_ _. True) (\<lambda>_ _. True) m"
    and "\<And>a s. survives own ans A lost Q (afinally (acatch (f a s) h) g)"
    and "\<And>e s. survives own ans A lost Q (afinally (h e s) g)"
  shows "survives own ans A lost Q (afinally (acatch (abind m f) h) g)"
  using assms(1) by (induction m) (auto simp: assms(2,3))

locale exclusive =
  fixes handlers :: "('s, unit) prog set"
    and env :: "'s \<Rightarrow> 's \<Rightarrow> bool"
    and ans :: "awaiting \<Rightarrow> reply \<Rightarrow> bool"
    and own :: "'s \<Rightarrow> 'o"
    and busy :: "'o \<Rightarrow> bool"
    and inva :: "'o \<Rightarrow> bool"
    and sends :: "awaiting \<Rightarrow> 'o \<Rightarrow> bool"
  assumes refused: "h \<in> handlers \<Longrightarrow> busy (own s) \<Longrightarrow> \<exists>s'. h s = Return s' () \<and> own s' = own s"
    and admitted: "h \<in> handlers \<Longrightarrow> \<not> busy (own s) \<Longrightarrow> inva (own s) \<Longrightarrow>
      owns own busy inva sends ans (h s)"
    and others: "env s s' \<Longrightarrow> own s' = own s"
begin

definition serial :: "'s config \<Rightarrow> bool" where
  "serial c \<longleftrightarrow> inva (own (fst c)) \<and>
     (if busy (own (fst c))
      then \<exists>q k. snd c = [(q, k)] \<and> sends q (own (fst c)) \<and>
        (\<forall>r s'. ans q r \<longrightarrow> own s' = own (fst c) \<longrightarrow> owns own busy inva sends ans (k r s'))
      else snd c = [])"

lemma absorb_serial: "owns own busy inva sends ans m \<Longrightarrow> serial (absorb m [])"
  by (cases m) (auto simp: serial_def owns_def)

lemma step_serial:
  assumes "loop_step handlers env ans c c'" and "serial c"
  shows "serial c'"
  using assms
proof (cases rule: loop_step.cases)
  case (start h s ts)
  show ?thesis
  proof (cases "busy (own s)")
    case True
    with start refused obtain s' where "h s = Return s' ()" and "own s' = own s" by blast
    with start assms(2) show ?thesis by (auto simp: serial_def split: if_splits)
  next
    case False
    with start assms(2) have "ts = []" and "inva (own s)" by (auto simp: serial_def)
    with start False admitted show ?thesis by (auto intro: absorb_serial)
  qed
next
  case (resume q r s us k vs)
  with assms(2) have "us = []" and "vs = []" and "owns own busy inva sends ans (k r s)"
    by (auto simp: serial_def append_eq_Cons_conv split: if_splits)
  with resume show ?thesis by (auto intro: absorb_serial)
next
  case (outside s s' ts)
  with assms(2) others show ?thesis by (auto simp: serial_def)
qed

theorem reaches_serial:
  assumes "\<not> busy (own s0)" and "inva (own s0)" and "reaches handlers env ans s0 c"
  shows "serial c"
  using assms(3)
proof (induction rule: reaches_induct)
  case init
  show ?case using assms(1,2) by (simp add: serial_def)
next
  case (step c c')
  then show ?case by (blast intro: step_serial)
qed

text \<open>
  At most one operation is in flight, the flag says whether, the data invariant holds, and what
  is awaited agrees with the data.
\<close>

corollary one_in_flight:
  assumes "\<not> busy (own s0)" and "inva (own s0)" and "reaches handlers env ans s0 c"
  shows "length (snd c) = (if busy (own (fst c)) then 1 else 0) \<and> inva (own (fst c)) \<and>
    (\<forall>t \<in> set (snd c). sends (fst t) (own (fst c)))"
  using reaches_serial [OF assms] by (auto simp: serial_def split: if_splits)

text \<open>What every handler promises for lost replies holds of the operation in flight.\<close>

lemma absorb_survives:
  "survives own ans A lost Q m \<Longrightarrow> \<forall>(q, k) \<in> set (snd (absorb m [])). survives own ans A lost Q (Await (fst (absorb m [])) q k)"
  by (cases m) auto

theorem in_flight_survives:
  assumes "\<not> busy (own s0)" and "inva (own s0)" and "reaches handlers env ans s0 c"
    and promise: "\<And>h s. h \<in> handlers \<Longrightarrow> \<not> busy (own s) \<Longrightarrow> survives own ans A lost Q (h s)"
  shows "\<forall>(q, k) \<in> set (snd c). survives own ans A lost Q (Await (fst c) q k)"
  using assms(3)
proof (induction rule: reaches_induct)
  case (step c c')
  note serial = reaches_serial [OF assms(1,2) step(1)]
  from step(2) show ?case
  proof (cases rule: loop_step.cases)
    case (start h s ts)
    show ?thesis
    proof (cases "busy (own s)")
      case True
      with start refused obtain s' where "h s = Return s' ()" and "own s' = own s" by blast
      with start step(3) show ?thesis by auto
    next
      case False
      with start serial have "ts = []" by (simp add: serial_def)
      with start absorb_survives [OF promise [OF _ False]] show ?thesis by auto
    qed
  next
    case (resume q r s us k vs)
    with serial have "us = []" "vs = []" by (auto simp: serial_def append_eq_Cons_conv split: if_splits)
    moreover from resume step(3) have "survives own ans A lost Q (k r s)" by auto
    ultimately show ?thesis using resume absorb_survives by auto
  next
    case (outside s s' ts)
    with step(3) others show ?thesis by auto
  qed
qed simp

end

end
