(* ===== verification/Session.thy ===== *)
theory Session
  imports Cooperation
begin

text \<open>
  \<open>internal/console/web/demo-reset.js\<close>: the demo session of a browser tab. A generation names one
  saved demo dataset; every API call carries it, a reply with another generation means that the
  demo was cleared elsewhere, and then the tab drops its saved runs, remembers the new generation
  and reloads. The first part is what the pages keep in \<open>sessionStorage\<close>; JSON text and its
  parsing are idealised there, a value read back is the value written.
\<close>

subsection \<open>What the pages save\<close>

text \<open>A live proof run (\<open>proof.js\<close>); a stage is \<open>None\<close> until it is verified, then its time.\<close>

record proof_run =
  run_id :: string
  run_started :: int
  run_storage :: string
  run_transport :: string
  plan_campaign :: string
  plan_screen :: string
  plan_keys :: "string list"
  plan_events :: "string list"
  run_steps :: "int option list"
  run_current :: nat
  run_holds :: "reservation list"
  run_payload :: "batch_item list"
  run_correction :: "receipt option"
  run_batch :: "batch_response option"
  run_replay :: "batch_response option"
  run_initial :: "evidence list option"
  run_corrected :: "string option"
  run_final :: "evidence list option"
  run_completed :: "int option"
  run_last_error :: "string option"

record traffic_attempt =
  att_batch :: payload
  att_confirmed :: bool

text \<open>What a storage keeps under a key: a text, or the text of a JSON value, by that value.\<close>

datatype stored = Text string | SavedRun proof_run | SavedTraffic json

subsection \<open>The document\<close>

text \<open>
  The clock (\<open>Date.now()\<close>), the supply of \<open>crypto.randomUUID()\<close>, the two storages, whether the
  browser lets the page use them, and the session's variables \<open>generation\<close> and \<open>invalidated\<close>;
  \<open>reloads\<close> counts calls of \<open>location.reload()\<close>. The last three belong to the reset dialog.
\<close>

record page =
  clock :: int
  uuid_src :: "nat \<Rightarrow> string"
  uuid_next :: nat
  storage_ok :: bool
  session_store :: "string \<rightharpoonup> stored"
  local_store :: "string \<rightharpoonup> stored"
  generation :: "string option"
  invalidated :: bool
  reloads :: nat
  reset_open :: bool
  reset_pending :: bool
  reset_notice :: string

definition random_uuid :: "('a page_scheme, string) prog" where
  [async_simps]: "random_uuid s = Return (s\<lparr>uuid_next := Suc (uuid_next s)\<rparr>) (uuid_src s (uuid_next s))"

text \<open>\<open>setItem\<close> and \<open>removeItem\<close> inside \<open>try { ... } catch {}\<close>.\<close>

definition set_item :: "string \<Rightarrow> stored \<Rightarrow> 'a page_scheme \<Rightarrow> 'a page_scheme" where
  "set_item k v s = (if storage_ok s then s\<lparr>session_store := (session_store s)(k \<mapsto> v)\<rparr> else s)"

definition remove_item :: "string \<Rightarrow> 'a page_scheme \<Rightarrow> 'a page_scheme" where
  "remove_item k s = (if storage_ok s then s\<lparr>session_store := (session_store s)(k := None)\<rparr> else s)"

definition set_local :: "string \<Rightarrow> stored \<Rightarrow> 'a page_scheme \<Rightarrow> 'a page_scheme" where
  "set_local k v s = (if storage_ok s then s\<lparr>local_store := (local_store s)(k \<mapsto> v)\<rparr> else s)"

text \<open>A string, \<open>null\<close> or \<open>undefined\<close> as a condition: only a non-empty string counts.\<close>

fun truthy :: "string option \<Rightarrow> bool" where
  "truthy None = False"
| "truthy (Some t) = (t \<noteq> [])"

subsection \<open>The demo session\<close>

definition generation_key :: string where "generation_key = ''afterglow.demo-generation.v1''"
definition broadcast_key :: string where "broadcast_key = ''afterglow.demo-reset.v1''"
definition proof_key :: string where "proof_key = ''afterglow.integration-proof.v1''"
definition traffic_key :: string where "traffic_key = ''afterglow.foot-traffic.v2''"
definition run_keys :: "string list" where "run_keys = [proof_key, traffic_key]"

lemmas keys_defs = generation_key_def broadcast_key_def proof_key_def traffic_key_def run_keys_def

definition session_init :: "'a page_scheme \<Rightarrow> 'a page_scheme" where
  "session_init s = s\<lparr>invalidated := False, generation :=
     (if storage_ok s
      then case session_store s generation_key of Some (Text t) \<Rightarrow> Some t | _ \<Rightarrow> None
      else None)\<rparr>"

definition remember :: "string \<Rightarrow> 'a page_scheme \<Rightarrow> 'a page_scheme" where
  "remember nxt s = set_item generation_key (Text nxt) (s\<lparr>generation := Some nxt\<rparr>)"

definition clear :: "string \<Rightarrow> 'a page_scheme \<Rightarrow> 'a page_scheme" where
  "clear nxt s = remember nxt (fold remove_item run_keys s)"

definition reload :: "string \<Rightarrow> bool \<Rightarrow> 'a page_scheme \<Rightarrow> 'a page_scheme" where
  "reload nxt broadcast s =
     (if invalidated s then s
      else let s1 = clear nxt (s\<lparr>invalidated := True\<rparr>);
               s2 = (if broadcast then set_local broadcast_key (Text nxt) s1 else s1)
           in s2\<lparr>reloads := Suc (reloads s2)\<rparr>)"

definition active_session :: "'a page_scheme \<Rightarrow> bool" where
  "active_session s \<longleftrightarrow> \<not> invalidated s"

definition cleared_error :: js_error where
  "cleared_error = js_err ''Demo data was cleared. Reloading this page.''"

definition stamp :: "'a page_scheme \<Rightarrow> http_request \<Rightarrow> http_request" where
  "stamp s rq = (if truthy (generation s) then rq\<lparr>rq_generation := generation s\<rparr> else rq)"

text \<open>What \<open>send\<close> does once \<open>fetch\<close> has resolved.\<close>

definition receive :: "bool \<Rightarrow> http_response \<Rightarrow> ('a page_scheme, http_response) prog" where
  "receive resetting resp s =
     (if invalidated s then Throw s cleared_error
      else let nxt = rs_generation resp in
        if truthy nxt \<and> (\<not> resetting \<or> \<not> ok resp)
        then if truthy (generation s) \<and> generation s \<noteq> nxt
             then Throw (reload (the nxt) False s) cleared_error
             else Return (remember (the nxt) s) resp
        else Return s resp)"

definition send :: "http_request \<Rightarrow> bool \<Rightarrow> ('a page_scheme, http_response) prog" where
  "send rq resetting s =
     (if invalidated s then Throw s cleared_error
      else Await s (Fetch (stamp s rq)) (\<lambda>r s1.
        case r of
          Responded resp \<Rightarrow> receive resetting resp s1
        | Refused m \<Rightarrow> Throw s1 (js_err m)
        | _ \<Rightarrow> Throw s1 (js_err [])))"

text \<open>\<open>await response.json()\<close>, which rejects when the body is not JSON.\<close>

definition read_json :: "http_request \<Rightarrow> ('a page_scheme, payload) prog" where
  "read_json rq s = Await s (ReadBody rq) (\<lambda>r s1.
     case r of
       Body p \<Rightarrow> Return s1 p
     | BadBody m \<Rightarrow> Throw s1 (js_err m)
     | _ \<Rightarrow> Throw s1 (js_err []))"

text \<open>The \<open>storage\<close> event: another tab of the same origin wrote \<open>localStorage\<close>.\<close>

definition on_storage :: "string \<Rightarrow> string option \<Rightarrow> ('a page_scheme, unit) prog" where
  "on_storage key new s =
     (if key = broadcast_key \<and> truthy new \<and> truthy (generation s) \<and> new \<noteq> generation s
      then Return (reload (the new) False s) () else Return s ())"

definition reset_session :: "string \<Rightarrow> 'a page_scheme \<Rightarrow> 'a page_scheme" where
  "reset_session nxt = reload nxt True"

subsection \<open>The reset dialog\<close>

definition open_reset :: "('a page_scheme, unit) prog" where
  "open_reset s = Return (s\<lparr>reset_notice := [], reset_open := True\<rparr>) ()"

text \<open>The cancel button is disabled, and the dialog's \<open>cancel\<close> event prevented, while a reset runs.\<close>

definition cancel_reset :: "('a page_scheme, unit) prog" where
  "cancel_reset s = (if reset_pending s then Return s () else Return (s\<lparr>reset_open := False\<rparr>) ())"

definition reset_request :: http_request where
  "reset_request = post_request ''/api/demo/reset'' (P_confirm True)"

fun reset_result :: "http_response \<Rightarrow> payload \<Rightarrow> js_error + string" where
  "reset_result resp (P_reset cleared next) =
     (if \<not> ok resp \<or> \<not> cleared \<or> next = []
      then Inl (js_err ''The reset could not be confirmed.'') else Inr next)"
| "reset_result resp data =
     Inl (js_err (if truthy (detail_of data) then the (detail_of data)
                  else ''The reset could not be confirmed.''))"

definition confirm_reset :: "('a page_scheme, unit) prog" where
  "confirm_reset s =
     (if reset_pending s then Return s ()
      else try_catch
        (bind (send reset_request True) (\<lambda>resp.
         bind (read_json reset_request) (\<lambda>data.
           case reset_result resp data of
             Inl e \<Rightarrow> throw e
           | Inr next \<Rightarrow> modify (reset_session next))))
        (\<lambda>e. modify (\<lambda>s1. s1\<lparr>reset_notice := err_message e @
             '' Refresh to check the current state before trying again.'',
           reset_pending := False\<rparr>))
        (s\<lparr>reset_pending := True,
           reset_notice := ''Finishing active work and clearing the demo...''\<rparr>))"

definition storage_handlers :: "('a page_scheme, unit) prog set" where
  "storage_handlers = {on_storage k v | k v. True}"

definition session_handlers :: "('a page_scheme, unit) prog set" where
  "session_handlers = {open_reset, cancel_reset, confirm_reset} \<union> storage_handlers"

text \<open>The document as the browser makes it: empty storages and a supply of names.\<close>

definition fresh_page :: page where
  "fresh_page = \<lparr>clock = 0, uuid_src = (\<lambda>n. ''uuid-'' @ replicate n (CHR ''x'')), uuid_next = 0,
     storage_ok = True, session_store = Map.empty, local_store = Map.empty, generation = None,
     invalidated = False, reloads = 0, reset_open = False, reset_pending = False,
     reset_notice = []\<rparr>"

subsection \<open>What the operations change\<close>

lemma storage_frame [simp]:
  "generation (set_item k v s) = generation s" "invalidated (set_item k v s) = invalidated s"
  "storage_ok (set_item k v s) = storage_ok s" "reloads (set_item k v s) = reloads s"
  "generation (remove_item k s) = generation s" "invalidated (remove_item k s) = invalidated s"
  "storage_ok (remove_item k s) = storage_ok s" "reloads (remove_item k s) = reloads s"
  "generation (set_local k v s) = generation s" "invalidated (set_local k v s) = invalidated s"
  "storage_ok (set_local k v s) = storage_ok s" "reloads (set_local k v s) = reloads s"
  "session_store (set_local k v s) = session_store s"
  "local_store (set_item k v s) = local_store s" "local_store (remove_item k s) = local_store s"
  by (simp_all add: set_item_def remove_item_def set_local_def)

lemma set_item_lookup [simp]:
  "session_store (set_item k v s) j =
     (if storage_ok s \<and> j = k then Some v else session_store s j)"
  by (simp add: set_item_def)

lemma remove_item_lookup [simp]:
  "session_store (remove_item k s) j = (if storage_ok s \<and> j = k then None else session_store s j)"
  by (simp add: remove_item_def)

lemma remember_sel [simp]:
  "generation (remember n s) = Some n" "invalidated (remember n s) = invalidated s"
  "storage_ok (remember n s) = storage_ok s" "reloads (remember n s) = reloads s"
  "local_store (remember n s) = local_store s"
  "session_store (remember n s) j =
     (if storage_ok s \<and> j = generation_key then Some (Text n) else session_store s j)"
  by (simp_all add: remember_def)

lemma clear_sel [simp]:
  "generation (clear n s) = Some n" "invalidated (clear n s) = invalidated s"
  "storage_ok (clear n s) = storage_ok s" "reloads (clear n s) = reloads s"
  "local_store (clear n s) = local_store s"
  by (simp_all add: clear_def run_keys_def)

lemma clear_store [simp]:
  "session_store (clear n s) j =
     (if \<not> storage_ok s then session_store s j
      else if j = generation_key then Some (Text n)
      else if j \<in> set run_keys then None else session_store s j)"
  by (simp add: clear_def run_keys_def)

lemma reload_sel [simp]:
  "invalidated (reload n b s)" "storage_ok (reload n b s) = storage_ok s"
  "\<not> invalidated s \<Longrightarrow> generation (reload n b s) = Some n"
  "\<not> invalidated s \<Longrightarrow> reloads (reload n b s) = Suc (reloads s)"
  "\<not> invalidated s \<Longrightarrow> session_store (reload n b s) = session_store (clear n s)"
  by (auto simp: reload_def Let_def fun_eq_iff)

lemma stamp_sel [simp]:
  "rq_post (stamp s rq) = rq_post rq" "rq_path (stamp s rq) = rq_path rq"
  "rq_key (stamp s rq) = rq_key rq" "rq_body (stamp s rq) = rq_body rq"
  by (simp_all add: stamp_def)

lemma generation_key_not_run [simp]: "generation_key \<notin> set run_keys"
  by (simp add: keys_defs)

subsection \<open>Clients of the session that share a promise\<close>

text \<open>
  A relation and an invariant of the whole page that the session's own steps respect; then every
  request obeys them too, and its value is a body some reply to it carried.
\<close>

locale session_client =
  fixes R :: "('a page_scheme) \<Rightarrow> 'a page_scheme \<Rightarrow> bool"
    and I :: "'a page_scheme \<Rightarrow> bool"
    and ans :: "awaiting \<Rightarrow> reply \<Rightarrow> bool"
  assumes same: "R s s"
    and chain: "transp R"
    and remembers: "I s \<Longrightarrow> \<not> invalidated s \<Longrightarrow> (truthy (generation s) \<longrightarrow> generation s = Some n) \<Longrightarrow>
      R s (remember n s) \<and> I (remember n s)"
    and reloaded: "I s \<Longrightarrow> R s (reload n b s) \<and> I (reload n b s)"
begin

lemma rg_receive:
  assumes "I s" and "\<And>r s'. R s s' \<Longrightarrow> I s' \<Longrightarrow> Q r s'" and "\<And>e s'. R s s' \<Longrightarrow> I s' \<Longrightarrow> E e s'"
  shows "rg R I ans Q E s (receive b resp s)"
  using assms same remembers [OF assms(1)] reloaded [OF assms(1)]
  by (cases "rs_generation resp") (auto simp: receive_def Let_def)

lemma rg_send:
  assumes "I s" and "\<And>r s'. R s s' \<Longrightarrow> I s' \<Longrightarrow> Q r s'" and "\<And>e s'. R s s' \<Longrightarrow> I s' \<Longrightarrow> E e s'"
  shows "rg R I ans Q E s (send rq b s)"
proof -
  have "rg R I ans Q E s' (receive b resp s')" if "R s s'" and "I s'" for s' resp
    by (rule rg_receive) (use that assms transpD [OF chain that(1)] in auto)
  then show ?thesis using assms same by (auto simp: send_def split: reply.splits)
qed

lemma obeys_send: "obeys R I ans (send rq b)"
  by (intro obeysI rg_send) auto

lemma obeys_read_json: "obeys R I ans (read_json rq)"
  by (auto simp: obeys_def read_json_def same split: reply.splits)

lemmas obeys_session =
  obeys_bind [OF chain] obeys_seq [OF chain] obeys_catch [OF chain]
  obeys_finally [OF chain] obeys_modify obeys_pure [where R = R, OF same] obeys_await [where R = R, OF same]
  obeys_send obeys_read_json obeys_cases

end

subsection \<open>One dataset per document\<close>

text \<open>
  The promise of every script of the page: once a generation is known it stays the same until the
  document is invalidated, and an invalidated document keeps what the reload left behind.
\<close>

definition same_session :: "'a page_scheme \<Rightarrow> 'a page_scheme \<Rightarrow> bool" where
  "same_session s s' \<longleftrightarrow> storage_ok s' = storage_ok s \<and>
     (invalidated s \<longrightarrow> invalidated s' \<and> generation s' = generation s) \<and>
     (\<not> invalidated s' \<and> truthy (generation s) \<longrightarrow> generation s' = generation s)"

definition retired :: "'a page_scheme \<Rightarrow> bool" where
  "retired s \<longleftrightarrow> reloads s = (if invalidated s then 1 else 0) \<and>
     (invalidated s \<and> storage_ok s \<longrightarrow>
        session_store s proof_key = None \<and> session_store s traffic_key = None \<and>
        session_store s generation_key = map_option Text (generation s))"

lemma same_session_refl [simp]: "same_session s s"
  by (simp add: same_session_def)

lemma same_session_trans: "transp same_session"
  by (rule transpI) (auto simp: same_session_def)

lemma retired_reload: "retired s \<Longrightarrow> retired (reload n b s)"
  by (cases "invalidated s") (simp_all add: retired_def run_keys_def reload_def [of n b s],
      simp_all add: keys_defs Let_def)

interpretation doc: session_client same_session retired ans for ans
proof (unfold_locales, goal_cases)
  case (3 s n)
  then show ?case by (auto simp: same_session_def retired_def)
next
  case (4 s n b)
  then show ?case
    by (cases "invalidated s") (auto simp: retired_reload same_session_def, simp add: reload_def)
qed (simp_all add: same_session_trans)

text \<open>A synchronous change outside of the session's fields.\<close>

definition beside_session :: "('a page_scheme \<Rightarrow> 'a page_scheme) \<Rightarrow> bool" where
  "beside_session f \<longleftrightarrow> (\<forall>s. storage_ok (f s) = storage_ok s \<and> invalidated (f s) = invalidated s \<and>
     generation (f s) = generation s \<and> reloads (f s) = reloads s \<and>
     session_store (f s) = session_store s)"

lemma beside_sessionD: "beside_session f \<Longrightarrow> retired s \<Longrightarrow> same_session s (f s) \<and> retired (f s)"
  by (simp add: beside_session_def same_session_def retired_def)

lemma obeys_entered:
  assumes "obeys same_session retired ans m" and "beside_session f" and "retired s"
  shows "rg same_session retired ans (\<lambda>_ _. True) (\<lambda>_ _. True) s (m (f s))"
  using obeys_at [OF same_session_trans assms(1)] beside_sessionD [OF assms(2,3)] by blast

text \<open>Saving a run is a no-op in an invalidated document.\<close>

lemma guarded_save:
  "retired s \<Longrightarrow> k \<in> set run_keys \<Longrightarrow>
   same_session s (if invalidated s then s else set_item k v s) \<and>
   retired (if invalidated s then s else set_item k v s)"
  by (simp add: same_session_def retired_def)

lemma obeys_on_storage: "obeys same_session retired ans (on_storage k v)"
  by (rule obeysI) (auto simp: on_storage_def doc.reloaded)

lemma obeys_confirm_reset: "obeys same_session retired ans confirm_reset"
  unfolding confirm_reset_def [abs_def]
  by (intro obeys_guard doc.obeys_session same_session_trans same_session_refl)
     (simp_all add: reset_session_def doc.reloaded, simp_all add: same_session_def retired_def)

lemma obeys_session_handlers:
  "h \<in> session_handlers \<Longrightarrow> obeys same_session retired ans h"
  by (auto simp: session_handlers_def storage_handlers_def obeys_on_storage obeys_confirm_reset)
     (auto intro!: obeysI beside_sessionD simp: open_reset_def cancel_reset_def beside_session_def
       same_session_def retired_def)

end
