(* ===== verification/Price.thy ===== *)
theory Price
  imports JsText
begin

text \<open>
  The two price fields of the console: \<open>priceMicros\<close> of \<open>intake.js\<close> and the price of the reserve
  form in \<open>app.js\<close>. Both check the text against a pattern, cut it at the dot and compute integer
  micros with JavaScript numbers; the lemmas show that the doubles involved are exact and that a
  price printed with two decimals is read back as it was.
\<close>

subsection \<open>The patterns\<close>

text \<open>\<open>/^\d{1,m}(\.\d{1,2})?$/\<close>; without a bound \<open>m\<close>, \<open>/^\d+(\.\d{1,2})?$/\<close>.\<close>

definition price_pattern :: "nat option \<Rightarrow> string \<Rightarrow> bool" where
  "price_pattern m t =
     (let whole = takeWhile is_digit t; rest = dropWhile is_digit t
      in whole \<noteq> [] \<and> (case m of None \<Rightarrow> True | Some k \<Rightarrow> length whole \<le> k) \<and>
         (case rest of [] \<Rightarrow> True
          | c # cs \<Rightarrow> c = CHR ''.'' \<and> 1 \<le> length cs \<and> length cs \<le> 2 \<and> list_all is_digit cs))"

text \<open>\<open>const [whole, cents = ""] = text.split(".")\<close>.\<close>

definition split_dot :: "string \<Rightarrow> string \<times> string" where
  "split_dot t =
     (let rest = dropWhile (\<lambda>c. c \<noteq> CHR ''.'') t
      in (takeWhile (\<lambda>c. c \<noteq> CHR ''.'') t, takeWhile (\<lambda>c. c \<noteq> CHR ''.'') (drop 1 rest)))"

text \<open>\<open>text.padEnd(n, "0")\<close>.\<close>

definition pad_end :: "nat \<Rightarrow> string \<Rightarrow> string" where
  "pad_end n t = t @ replicate (n - length t) (CHR ''0'')"

definition white :: "char \<Rightarrow> bool" where
  "white c \<longleftrightarrow> c = CHR '' '' \<or> (CHR 0x09 \<le> c \<and> c \<le> CHR 0x0D)"

text \<open>\<open>text.trim()\<close>.\<close>

definition trim :: "string \<Rightarrow> string" where
  "trim t = rev (dropWhile white (rev (dropWhile white t)))"

subsection \<open>The two computations\<close>

text \<open>\<open>priceMicros()\<close> of \<open>intake.js\<close>; the error is the message of the exception.\<close>

definition price_micros :: "string \<Rightarrow> string + nat" where
  "price_micros price =
     (let value = trim price in
      if \<not> price_pattern (Some 9) value
      then Inl ''Enter a USD amount with up to two decimal places, at least $0.01.''
      else let dollars = fst (split_dot value); cents = snd (split_dot value);
               micros = to_double (to_double (to_double (to_double (decimal dollars) * 100) +
                          to_double (decimal (pad_end 2 cents))) * 10000)
           in if 10000000 < micros then Inl ''The maximum example reservation is $10.00.''
              else if micros < 10000 then Inl ''The minimum reservation is $0.01.''
              else Inr micros)"

text \<open>The cost computed on submit of the reserve form in \<open>app.js\<close>.\<close>

definition reserve_cost :: "string \<Rightarrow> string + nat" where
  "reserve_cost raw =
     (if \<not> price_pattern None raw
      then Inl ''Use a positive dollar amount with at most two decimals.''
      else let whole = fst (split_dot raw); cents = snd (split_dot raw);
               cost = to_double (to_double (to_double (decimal whole) * 1000000) +
                        to_double (to_double (decimal (pad_end 2 cents)) * 10000))
           in if \<not> cost \<le> 2 ^ 53 - 1 \<or> cost = 0 \<or> 1000000000 < cost
              then Inl ''Choose a price from $0.01 to $1,000.''
              else Inr cost)"

subsection \<open>Reading a matching text\<close>

text \<open>The exact amount in cents that a matching text denotes.\<close>

definition cents_of :: "string \<Rightarrow> nat" where
  "cents_of t = decimal (fst (split_dot t)) * 100 + decimal (pad_end 2 (snd (split_dot t)))"

lemma digit_not_dot: "is_digit c \<Longrightarrow> c \<noteq> CHR ''.''"
  by (auto simp: is_digit_def less_eq_char_def)

lemma price_pattern_cases:
  assumes "price_pattern m t"
  obtains whole cs where
    "whole \<noteq> []" "\<forall>c \<in> set whole. is_digit c" "\<forall>c \<in> set cs. is_digit c" "length cs \<le> 2"
    "case m of None \<Rightarrow> True | Some k \<Rightarrow> length whole \<le> k"
    "t = whole \<and> cs = [] \<or> t = whole @ ''.'' @ cs"
proof -
  define whole where "whole = takeWhile is_digit t"
  define rest where "rest = dropWhile is_digit t"
  have t: "t = whole @ rest" by (simp add: whole_def rest_def)
  have d: "\<forall>c \<in> set whole. is_digit c" by (auto simp: whole_def dest: set_takeWhileD)
  from assms have w: "whole \<noteq> []" "case m of None \<Rightarrow> True | Some k \<Rightarrow> length whole \<le> k"
    and r: "case rest of [] \<Rightarrow> True
       | c # cs \<Rightarrow> c = CHR ''.'' \<and> 1 \<le> length cs \<and> length cs \<le> 2 \<and> list_all is_digit cs"
    by (auto simp: price_pattern_def whole_def rest_def Let_def split: option.splits)
  show thesis
  proof (cases rest)
    case Nil
    with that [of whole "[]"] w d t show thesis by simp
  next
    case (Cons c cs)
    with that [of whole cs] w d t r show thesis by (simp add: list_all_iff)
  qed
qed

lemma split_dot_whole [simp]:
  "\<forall>c \<in> set whole. is_digit c \<Longrightarrow> split_dot whole = (whole, [])"
  "\<forall>c \<in> set whole. is_digit c \<Longrightarrow> \<forall>c \<in> set cs. is_digit c \<Longrightarrow>
   split_dot (whole @ CHR ''.'' # cs) = (whole, cs)"
proof -
  assume w: "\<forall>c \<in> set whole. is_digit c"
  then have nd: "\<And>c. c \<in> set whole \<Longrightarrow> c \<noteq> CHR ''.''" by (metis digit_not_dot)
  have tw: "takeWhile (\<lambda>c. c \<noteq> CHR ''.'') whole = whole" using nd by simp
  have dw: "dropWhile (\<lambda>c. c \<noteq> CHR ''.'') whole = []" using nd by simp
  show "split_dot whole = (whole, [])" unfolding split_dot_def Let_def tw dw by simp
  assume "\<forall>c \<in> set cs. is_digit c"
  then have nf: "\<And>c. c \<in> set cs \<Longrightarrow> c \<noteq> CHR ''.''" by (metis digit_not_dot)
  have "takeWhile (\<lambda>c. c \<noteq> CHR ''.'') cs = cs" using nf by simp
  with nd show "split_dot (whole @ CHR ''.'' # cs) = (whole, cs)"
    by (simp add: split_dot_def takeWhile_append2 dropWhile_append2)
qed

lemma pad_cents_bound:
  assumes "\<forall>c \<in> set cs. is_digit c" and "length cs \<le> 2"
  shows "decimal (pad_end 2 cs) < 100"
proof -
  have "is_digit (CHR ''0'')" by (simp add: is_digit_def less_eq_char_def)
  with assms have "\<forall>c \<in> set (pad_end 2 cs). is_digit c" by (auto simp: pad_end_def)
  then have "decimal (pad_end 2 cs) < 10 ^ length (pad_end 2 cs)" by (rule decimal_bound)
  with assms(2) show ?thesis by (simp add: pad_end_def)
qed

lemma price_pattern_parts:
  assumes "price_pattern m t"
  shows "\<forall>c \<in> set (fst (split_dot t)). is_digit c"
    and "decimal (pad_end 2 (snd (split_dot t))) < 100"
    and "\<And>k. m = Some k \<Longrightarrow> length (fst (split_dot t)) \<le> k"
proof -
  obtain whole cs where
    "\<forall>c \<in> set whole. is_digit c" "\<forall>c \<in> set cs. is_digit c" "length cs \<le> 2"
    "case m of None \<Rightarrow> True | Some k \<Rightarrow> length whole \<le> k"
    "t = whole \<and> cs = [] \<or> t = whole @ ''.'' @ cs"
    using price_pattern_cases [OF assms] by metis
  moreover have "decimal (pad_end 2 cs) < 100" by (rule pad_cents_bound) fact+
  ultimately have *: "(\<forall>c \<in> set (fst (split_dot t)). is_digit c) \<and>
      decimal (pad_end 2 (snd (split_dot t))) < 100 \<and>
      (case m of None \<Rightarrow> True | Some k \<Rightarrow> length (fst (split_dot t)) \<le> k)"
    by (auto split: option.splits)
  then show "\<forall>c \<in> set (fst (split_dot t)). is_digit c"
    and "decimal (pad_end 2 (snd (split_dot t))) < 100" by simp_all
  show "\<And>k. m = Some k \<Longrightarrow> length (fst (split_dot t)) \<le> k" using * by simp
qed

subsection \<open>Exactness\<close>

lemma price_micros_exact:
  "price_micros price =
     (let value = trim price in
      if \<not> price_pattern (Some 9) value
      then Inl ''Enter a USD amount with up to two decimal places, at least $0.01.''
      else if 1000 < cents_of value then Inl ''The maximum example reservation is $10.00.''
      else if cents_of value = 0 then Inl ''The minimum reservation is $0.01.''
      else Inr (cents_of value * 10000))"
proof (cases "price_pattern (Some 9) (trim price)")
  case False
  then show ?thesis by (simp add: price_micros_def)
next
  case True
  define d where "d = decimal (fst (split_dot (trim price)))"
  define c where "c = decimal (pad_end 2 (snd (split_dot (trim price))))"
  have "d < 10 ^ length (fst (split_dot (trim price)))"
    unfolding d_def using price_pattern_parts(1) [OF True] by (rule decimal_bound)
  also have "\<dots> \<le> 10 ^ 9"
    using price_pattern_parts(3) [OF True] by (intro power_increasing) auto
  finally have "d < 1000000000" by simp
  moreover have "c < 100" unfolding c_def by (rule price_pattern_parts(2) [OF True])
  ultimately have "to_double (to_double (to_double (to_double d * 100) + to_double c) * 10000) =
      (d * 100 + c) * 10000"
    by simp
  with True show ?thesis
    by (simp add: price_micros_def cents_of_def Let_def flip: d_def c_def)
qed

text \<open>The last rounding never decides the comparison with the largest price.\<close>

lemma reserve_cost_double:
  assumes "c < 100"
  shows "(let cost = to_double (to_double (to_double w * 1000000) + to_double (to_double c * 10000))
          in if \<not> cost \<le> 2 ^ 53 - 1 \<or> cost = 0 \<or> 1000000000 < cost then None else Some cost) =
         (if w * 100 + c = 0 \<or> 100000 < w * 100 + c then None else Some ((w * 100 + c) * 10000))"
proof (cases "w < 1000000")
  case True
  with assms show ?thesis by (auto simp: Let_def)
next
  case False
  have w: "1000000 \<le> to_double w" using False by (intro to_double_ge) simp_all
  have big: "1000000000 < to_double n" if "1000000000 < n" for n
    using to_double_ge [of 1000000001 n] that by simp
  from w have "1000000000 < to_double w * 1000000" by simp
  then have "1000000000 < to_double (to_double w * 1000000) + to_double (to_double c * 10000)"
    using big by (simp add: trans_less_add1)
  then have "1000000000 <
      to_double (to_double (to_double w * 1000000) + to_double (to_double c * 10000))"
    by (rule big)
  with False show ?thesis by (simp add: Let_def)
qed

lemma reserve_cost_exact:
  "reserve_cost raw =
     (if \<not> price_pattern None raw
      then Inl ''Use a positive dollar amount with at most two decimals.''
      else if cents_of raw = 0 \<or> 100000 < cents_of raw
      then Inl ''Choose a price from $0.01 to $1,000.''
      else Inr (cents_of raw * 10000))"
proof (cases "price_pattern None raw")
  case False
  then show ?thesis by (simp add: reserve_cost_def)
next
  case True
  have "decimal (pad_end 2 (snd (split_dot raw))) < 100"
    by (rule price_pattern_parts(2) [OF True])
  from reserve_cost_double [OF this, of "decimal (fst (split_dot raw))"] True show ?thesis
    by (auto simp: reserve_cost_def cents_of_def Let_def split: if_splits)
qed

subsection \<open>Printing and reading back\<close>

text \<open>An amount of whole cents as a person writes it.\<close>

definition price_text :: "nat \<Rightarrow> string" where
  "price_text c = dec (c div 100) @ ''.'' @ two_digits (c mod 100)"

lemma price_text_split: "split_dot (price_text c) = (dec (c div 100), two_digits (c mod 100))"
  using split_dot_whole(2) [of "dec (c div 100)" "two_digits (c mod 100)"]
    dec_digits [of "c div 100"] two_digits_facts(2) [of "c mod 100"]
  by (simp add: price_text_def)

lemma cents_of_price_text [simp]: "cents_of (price_text c) = c"
proof -
  have "pad_end 2 (two_digits (c mod 100)) = two_digits (c mod 100)"
    using two_digits_facts(3) [of "c mod 100"] by (simp add: pad_end_def)
  then show ?thesis using two_digits_facts(1) [of "c mod 100"]
    by (simp add: cents_of_def price_text_split)
qed

lemma price_pattern_price_text:
  assumes "case m of None \<Rightarrow> True | Some k \<Rightarrow> c div 100 < 10 ^ k \<and> 0 < k"
  shows "price_pattern m (price_text c)"
proof -
  have d: "\<And>x. x \<in> set (dec (c div 100)) \<Longrightarrow> is_digit x" using dec_digits by blast
  have nd: "\<not> is_digit (CHR ''.'')" using digit_not_dot by blast
  have "takeWhile is_digit (price_text c) = dec (c div 100)"
    and "dropWhile is_digit (price_text c) = ''.'' @ two_digits (c mod 100)"
    using d nd by (simp_all add: price_text_def takeWhile_append2 dropWhile_append2)
  moreover have "case m of None \<Rightarrow> True | Some k \<Rightarrow> length (dec (c div 100)) \<le> k"
    using assms dec_length by (auto split: option.splits)
  moreover have "list_all is_digit (two_digits (c mod 100))" and "length (two_digits (c mod 100)) = 2"
    using two_digits_facts(2,3) [of "c mod 100"] by (simp_all add: list_all_iff)
  ultimately show ?thesis by (simp add: price_pattern_def)
qed

lemma white_not_digit: "is_digit c \<Longrightarrow> \<not> white c"
  by (auto simp: is_digit_def white_def less_eq_char_def)

lemma trim_price_text [simp]: "trim (price_text c) = price_text c"
proof -
  obtain x xs where x: "dec (c div 100) = x # xs" by (cases "dec (c div 100)") auto
  then have "\<not> white x" using dec_digits [of "c div 100"] by (auto dest: white_not_digit)
  then have "dropWhile white (price_text c) = price_text c" by (simp add: price_text_def x)
  moreover have "\<not> white (char_of (48 + c mod 100 mod 10))"
    by (rule white_not_digit, rule digit_char(1)) simp
  then have "dropWhile white (rev (price_text c)) = rev (price_text c)"
    by (simp add: price_text_def two_digits_def)
  ultimately show ?thesis by (simp add: trim_def)
qed

subsection \<open>Properties of the price fields\<close>

text \<open>
  The price of the intake page is exact: the computation with doubles accepts exactly the
  amounts of one to a thousand cents that match the pattern, and gives their micros without any
  rounding.
\<close>

theorem price_micros_accepts:
  "price_micros price = Inr m \<longleftrightarrow>
   price_pattern (Some 9) (trim price) \<and> 1 \<le> cents_of (trim price) \<and> cents_of (trim price) \<le> 1000 \<and>
   m = cents_of (trim price) * 10000"
  by (auto simp: price_micros_exact Let_def)

text \<open>
  C39. The price of the reserve form is exact and bounded: for every text, however long its digits,
  it is accepted exactly when it denotes 1 to 100000 cents, and the micros are those of the text.
\<close>

theorem reserve_cost_accepts:
  "reserve_cost raw = Inr m \<longleftrightarrow>
   price_pattern None raw \<and> 1 \<le> cents_of raw \<and> cents_of raw \<le> 100000 \<and> m = cents_of raw * 10000"
  by (auto simp: reserve_cost_exact)

text \<open>
  Prices read back: an amount of whole cents written with two decimals is understood by both
  fields as that amount, within the limits of each.
\<close>

theorem price_round_trip:
  assumes "1 \<le> c"
  shows "(c \<le> 1000 \<longrightarrow> price_micros (price_text c) = Inr (c * 10000)) \<and>
    (c \<le> 100000 \<longrightarrow> reserve_cost (price_text c) = Inr (c * 10000))"
proof -
  have "price_pattern (Some 9) (price_text c)" if "c \<le> 1000"
    using that by (intro price_pattern_price_text) (auto simp: div_less_iff_less_mult)
  moreover have "price_pattern None (price_text c)" by (rule price_pattern_price_text) simp
  ultimately show ?thesis using assms by (auto simp: price_micros_exact reserve_cost_exact)
qed

theorem price_round_trip_witness:
  "price_micros (price_text 250) = Inr 2500000 \<and> reserve_cost (price_text 99999) = Inr 999990000"
  using price_round_trip [of 250] price_round_trip [of 99999] by simp

end
