(* ===== verification/Ledger.thy ===== *)
theory Ledger
  imports JsText "HOL-Library.Sorting_Algorithms"
begin

text \<open>
  The delivery ledger and the recovery queue of \<open>app.js\<close>: which of the newest deliveries are shown
  (\<open>filtered\<close>), in which order, and how they are cut into pages of twenty (\<open>ledgerResults\<close>).
  \<open>localeCompare\<close> depends on the browser's locale, so the order of identifiers is an argument: any
  comparator of strings.
\<close>

subsection \<open>Filtering and searching\<close>

definition needs_recovery :: "delivery \<Rightarrow> bool" where
  "needs_recovery d \<longleftrightarrow> dlv_status d \<in> {Quarantined, Failed}"

definition passes_filter :: "string \<Rightarrow> string \<Rightarrow> delivery \<Rightarrow> bool" where
  "passes_filter active filt d \<longleftrightarrow>
     (if active = ''recovery''
      then needs_recovery d \<and> (filt = ''all'' \<or> status_name (dlv_status d) = filt)
      else filt = ''all'' \<or> status_name (dlv_status d) = filt)"

definition passes_search :: "string \<Rightarrow> delivery \<Rightarrow> bool" where
  "passes_search search d \<longleftrightarrow>
     list_ex (\<lambda>v. text_includes (to_lower v) (to_lower search))
       [dlv_id d, rcp_event (dlv_receipt d), rcp_screen (dlv_receipt d),
        rcp_reservation (dlv_receipt d), dlv_reason d]"

text \<open>\<open>a.received_at - b.received_at || a.id.localeCompare(b.id)\<close>, or its first key turned round.\<close>

definition ledger_order :: "string comparator \<Rightarrow> string \<Rightarrow> delivery comparator" where
  "ledger_order collate ord =
     key (\<lambda>d. (dlv_received d, dlv_id d))
       (prod_lex (if ord = ''oldest'' then default else reversed default) collate)"

definition filtered ::
  "string comparator \<Rightarrow> string \<Rightarrow> string \<Rightarrow> string \<Rightarrow> string \<Rightarrow> delivery list \<Rightarrow> delivery list" where
  "filtered collate ord active filt search ds =
     Sorting_Algorithms.sort (ledger_order collate ord)
       (filter (\<lambda>d. passes_filter active filt d \<and> passes_search search d) ds)"

subsection \<open>Pages\<close>

text \<open>\<open>Math.max(1, Math.ceil(rows.length / 20))\<close>.\<close>

definition page_count :: "'a list \<Rightarrow> nat" where
  "page_count rows = max 1 ((length rows + 19) div 20)"

text \<open>\<open>ledgerPage = Math.min(ledgerPage, pages - 1)\<close>.\<close>

definition clamp_page :: "'a list \<Rightarrow> nat \<Rightarrow> nat" where
  "clamp_page rows p = min p (page_count rows - 1)"

definition page_rows :: "'a list \<Rightarrow> nat \<Rightarrow> 'a list" where
  "page_rows rows p = array_slice (p * 20) (p * 20 + 20) rows"

text \<open>
  One rendering of the results: the page after clamping, the rows shown, the numbers of the first
  and the last one (\<open>None\<close> for ``0 matches''), and whether the two buttons are disabled.
\<close>

record ledger_view =
  lvw_page :: nat
  lvw_pages :: nat
  lvw_rows :: "delivery list"
  lvw_range :: "(nat \<times> nat) option"
  lvw_prev_disabled :: bool
  lvw_next_disabled :: bool

definition ledger_results :: "delivery list \<Rightarrow> nat \<Rightarrow> ledger_view" where
  "ledger_results rows p =
     (let pages = page_count rows; p' = clamp_page rows p; st = p' * 20
      in \<lparr>lvw_page = p', lvw_pages = pages, lvw_rows = page_rows rows p',
          lvw_range = (if rows = [] then None else Some (st + 1, min (st + 20) (length rows))),
          lvw_prev_disabled = (p' = 0), lvw_next_disabled = (pages - 1 \<le> p')\<rparr>)"

text \<open>A click on a page button; a disabled one does nothing.\<close>

definition turn_page :: "bool \<Rightarrow> ledger_view \<Rightarrow> nat" where
  "turn_page forward v =
     (if forward then if lvw_next_disabled v then lvw_page v else lvw_page v + 1
      else if lvw_prev_disabled v then lvw_page v else lvw_page v - 1)"

text \<open>The filter buttons with their counts within the newest deliveries.\<close>

definition filter_options :: "string \<Rightarrow> string list" where
  "filter_options active =
     (if active = ''recovery'' then [''all'', ''quarantined'', ''failed'']
      else [''all'', ''settled'', ''duplicate'', ''accepted'', ''quarantined'', ''failed''])"

definition filter_count :: "string \<Rightarrow> delivery list \<Rightarrow> string \<Rightarrow> nat" where
  "filter_count active ds v =
     length (filter (\<lambda>d. (active \<noteq> ''recovery'' \<or> needs_recovery d) \<and>
                         (v = ''all'' \<or> status_name (dlv_status d) = v)) ds)"

subsection \<open>Facts\<close>

lemma filtered_mset:
  "mset (filtered collate ord active filt search ds) =
   filter_mset (\<lambda>d. passes_filter active filt d \<and> passes_search search d) (mset ds)"
  by (simp add: filtered_def)

lemma filtered_length:
  "length (filtered collate ord active filt search ds) =
   length (filter (\<lambda>d. passes_filter active filt d \<and> passes_search search d) ds)"
  by (simp add: filtered_def)

lemma page_count_pos [simp]: "0 < page_count rows"
  by (simp add: page_count_def)

lemma page_count_covers: "length rows \<le> page_count rows * 20"
  unfolding page_count_def by presburger

lemma page_count_tight: "rows \<noteq> [] \<Longrightarrow> (page_count rows - 1) * 20 < length rows"
proof -
  assume "rows \<noteq> []"
  then have "0 < length rows" by simp
  then show ?thesis unfolding page_count_def by presburger
qed

lemma clamp_page_less: "clamp_page rows p < page_count rows"
  using page_count_pos [of rows] unfolding clamp_page_def by arith

lemma page_rows_length: "length (page_rows rows p) = min 20 (length rows - p * 20)"
  by (simp add: page_rows_def array_slice_def)

lemma passes_search_empty [simp]: "passes_search [] d"
  by (simp add: passes_search_def to_lower_def)

definition in_order :: "string \<Rightarrow> delivery \<Rightarrow> delivery \<Rightarrow> bool" where
  "in_order ord a b \<longleftrightarrow>
     (if ord = ''oldest'' then dlv_received a \<le> dlv_received b else dlv_received b \<le> dlv_received a)"

lemma order_keys: "compare (ledger_order collate ord) a b \<noteq> Greater \<Longrightarrow> in_order ord a b"
  by (auto simp: in_order_def ledger_order_def compare_prod_lex_apply split: if_splits comp.splits)

subsection \<open>Properties of the ledger\<close>

lemma in_order_trans: "in_order ord a b \<Longrightarrow> in_order ord b c \<Longrightarrow> in_order ord a c"
  by (auto simp: in_order_def split: if_splits)

lemma sorted_by_order:
  "Sorting_Algorithms.sorted (ledger_order collate ord) xs \<Longrightarrow> sorted_wrt (in_order ord) xs"
proof (induction xs rule: induct_list012)
  case (3 x y xs)
  then have "in_order ord x y" and "sorted_wrt (in_order ord) (y # xs)" by (auto intro: order_keys)
  then show ?case by (auto intro: in_order_trans)
qed simp_all

text \<open>
  The ledger shows exactly the matching deliveries: the rows are the deliveries of the
  snapshot that pass the view's filter and whose identifiers or reason contain the search text,
  each as often as it occurs, ordered by the time of receipt in the chosen direction.
\<close>

theorem filtered_spec:
  "mset (filtered collate ord active filt search ds) =
     filter_mset (\<lambda>d. passes_filter active filt d \<and> passes_search search d) (mset ds) \<and>
   sorted_wrt (in_order ord) (filtered collate ord active filt search ds)"
  using sorted_by_order [of collate ord "filtered collate ord active filt search ds"]
  by (simp add: filtered_mset) (simp add: filtered_def)

text \<open>
  C36. The pages partition the rows: put together they are all the rows in order; whatever page
  number was remembered, the page shown exists, has at most twenty rows and is not empty when
  there are rows; and the buttons never leave the range of pages.
\<close>

theorem pages_partition:
  "concat (map (page_rows rows) [0..<page_count rows]) = rows \<and>
   (let v = ledger_results rows p in
      lvw_page v < lvw_pages v \<and> length (lvw_rows v) \<le> 20 \<and> (rows \<noteq> [] \<longrightarrow> lvw_rows v \<noteq> []) \<and>
      turn_page forward v < lvw_pages v)"
proof
  show "concat (map (page_rows rows) [0..<page_count rows]) = rows"
    using concat_slices [of 20 rows "page_count rows"] page_count_covers [of rows]
    by (simp add: page_rows_def [abs_def])
  have less: "clamp_page rows p < page_count rows" by (rule clamp_page_less)
  have "lvw_rows (ledger_results rows p) \<noteq> []" if "rows \<noteq> []"
  proof -
    have "clamp_page rows p * 20 \<le> (page_count rows - 1) * 20" using less by simp
    also have "\<dots> < length rows" by (rule page_count_tight [OF that])
    finally have "0 < length (page_rows rows (clamp_page rows p))" by (simp add: page_rows_length)
    then show ?thesis by (simp add: ledger_results_def Let_def)
  qed
  with less show "let v = ledger_results rows p in
      lvw_page v < lvw_pages v \<and> length (lvw_rows v) \<le> 20 \<and> (rows \<noteq> [] \<longrightarrow> lvw_rows v \<noteq> []) \<and>
      turn_page forward v < lvw_pages v"
    by (auto simp: ledger_results_def turn_page_def page_rows_length Let_def)
qed

definition example_delivery :: delivery where
  "example_delivery = \<lparr>dlv_id = ''d'', dlv_receipt = \<lparr>rcp_version = 1, rcp_event = ''e'',
     rcp_reservation = ''r'', rcp_screen = ''s'', rcp_played_at = 1, rcp_duration = 10000\<rparr>,
     dlv_status = Settled, dlv_reason = [], dlv_received = 2, dlv_attempts = 1\<rparr>"

theorem pages_partition_witness:
  "let v = ledger_results (replicate 21 example_delivery) 7 in
   lvw_page v < lvw_pages v \<and> lvw_rows v \<noteq> []"
  using pages_partition [of "replicate 21 example_delivery" 7 True] by (simp add: Let_def)

end
