(* ===== verification/Console.thy ===== *)
theory Console
  imports Session Price Ledger
begin

text \<open>
  \<open>internal/console/web/app.js\<close>: the shell of the console. Its state (the last snapshot, the
  runtime information, the route, the ledger's filter and page, the flags that serialise its
  operations), \<open>request\<close> on top of the demo session, the polling \<open>refresh\<close>, routing, and the event
  handlers. The HTML of the views is the subject of theory \<open>Views\<close>; here is what the handlers decide: which
  view is shown, what a button or dialog may start. \<open>Promise.all\<close> is modelled by its requests in
  order with the first rejection raised; the requests under it only read.
\<close>

subsection \<open>State\<close>

record console = page +
  snap :: "snapshot option"
  runtime :: runtime_info
  active :: string
  filt :: string
  search :: string
  busy :: bool
  refreshing :: bool
  live_paused :: bool
  last_updated :: "int option"
  connection_lost :: bool
  overview_proof_open :: bool
  ledger_page :: nat
  ledger_sort :: string
  hash :: string
  main_view :: string
  focused :: string
  dialog_open :: bool
  dialog_notice :: string
  toast_text :: string
  toast_error :: bool
  form_shown :: bool
  form_no :: nat
  form_busy :: bool
  form_error :: string
  form_fingerprint :: "reservation_input option"
  form_key :: "string option"

definition views :: "string list" where
  "views = [''foot-traffic'', ''assurance'', ''proof'', ''intake'', ''overview'', ''campaigns'',
     ''ledger'', ''recovery'', ''lab'', ''architecture'']"

subsection \<open>Requests\<close>

text \<open>\<open>await response.json().catch(() => null)\<close>.\<close>

definition read_or_null :: "http_request \<Rightarrow> ('a page_scheme, payload option) prog" where
  "read_or_null rq = try_catch (bind (read_json rq) (\<lambda>p. ret (Some p))) (\<lambda>_. ret None)"

definition failure :: "int \<Rightarrow> payload option \<Rightarrow> js_error" where
  "failure status data =
     \<lparr>err_message =
        (let d = Option.bind data detail_of
         in if truthy d then the d
            else ''Request failed ('' @ dec (nat status) @ ''). Please try again.''),
      err_status = Some status\<rparr>"

definition request :: "http_request \<Rightarrow> ('a page_scheme, payload) prog" where
  "request rq =
     bind (send rq False) (\<lambda>resp.
     bind (read_or_null rq) (\<lambda>data.
       if \<not> ok resp then throw (failure (rs_status resp) data)
       else case data of
         None \<Rightarrow> throw (js_err ''The server returned an unreadable response. Please retry.'')
       | Some p \<Rightarrow> ret p))"

text \<open>A property the script reads from a body of another shape is undefined: a TypeError.\<close>

definition type_error :: js_error where
  "type_error = js_err ''Cannot read properties of undefined''"

definition shaped :: "(payload \<Rightarrow> 'b option) \<Rightarrow> payload \<Rightarrow> ('a, 'b) prog" where
  "shaped f p = (case f p of None \<Rightarrow> throw type_error | Some x \<Rightarrow> ret x)"

text \<open>A message goes to the open dialog, else to the toast.\<close>

definition toast :: "string \<Rightarrow> bool \<Rightarrow> 'a console_scheme \<Rightarrow> 'a console_scheme" where
  "toast m e s =
     (if dialog_open s then s\<lparr>dialog_notice := m\<rparr> else s\<lparr>toast_text := m, toast_error := e\<rparr>)"

text \<open>
  \<open>openDialog\<close> replaces the content of the dialog. The content is numbered by \<open>form_no\<close>: a
  reserve form is connected to the document until the content is replaced, closing the dialog
  leaves it there.
\<close>

definition open_dialog :: "bool \<Rightarrow> 'a console_scheme \<Rightarrow> 'a console_scheme" where
  "open_dialog reserve_form s =
     s\<lparr>dialog_notice := [], dialog_open := True, form_shown := reserve_form,
       form_no := Suc (form_no s), form_busy := False, form_error := [],
       form_fingerprint := None, form_key := None\<rparr>"

definition close_dialog :: "'a console_scheme \<Rightarrow> 'a console_scheme" where
  "close_dialog s = s\<lparr>dialog_open := False\<rparr>"

text \<open>A click on a modal dialog itself closes it when it is outside of the dialog's box.\<close>

definition backdrop_click ::
  "('n::linorder) \<Rightarrow> 'n \<Rightarrow> 'n \<times> 'n \<times> 'n \<times> 'n \<Rightarrow> 'a console_scheme \<Rightarrow> 'a console_scheme" where
  "backdrop_click x y box s =
     (case box of (left, right, upper, lower) \<Rightarrow>
        if x < left \<or> right < x \<or> y < upper \<or> lower < y then close_dialog s else s)"

text \<open>The dialogs that show a delivery with its reservation, and a screen with its deliveries.\<close>

definition detail_rows :: "string \<Rightarrow> snapshot \<Rightarrow> (delivery \<times> reservation option) option" where
  "detail_rows i sn = map_option
     (\<lambda>d. (d, array_find (\<lambda>r. rsv_id r = rcp_reservation (dlv_receipt d)) (snp_reservations sn)))
     (array_find (\<lambda>d. dlv_id d = i) (snp_deliveries sn))"

definition details :: "string \<Rightarrow> 'a console_scheme \<Rightarrow> 'a console_scheme" where
  "details i s =
     (case Option.bind (snap s) (detail_rows i) of None \<Rightarrow> s | Some _ \<Rightarrow> open_dialog False s)"

definition screen_click :: "string \<Rightarrow> ('a console_scheme, unit) prog" where
  "screen_click i s =
     (case Option.bind (snap s) (\<lambda>sn. array_find (\<lambda>x. scr_id x = i) (snp_screens sn)) of
        None \<Rightarrow> Throw s type_error
      | Some _ \<Rightarrow> Return (open_dialog False s) ())"

text \<open>\<open>syncActions\<close>: the buttons of the failure lab and of the campaigns page.\<close>

definition actions_disabled :: "'a console_scheme \<Rightarrow> bool" where
  "actions_disabled s \<longleftrightarrow> busy s \<or> \<not> rt_demo (runtime s)"

subsection \<open>Routing\<close>

definition deliveries_shown :: "string comparator \<Rightarrow> 'a console_scheme \<Rightarrow> delivery list" where
  "deliveries_shown collate s =
     (case snap s of None \<Rightarrow> []
      | Some sn \<Rightarrow> filtered collate (ledger_sort s) (active s) (filt s) (search s) (snp_deliveries sn))"

definition show_ledger :: "string comparator \<Rightarrow> 'a console_scheme \<Rightarrow> 'a console_scheme" where
  "show_ledger collate s =
     s\<lparr>ledger_page := lvw_page (ledger_results (deliveries_shown collate s) (ledger_page s))\<rparr>"

text \<open>The views that keep their own state on the page and are not drawn again while they show.\<close>

definition self_updating :: "string list" where
  "self_updating = [''assurance'', ''proof'', ''intake'', ''foot-traffic'']"

definition route :: "'a console_scheme \<Rightarrow> string" where
  "route s = (if hash s \<in> set views then hash s else ''overview'')"

definition render :: "string comparator \<Rightarrow> 'a console_scheme \<Rightarrow> 'a console_scheme" where
  "render collate s =
     (case snap s of None \<Rightarrow> s
      | Some _ \<Rightarrow>
        let nxt = route s in
        if nxt \<in> set self_updating \<and> active s = nxt \<and> main_view s = nxt then s
        else if focused s \<in> {''ledger-search'', ''ledger-sort''} \<and> nxt = active s
        then show_ledger collate s
        else let s1 = s\<lparr>active := nxt, main_view := nxt\<rparr>
             in if nxt \<in> {''ledger'', ''recovery''} then show_ledger collate s1 else s1)"

subsection \<open>Polling\<close>

definition snapshot_request :: http_request where
  "snapshot_request = get_request ''/api/v1/snapshot''"

definition runtime_request :: http_request where
  "runtime_request = get_request ''/api/v1/runtime''"

definition refresh :: "string comparator \<Rightarrow> ('a console_scheme, unit) prog" where
  "refresh collate s =
     (if refreshing s then Return s ()
      else try_finally
        (try_catch
          (bind (bind (request snapshot_request) (shaped as_snapshot)) (\<lambda>sn.
           bind (bind (request runtime_request) (shaped as_runtime)) (\<lambda>rt.
             modify (\<lambda>s1. render collate
               (s1\<lparr>snap := Some sn, runtime := rt, last_updated := Some (clock s1),
                  connection_lost := False\<rparr>)))))
          (\<lambda>e. modify (\<lambda>s1. s1\<lparr>connection_lost := True\<rparr>)))
        (\<lambda>s1. s1\<lparr>refreshing := False\<rparr>)
        (s\<lparr>refreshing := True\<rparr>))"

text \<open>The interval timer, the pause button and the refresh button.\<close>

definition poll :: "string comparator \<Rightarrow> bool \<Rightarrow> ('a console_scheme, unit) prog" where
  "poll collate hidden s = (if \<not> live_paused s \<and> \<not> hidden then refresh collate s else Return s ())"

definition live_toggle :: "string comparator \<Rightarrow> ('a console_scheme, unit) prog" where
  "live_toggle collate s =
     (let s1 = s\<lparr>live_paused := \<not> live_paused s\<rparr>
      in if \<not> live_paused s1 then refresh collate s1 else Return s1 ())"

subsection \<open>Ledger controls\<close>

definition ledger_page_click :: "string comparator \<Rightarrow> bool \<Rightarrow> 'a console_scheme \<Rightarrow> 'a console_scheme" where
  "ledger_page_click collate forward s =
     (let v = ledger_results (deliveries_shown collate s) (ledger_page s) in
      if (if forward then lvw_next_disabled v else lvw_prev_disabled v) then s
      else render collate (s\<lparr>ledger_page := turn_page forward v\<rparr>))"

definition ledger_sort_change :: "string comparator \<Rightarrow> string \<Rightarrow> 'a console_scheme \<Rightarrow> 'a console_scheme" where
  "ledger_sort_change collate v s = render collate (s\<lparr>ledger_sort := v, ledger_page := 0\<rparr>)"

definition ledger_search_input :: "string comparator \<Rightarrow> string \<Rightarrow> 'a console_scheme \<Rightarrow> 'a console_scheme" where
  "ledger_search_input collate v s = show_ledger collate (s\<lparr>search := v, ledger_page := 0\<rparr>)"

definition filter_click :: "string comparator \<Rightarrow> string \<Rightarrow> 'a console_scheme \<Rightarrow> 'a console_scheme" where
  "filter_click collate v s = render collate (s\<lparr>ledger_page := 0, filt := v\<rparr>)"

definition clear_filters :: "string comparator \<Rightarrow> 'a console_scheme \<Rightarrow> 'a console_scheme" where
  "clear_filters collate s = render collate (s\<lparr>search := [], filt := ''all'', ledger_page := 0\<rparr>)"

definition hash_change :: "string comparator \<Rightarrow> string \<Rightarrow> 'a console_scheme \<Rightarrow> 'a console_scheme" where
  "hash_change collate h s =
     render collate (s\<lparr>hash := h, search := [], filt := ''all'', ledger_page := 0\<rparr>)"

subsection \<open>Failure lab, replay and manual playback\<close>

fun scenario_message :: "payload \<Rightarrow> string" where
  "scenario_message (P_scenario_result m (Some (a, r))) =
     m @ '' Accepted: '' @ dec (nat a) @ ''; rejected: '' @ dec (nat r) @ ''.''"
| "scenario_message (P_scenario_result m None) = m"
| "scenario_message _ = ''undefined''"

fun control_message :: "payload \<Rightarrow> string" where
  "control_message (P_control True) = ''Dispatcher paused. New receipts remain in the durable queue.''"
| "control_message _ = ''Dispatcher resumed. Retained receipts can now settle.''"

definition scenario_body :: "string comparator \<Rightarrow> string \<Rightarrow> ('a console_scheme, unit) prog" where
  "scenario_body collate kind =
     (if kind = ''reserve'' then modify (open_dialog True)
      else seq
        (if kind = ''pause''
         then bind (gets (\<lambda>s1. rt_paused (runtime s1))) (\<lambda>paused.
              bind (request (post_request ''/api/demo/control'' (P_control (\<not> paused)))) (\<lambda>p.
              modify (toast (control_message p) False)))
         else bind (request (post_request ''/api/demo/scenario'' (P_scenario kind))) (\<lambda>p.
              modify (toast (scenario_message p) False)))
        (refresh collate))"

definition scenario :: "string comparator \<Rightarrow> string \<Rightarrow> ('a console_scheme, unit) prog" where
  "scenario collate kind s =
     (if busy s then Return s ()
      else try_finally
        (try_catch (scenario_body collate kind) (\<lambda>e. modify (toast (err_message e) True)))
        (\<lambda>s1. s1\<lparr>busy := False\<rparr>)
        (s\<lparr>busy := True\<rparr>))"

definition replay_click :: "string comparator \<Rightarrow> string \<Rightarrow> ('a console_scheme, unit) prog" where
  "replay_click collate i =
     try_catch
       (bind (request (post_request (''/api/v1/deliveries/'' @ i @ ''/replay'') P_empty)) (\<lambda>_.
        seq (modify (\<lambda>s. toast ''Original payload requeued. Validation and charge protection still apply.''
               False (close_dialog s)))
            (refresh collate)))
       (\<lambda>e. modify (toast (err_message e) True))"

definition record_playback :: "string comparator \<Rightarrow> string \<Rightarrow> ('a console_scheme, unit) prog" where
  "record_playback collate i =
     try_catch
       (bind (gets (\<lambda>s. Option.bind (snap s) (\<lambda>sn. array_find (\<lambda>r. rsv_id r = i) (snp_reservations sn))))
          (\<lambda>found. case found of
             None \<Rightarrow> throw type_error
           | Some r \<Rightarrow>
               bind random_uuid (\<lambda>u.
               bind (gets clock) (\<lambda>now.
               bind (request (post_request ''/api/v1/receipts''
                 (P_receipt \<lparr>rcp_version = 1, rcp_event = u, rcp_reservation = rsv_id r,
                    rcp_screen = rsv_screen r, rcp_played_at = now, rcp_duration = 10000\<rparr>))) (\<lambda>_.
               seq (modify (toast ''Playback receipt accepted durably. The worker will reconcile it.'' False))
                   (refresh collate))))))
       (\<lambda>e. modify (toast (err_message e) True))"

subsection \<open>The reserve form\<close>

text \<open>
  The idempotency key of a submission: the form keeps the key it used as long as its content is
  the same, and takes a fresh one when it changed.
\<close>

definition form_request_key :: "reservation_input \<Rightarrow> ('a console_scheme, string) prog" where
  "form_request_key payload s =
     (if form_fingerprint s \<noteq> Some payload
      then bind random_uuid (\<lambda>u s1. Return (s1\<lparr>form_key := Some u\<rparr>) u)
             (s\<lparr>form_fingerprint := Some payload\<rparr>)
      else case form_key s of None \<Rightarrow> Throw s type_error | Some u \<Rightarrow> Return s u)"

definition reserve_request :: "reservation_input \<Rightarrow> string \<Rightarrow> http_request" where
  "reserve_request payload k =
     (post_request ''/api/v1/reservations'' (P_reservation_input payload))\<lparr>rq_key := Some k\<rparr>"

text \<open>An update of the form with number \<open>n\<close>: without effect on the page once it is disconnected.\<close>

definition on_form ::
  "nat \<Rightarrow> ('a console_scheme \<Rightarrow> 'a console_scheme) \<Rightarrow> 'a console_scheme \<Rightarrow> 'a console_scheme" where
  "on_form n f s = (if form_no s = n then f s else s)"

definition submit_body ::
  "string comparator \<Rightarrow> string \<Rightarrow> string \<Rightarrow> string \<Rightarrow> nat \<Rightarrow> ('a console_scheme, unit) prog" where
  "submit_body collate campaign screen price n =
     try_finally
       (try_catch
         (case reserve_cost price of
            Inl m \<Rightarrow> throw (js_err m)
          | Inr cost \<Rightarrow>
            let payload = \<lparr>inp_campaign = campaign, inp_screen = screen, inp_cost = int cost\<rparr> in
            bind (form_request_key payload) (\<lambda>k.
            bind (request (reserve_request payload k)) (\<lambda>_.
            seq (modify (\<lambda>s. toast
                   ''Budget reserved. Record its playback from the reservations table.'' False
                   (on_form n close_dialog s)))
                (refresh collate))))
         (\<lambda>e. modify (\<lambda>s.
            if form_no s = n
            then s\<lparr>form_error :=
                err_message e @ '' Retrying the unchanged form uses the same request key.''\<rparr>
            else toast (err_message e @ '' Check reservations before creating another hold.'') True s)))
       (on_form n (\<lambda>s. s\<lparr>form_busy := False\<rparr>))"

definition submit_reserve ::
  "string comparator \<Rightarrow> string \<Rightarrow> string \<Rightarrow> string \<Rightarrow> ('a console_scheme, unit) prog" where
  "submit_reserve collate campaign screen price s =
     (if \<not> form_shown s \<or> form_busy s then Return s ()
      else submit_body collate campaign screen price (form_no s)
        (s\<lparr>form_busy := True, form_error := []\<rparr>))"

subsection \<open>Numbers the views compute\<close>

definition total :: "(campaign \<Rightarrow> int) \<Rightarrow> snapshot \<Rightarrow> int" where
  "total field sn = foldl (\<lambda>n c. n + field c) 0 (snp_campaigns sn)"

definition available :: "campaign \<Rightarrow> int" where
  "available c = cmp_budget c - cmp_spent c - cmp_reserved c"

text \<open>The four counters of \<open>flow\<close>: received, pending, decided, settled.\<close>

definition flow_counts :: "(dstatus \<Rightarrow> int) \<Rightarrow> int list" where
  "flow_counts c =
     (let accepted = c Accepted + c Settled + c Duplicate + c Quarantined + c Failed
      in [accepted, c Accepted, accepted - c Accepted, c Settled])"

definition recovery_badge :: "(dstatus \<Rightarrow> int) \<Rightarrow> int" where
  "recovery_badge c = c Quarantined + c Failed"

definition at_cap :: "campaign \<Rightarrow> bool" where
  "at_cap c \<longleftrightarrow> cmp_spent c + cmp_reserved c = cmp_budget c"

text \<open>Where the overview sends the operator next.\<close>

definition overview_next :: "runtime_info \<Rightarrow> (dstatus \<Rightarrow> int) \<Rightarrow> string" where
  "overview_next rt c =
     (if rt_paused rt then ''lab'' else if 0 < recovery_badge c then ''recovery'' else ''intake'')"

subsection \<open>Contracts of the shared operations\<close>

text \<open>
  Fields that the demo session does not touch, and fields that neither it nor a refresh touches:
  a component's own variables, which it may assume unchanged across its requests.
\<close>

definition page_frame :: "('a page_scheme \<Rightarrow> 'o) \<Rightarrow> bool" where
  "page_frame own \<longleftrightarrow> (\<forall>n s. own (remember n s) = own s) \<and> (\<forall>n b s. own (reload n b s) = own s)"

definition console_frame :: "('a console_scheme \<Rightarrow> 'o) \<Rightarrow> bool" where
  "console_frame own \<longleftrightarrow> page_frame own \<and>
     (\<forall>s x. own (s\<lparr>refreshing := x\<rparr>) = own s) \<and>
     (\<forall>s x. own (s\<lparr>connection_lost := x\<rparr>) = own s) \<and>
     (\<forall>c s sn rt t. own (render c (s\<lparr>snap := sn, runtime := rt, last_updated := t,
        connection_lost := False\<rparr>)) = own s)"

text \<open>Drawing changes the route, the shown view and the ledger's page, nothing else.\<close>

lemma render_form:
  "render c s = s\<lparr>active := active (render c s), main_view := main_view (render c s),
     ledger_page := ledger_page (render c s)\<rparr>"
  by (simp add: render_def show_ledger_def Let_def split: option.split)

lemma render_frame [simp]:
  "search (render c s) = search s" "filt (render c s) = filt s" "snap (render c s) = snap s"
  "runtime (render c s) = runtime s" "hash (render c s) = hash s" "clock (render c s) = clock s"
  by (subst render_form, simp)+

lemma render_shows:
  assumes "snap s \<noteq> None" and "focused s \<notin> {''ledger-search'', ''ledger-sort''}"
  shows "active (render c s) = route s" "main_view (render c s) = route s"
  using assms by (auto simp: render_def show_ledger_def Let_def)

lemma console_frameI:
  assumes "page_frame own"
    and "\<And>s x. own (s\<lparr>refreshing := x\<rparr>) = own s" and "\<And>s x. own (s\<lparr>connection_lost := x\<rparr>) = own s"
    and "\<And>s x. own (s\<lparr>snap := x\<rparr>) = own s" and "\<And>s x. own (s\<lparr>runtime := x\<rparr>) = own s"
    and "\<And>s x. own (s\<lparr>last_updated := x\<rparr>) = own s" and "\<And>s x. own (s\<lparr>active := x\<rparr>) = own s"
    and "\<And>s x. own (s\<lparr>main_view := x\<rparr>) = own s" and "\<And>s x. own (s\<lparr>ledger_page := x\<rparr>) = own s"
  shows "console_frame own"
proof -
  have "own (render c s) = own s" for c s by (subst render_form) (simp only: assms)
  then show ?thesis using assms by (simp add: console_frame_def)
qed

text \<open>
  What may be awaited for a request: its dispatch, stamped with the generation, and its body.
\<close>

definition for_request :: "http_request \<Rightarrow> awaiting \<Rightarrow> bool" where
  "for_request rq q \<longleftrightarrow> (\<exists>g. q = Fetch (rq\<lparr>rq_generation := g\<rparr>)) \<or> q = ReadBody rq"

lemma for_request_intros [simp]: "for_request rq (ReadBody rq)"
  by (simp_all add: for_request_def)

lemma for_request_stamp [simp]: "for_request rq (Fetch (stamp s rq))"
proof -
  have "stamp s rq = rq\<lparr>rq_generation := rq_generation (stamp s rq)\<rparr>"
    by (simp add: stamp_def)
  then show ?thesis unfolding for_request_def by metis
qed

lemma keeps_send:
  assumes "page_frame own" and "\<And>q. for_request rq q \<Longrightarrow> P q (own s)"
    and "\<And>r. Q r (own s)" and "\<And>e. E e (own s)"
  shows "keeps own P ans Q E (send rq b s)"
  using assms by (auto simp: send_def receive_def Let_def page_frame_def split: reply.splits)

text \<open>What a read gives is a body that some reply to it carried.\<close>

lemma keeps_read_json:
  assumes "\<And>q. for_request rq q \<Longrightarrow> P q (own s)"
    and "\<And>r. ans (ReadBody rq) (Body r) \<Longrightarrow> Q r (own s)" and "\<And>e. E e (own s)"
  shows "keeps own P ans Q E (read_json rq s)"
  using assms by (auto simp: read_json_def split: reply.splits)

lemma keeps_read_or_null:
  assumes "\<And>q. for_request rq q \<Longrightarrow> P q (own s)"
    and "\<And>r. (\<And>p. r = Some p \<Longrightarrow> ans (ReadBody rq) (Body p)) \<Longrightarrow> Q r (own s)"
  shows "keeps own P ans Q E (read_or_null rq s)"
  using assms by (auto simp: read_or_null_def read_json_def async_simps split: reply.splits)

lemma keeps_request:
  assumes "page_frame own" and "\<And>q. for_request rq q \<Longrightarrow> P q (own s)"
    and "\<And>r. ans (ReadBody rq) (Body r) \<Longrightarrow> Q r (own s)" and "\<And>e. E e (own s)"
  shows "keeps own P ans Q E (request rq s)"
  unfolding request_def
  by (intro keeps_bindI keeps_send keeps_read_or_null allI impI)
     (use assms in \<open>auto simp: async_simps intro!: keeps_bindI keeps_read_or_null split: option.splits\<close>)

lemma keeps_shaped:
  assumes "page_frame own" and "\<And>q. for_request rq q \<Longrightarrow> P q (own s)"
    and "\<And>r p. ans (ReadBody rq) (Body p) \<Longrightarrow> f p = Some r \<Longrightarrow> Q r (own s)" and "\<And>e. E e (own s)"
  shows "keeps own P ans Q E (bind (request rq) (shaped f) s)"
  by (rule keeps_bindI, rule keeps_request)
     (use assms in \<open>auto simp: shaped_def async_simps split: option.splits\<close>)

definition for_refresh :: "awaiting \<Rightarrow> bool" where
  "for_refresh q \<longleftrightarrow> for_request snapshot_request q \<or> for_request runtime_request q"

lemma keeps_refresh:
  assumes "console_frame own" and "\<And>q. for_refresh q \<Longrightarrow> P q (own s)" and "\<And>r. Q r (own s)"
  shows "keeps own P ans Q E (refresh collate s)"
proof (cases "refreshing s")
  case True
  with assms show ?thesis by (simp add: refresh_def)
next
  case False
  have fr: "page_frame own" and ref: "\<And>s x. own (s\<lparr>refreshing := x\<rparr>) = own s"
    and lost: "\<And>s x. own (s\<lparr>connection_lost := x\<rparr>) = own s"
    and rend: "\<And>c s sn rt t. own (render c (s\<lparr>snap := sn, runtime := rt, last_updated := t,
        connection_lost := False\<rparr>)) = own s"
    using assms(1) by (auto simp: console_frame_def)
  show ?thesis using False assms(2,3)
    by (auto simp: refresh_def ref lost rend async_simps(4) for_refresh_def
        intro!: keeps_finallyI keeps_catchI keeps_bindI [where m = "bind (request _) (shaped _)"]
          keeps_shaped [OF fr])
qed

subsection \<open>Clients of the session\<close>

context session_client
begin

lemma rg_read_or_null:
  assumes "I s"
    and "\<And>r s'. R s s' \<Longrightarrow> I s' \<Longrightarrow> (\<And>p. r = Some p \<Longrightarrow> ans (ReadBody rq) (Body p)) \<Longrightarrow> Q r s'"
  shows "rg R I ans Q E s (read_or_null rq s)"
  using assms same by (auto simp: read_or_null_def read_json_def async_simps split: reply.splits)

lemma rg_request:
  assumes "I s"
    and "\<And>p s'. R s s' \<Longrightarrow> I s' \<Longrightarrow> ans (ReadBody rq) (Body p) \<Longrightarrow> Q p s'"
    and "\<And>e s'. R s s' \<Longrightarrow> I s' \<Longrightarrow> E e s'"
  shows "rg R I ans Q E s (request rq s)"
  unfolding request_def
proof (intro rg_bindI [OF chain] rg_send)
  fix resp s1 assume s1: "R s s1" "I s1"
  have tr: "R s s2" if "R s1 s2" for s2 using transpD [OF chain s1(1) that] .
  show "I s1 \<longrightarrow> rg R I ans Q E s1 (bind (read_or_null rq) (\<lambda>data.
       if \<not> ok resp then throw (failure (rs_status resp) data)
       else case data of
         None \<Rightarrow> throw (js_err ''The server returned an unreadable response. Please retry.'')
       | Some p \<Rightarrow> ret p) s1)"
    by (intro impI rg_bindI [OF chain] rg_read_or_null)
       (use assms tr same s1 in \<open>auto simp: async_simps split: option.splits\<close>)
qed (use assms in auto)

lemma obeys_request: "obeys R I ans (request rq)"
  by (intro obeysI rg_request) auto

lemma obeys_shaped: "obeys R I ans (shaped f p)"
  by (auto simp: obeys_def shaped_def async_simps same split: option.split)

lemmas obeys_intros = obeys_session obeys_request obeys_shaped

end

subsection \<open>The handlers and the session\<close>

definition console_handlers :: "string comparator \<Rightarrow> ('a console_scheme, unit) prog set" where
  "console_handlers collate =
     {refresh collate, live_toggle collate, modify (clear_filters collate), modify close_dialog} \<union>
     range (poll collate) \<union> range (scenario collate) \<union> range (replay_click collate) \<union>
     range (record_playback collate) \<union> range screen_click \<union>
     {submit_reserve collate c scr p | c scr p. True} \<union>
     modify ` (range details \<union> range (ledger_page_click collate) \<union>
       range (ledger_sort_change collate) \<union> range (ledger_search_input collate) \<union>
       range (filter_click collate) \<union> range (hash_change collate))"

lemma beside_session_render [simp]:
  "storage_ok (render c s) = storage_ok s" "invalidated (render c s) = invalidated s"
  "generation (render c s) = generation s" "reloads (render c s) = reloads s"
  "session_store (render c s) = session_store s"
  by (subst render_form, simp)+

lemma beside_session_console [intro]:
  "beside_session (toast m e)" "beside_session (show_ledger c)" "beside_session (open_dialog b)"
  "beside_session close_dialog" "beside_session (details i)" "beside_session (ledger_page_click c b)"
  "beside_session (ledger_sort_change c v)" "beside_session (ledger_search_input c v)"
  "beside_session (filter_click c v)" "beside_session (clear_filters c)" "beside_session (hash_change c v)"
  by (auto simp: beside_session_def toast_def show_ledger_def open_dialog_def close_dialog_def
      details_def ledger_page_click_def Let_def ledger_sort_change_def ledger_search_input_def
      filter_click_def clear_filters_def hash_change_def split: option.split)

lemma obeys_beside: "beside_session f \<Longrightarrow> obeys same_session retired ans (modify f)"
  by (intro doc.obeys_session beside_sessionD)

lemma obeys_refresh: "obeys same_session retired ans (refresh collate)"
  unfolding refresh_def [abs_def]
  by (intro obeys_guard doc.obeys_intros same_session_trans same_session_refl beside_sessionD)
     (auto simp: beside_session_def)

lemma obeys_scenario: "obeys same_session retired ans (scenario collate kind)"
  unfolding scenario_def [abs_def] scenario_body_def
  by (intro obeys_guard doc.obeys_intros obeys_refresh obeys_beside beside_session_console
        same_session_trans same_session_refl beside_sessionD)
     (auto simp: beside_session_def)

lemma obeys_replay_click: "obeys same_session retired ans (replay_click collate i)"
  unfolding replay_click_def
  by (intro doc.obeys_intros obeys_refresh beside_sessionD)
     (auto simp: beside_session_def toast_def close_dialog_def)

lemma obeys_uuid: "obeys same_session retired ans random_uuid"
  by (auto intro!: obeysI simp: random_uuid_def same_session_def retired_def)

lemma obeys_record_playback: "obeys same_session retired ans (record_playback collate i)"
  unfolding record_playback_def
  by (intro doc.obeys_intros obeys_refresh obeys_uuid beside_sessionD beside_session_console)

lemma obeys_form_request_key: "obeys same_session retired ans (form_request_key payload)"
  by (auto intro!: obeysI simp: form_request_key_def async_simps same_session_def retired_def
      split: option.split)

lemma obeys_submit_reserve:
  "obeys same_session retired ans (submit_reserve collate c scr p :: ('a console_scheme, unit) prog)"
proof -
  have "obeys same_session retired ans
     (submit_body collate c scr p n :: ('a console_scheme, unit) prog)" for n
    unfolding submit_body_def Let_def
    by (intro doc.obeys_intros obeys_refresh obeys_form_request_key beside_sessionD)
       (auto simp: beside_session_def toast_def close_dialog_def on_form_def)
  from obeys_entered [OF this, where f = "\<lambda>s. s\<lparr>form_busy := True, form_error := []\<rparr>"]
  show ?thesis by (intro obeysI) (simp add: submit_reserve_def beside_session_def)
qed

lemma obeys_console_handlers:
  "h \<in> console_handlers collate \<Longrightarrow> obeys same_session retired ans h"
  by (auto simp: console_handlers_def obeys_refresh obeys_scenario obeys_replay_click
      obeys_record_playback obeys_submit_reserve intro!: obeys_beside beside_session_console)
     (auto intro!: obeysI obeys_at [OF same_session_trans obeys_refresh]
       simp: poll_def live_toggle_def screen_click_def open_dialog_def Let_def same_session_def
         retired_def split: option.split)

subsection \<open>The console as the script leaves it before the first refresh\<close>

definition no_runtime :: runtime_info where
  "no_runtime = \<lparr>rt_storage = [], rt_transport = [], rt_demo = False, rt_paused = False,
     rt_breaker_open = False, rt_can_reset = False\<rparr>"

definition fresh_console :: console where
  "fresh_console = page.extend fresh_page \<lparr>snap = None, runtime = no_runtime, active = ''overview'',
     filt = ''all'', search = [], busy = False, refreshing = False, live_paused = False,
     last_updated = None, connection_lost = False, overview_proof_open = False, ledger_page = 0,
     ledger_sort = ''newest'', hash = [], main_view = [], focused = [], dialog_open = False,
     dialog_notice = [], toast_text = [], toast_error = False, form_shown = False, form_no = 0,
     form_busy = False, form_error = [], form_fingerprint = None, form_key = None\<rparr>"

lemmas fresh_console_simps = fresh_console_def fresh_page_def page.defs no_runtime_def

subsection \<open>The last good snapshot survives\<close>

record refresh_vars =
  rv_snap :: "snapshot option"
  rv_runtime :: runtime_info
  rv_refreshing :: bool
  rv_lost :: bool

definition refresh_own :: "'a console_scheme \<Rightarrow> refresh_vars" where
  "refresh_own s = \<lparr>rv_snap = snap s, rv_runtime = runtime s, rv_refreshing = refreshing s,
     rv_lost = connection_lost s\<rparr>"

lemma page_frame_refresh: "page_frame refresh_own"
  by (simp add: page_frame_def refresh_own_def remember_def set_item_def reload_def clear_def
      remove_item_def set_local_def run_keys_def Let_def)

lemma refresh_own_render:
  "refresh_own (render c s) = refresh_own s"
  by (subst render_form) (simp add: refresh_own_def)

lemma keeps_refresh_outcome:
  assumes "\<not> refreshing s"
  shows "keeps refresh_own (\<lambda>_ v. rv_refreshing v) ans
     (\<lambda>_ v. \<not> rv_refreshing v \<and>
        (if rv_lost v then rv_snap v = snap s \<and> rv_runtime v = runtime s else rv_snap v \<noteq> None))
     (\<lambda>_ _. False) (refresh collate s)"
proof -
  let ?G = "\<lambda>v. rv_refreshing v \<and> rv_snap v = snap s \<and> rv_runtime v = runtime s"
  let ?F = "\<lambda>_ v. rv_refreshing v \<and> \<not> rv_lost v \<and> rv_snap v \<noteq> None"
  let ?s1 = "s\<lparr>refreshing := True\<rparr>"
  have body: "keeps refresh_own (\<lambda>_. ?G) ans ?F (\<lambda>_. ?G)
     (bind (bind (request snapshot_request) (shaped as_snapshot)) (\<lambda>sn.
      bind (bind (request runtime_request) (shaped as_runtime)) (\<lambda>rt.
        modify (\<lambda>s1. render collate
          (s1\<lparr>snap := Some sn, runtime := rt, last_updated := Some (clock s1),
             connection_lost := False\<rparr>)))) ?s1)"
    by (intro keeps_bindI [where m = "bind (request _) (shaped _)"]
          keeps_shaped [OF page_frame_refresh] allI impI)
       (auto simp: modify_def refresh_own_render, auto simp: refresh_own_def)
  have "keeps refresh_own (\<lambda>_ v. rv_refreshing v) ans
     (\<lambda>_ v. rv_refreshing v \<and>
        (if rv_lost v then rv_snap v = snap s \<and> rv_runtime v = runtime s else rv_snap v \<noteq> None))
     (\<lambda>_ _. False)
     (try_catch (bind (bind (request snapshot_request) (shaped as_snapshot)) (\<lambda>sn.
      bind (bind (request runtime_request) (shaped as_runtime)) (\<lambda>rt.
        modify (\<lambda>s1. render collate
          (s1\<lparr>snap := Some sn, runtime := rt, last_updated := Some (clock s1),
             connection_lost := False\<rparr>)))))
       (\<lambda>e. modify (\<lambda>s1. s1\<lparr>connection_lost := True\<rparr>)) ?s1)"
    by (intro keeps_catchI keeps_mono [OF body]) (auto simp: modify_def refresh_own_def)
  then show ?thesis using assms
    by (auto simp: refresh_def intro!: keeps_finallyI elim!: keeps_mono simp: refresh_own_def)
qed

text \<open>
  A poll never loses data: whatever happens to its two requests, \<open>refresh\<close> ends without an
  error and with its flag clear, and either shows a new snapshot or keeps the last snapshot and
  the runtime information and reports the connection as lost.
\<close>

theorem refresh_outcome:
  assumes "\<not> refreshing s"
    and "\<And>w q s r s' w'. env w q s = (r, s', w') \<Longrightarrow> refresh_own s' = refresh_own s"
    and "drive (refresh collate s) env w = (r, s', w')"
  shows "r = Inr () \<and> \<not> refreshing s' \<and>
    (if connection_lost s' then snap s' = snap s \<and> runtime s' = runtime s else snap s' \<noteq> None)"
  using drive_keeps [OF keeps_refresh_outcome [OF assms(1), of "\<lambda>_ _. True" collate], of env w] assms(2,3)
  by (auto simp: refresh_own_def split: sum.splits if_splits)

subsection \<open>One scenario at a time\<close>

definition lab_handlers :: "string comparator \<Rightarrow> ('a console_scheme, unit) prog set" where
  "lab_handlers collate = range (scenario collate)"

definition lab_env :: "'a console_scheme \<Rightarrow> 'a console_scheme \<Rightarrow> bool" where
  "lab_env s s' \<longleftrightarrow> busy s' = busy s"

lemma page_frame_busy: "page_frame busy"
  by (simp add: page_frame_def remember_def set_item_def reload_def clear_def
      remove_item_def set_local_def run_keys_def Let_def)

lemma console_frame_busy: "console_frame busy"
  by (rule console_frameI [OF page_frame_busy]) simp_all

lemma keeps_scenario_body:
  "busy s \<Longrightarrow> keeps busy (\<lambda>q b. b \<and> True) ans (\<lambda>_ b. b) (\<lambda>_ b. b) (scenario_body collate kind s)"
  by (auto simp: scenario_body_def modify_def gets_def open_dialog_def toast_def
      intro!: keeps_seqI keeps_bindI keeps_request [OF page_frame_busy] keeps_refresh [OF console_frame_busy])

interpretation lab: exclusive "lab_handlers collate" lab_env ans busy "\<lambda>b. b" "\<lambda>_. True" "\<lambda>_ _. True"
  for collate ans
proof (unfold_locales, goal_cases)
  case (1 h s)
  then show ?case by (auto simp: lab_handlers_def scenario_def)
next
  case (2 h s)
  have "owns busy (\<lambda>b. b) (\<lambda>_. True) (\<lambda>_ _. True) ans
    (try_finally (try_catch (scenario_body collate kind) (\<lambda>e. modify (toast (err_message e) True)))
      (\<lambda>s1. s1\<lparr>busy := False\<rparr>) (s\<lparr>busy := True\<rparr>))" for kind
    by (rule owns_try [where G = "\<lambda>b. b"], rule keeps_scenario_body) (auto simp: toast_def)
  with 2 show ?case by (auto simp: lab_handlers_def scenario_def)
next
  case (3 s s')
  then show ?case by (simp add: lab_env_def)
qed

subsection \<open>A retried form repeats its request\<close>

record form_vars =
  fv_shown :: bool
  fv_no :: nat
  fv_busy :: bool
  fv_fingerprint :: "reservation_input option"
  fv_key :: "string option"

definition form_own :: "'a console_scheme \<Rightarrow> form_vars" where
  "form_own s = \<lparr>fv_shown = form_shown s, fv_no = form_no s, fv_busy = form_busy s,
     fv_fingerprint = form_fingerprint s, fv_key = form_key s\<rparr>"

lemma page_frame_form: "page_frame form_own"
  by (simp add: page_frame_def form_own_def remember_def set_item_def reload_def clear_def
      remove_item_def set_local_def run_keys_def Let_def)

lemma console_frame_form: "console_frame form_own"
  by (rule console_frameI [OF page_frame_form]) (simp_all add: form_own_def)

lemma form_own_others [simp]:
  "form_own (toast m e s) = form_own s" "form_own (close_dialog s) = form_own s"
  "form_own (s\<lparr>form_error := x\<rparr>) = form_own s"
  by (simp_all add: form_own_def toast_def close_dialog_def)

definition keyed :: "nat \<Rightarrow> reservation_input \<Rightarrow> string \<Rightarrow> form_vars \<Rightarrow> bool" where
  "keyed n payload k v \<longleftrightarrow> fv_shown v \<and> fv_no v = n \<and> fv_fingerprint v = Some payload \<and> fv_key v = Some k"

lemma form_request_key_outcome:
  assumes "form_fingerprint s \<noteq> None \<longrightarrow> form_key s \<noteq> None" and "form_shown s"
  shows "\<exists>s1 k. form_request_key payload s = Return s1 k \<and>
    keyed (form_no s) payload k (form_own s1) \<and> invalidated s1 = invalidated s"
  using assms by (cases "form_fingerprint s = Some payload")
    (auto simp: form_request_key_def async_simps keyed_def form_own_def)

lemma form_request_key_again:
  "form_fingerprint s = Some payload \<Longrightarrow> form_key s = Some k \<Longrightarrow> form_request_key payload s = Return s k"
  by (simp add: form_request_key_def)

lemma form_own_on_form:
  "(\<And>s. form_own (f s) = form_own s) \<Longrightarrow> form_own (on_form n f s) = form_own s"
  by (simp add: on_form_def)

lemma keeps_submit_body:
  assumes "form_shown s" and "form_no s = n" and "reserve_cost price = Inr cost"
    and "payload = \<lparr>inp_campaign = c, inp_screen = scr, inp_cost = int cost\<rparr>"
    and "form_request_key payload s = Return s1 k" and "keyed n payload k (form_own s1)"
  shows "keeps form_own (\<lambda>_. keyed n payload k) ans
     (\<lambda>_ v. keyed n payload k v \<and> \<not> fv_busy v) (\<lambda>_ v. keyed n payload k v \<and> \<not> fv_busy v)
     (submit_body collate c scr price n s)"
proof -
  have rest: "keeps form_own (\<lambda>_. keyed n payload k) ans (\<lambda>_. keyed n payload k) (\<lambda>_. keyed n payload k)
     (bind (request (reserve_request payload k)) (\<lambda>_.
        seq (modify (\<lambda>s. toast m False (on_form n close_dialog s))) (refresh collate)) s1)" for m
    using assms(6)
    by (auto intro!: keeps_bindI keeps_request [OF page_frame_form] keeps_seqI
        keeps_refresh [OF console_frame_form] simp: modify_def form_own_on_form)
  show ?thesis
    unfolding submit_body_def try_finally_def try_catch_def
  proof (rule keeps_afinally, rule keeps_acatch)
    show "keeps form_own (\<lambda>_. keyed n payload k) ans (\<lambda>_. keyed n payload k) (\<lambda>_. keyed n payload k)
      ((case reserve_cost price of Inl m \<Rightarrow> throw (js_err m)
        | Inr cost \<Rightarrow>
          let payload = \<lparr>inp_campaign = c, inp_screen = scr, inp_cost = int cost\<rparr> in
          bind (form_request_key payload) (\<lambda>k.
          bind (request (reserve_request payload k)) (\<lambda>_.
          seq (modify (\<lambda>s. toast
                 ''Budget reserved. Record its playback from the reservations table.'' False
                 (on_form n close_dialog s)))
              (refresh collate)))) s)"
      using rest assms(3-5) by (simp add: Let_def bind_def [of "form_request_key _"])
    show "keeps form_own (\<lambda>_. keyed n payload k) ans (\<lambda>_. keyed n payload k) (\<lambda>_. keyed n payload k)
      (modify (\<lambda>s. if form_no s = n
         then s\<lparr>form_error := err_message e @ '' Retrying the unchanged form uses the same request key.''\<rparr>
         else toast (err_message e @ '' Check reservations before creating another hold.'') True s) s')"
      if "keyed n payload k (form_own s')" for e s'
      using that by (simp add: modify_def)
  qed (auto simp: on_form_def keyed_def form_own_def)
qed

text \<open>The first thing a submission waits for.\<close>

lemma submit_reserve_sends:
  assumes "form_shown s" and "\<not> form_busy s" and "\<not> invalidated s" and "reserve_cost price = Inr cost"
    and "form_request_key \<lparr>inp_campaign = c, inp_screen = scr, inp_cost = int cost\<rparr>
      (s\<lparr>form_busy := True, form_error := []\<rparr>) = Return s1 k" and "\<not> invalidated s1"
  shows "\<exists>rest. submit_reserve collate c scr price s =
    Await s1 (Fetch (stamp s1 (reserve_request \<lparr>inp_campaign = c, inp_screen = scr, inp_cost = int cost\<rparr> k))) rest"
  using assms
  by (simp add: submit_reserve_def submit_body_def request_def send_def async_simps Let_def)

text \<open>
  C33. A retry of the unchanged form repeats the request under the same idempotency key: after
  a submission of the reserve form has ended in any way (a reply was lost, an error, a success),
  as long as the form has not been replaced, submitting the same content again sends a request
  with the same key and body.
\<close>

theorem unchanged_form_same_key:
  assumes "form_shown s" and "\<not> form_busy s" and "\<not> invalidated s" and "reserve_cost price = Inr cost"
    and "form_fingerprint s \<noteq> None \<longrightarrow> form_key s \<noteq> None"
    and "\<And>w q s r s' w'. env w q s = (r, s', w') \<Longrightarrow> form_own s' = form_own s"
    and "drive (submit_reserve collate c scr price s) env w = (r, s', w')" and "\<not> invalidated s'"
  shows "\<exists>k g g' s1 rest1 s2 rest2.
    submit_reserve collate c scr price s = Await s1 (Fetch
      ((reserve_request \<lparr>inp_campaign = c, inp_screen = scr, inp_cost = int cost\<rparr> k)\<lparr>rq_generation := g\<rparr>)) rest1 \<and>
    submit_reserve collate c scr price s' = Await s2 (Fetch
      ((reserve_request \<lparr>inp_campaign = c, inp_screen = scr, inp_cost = int cost\<rparr> k)\<lparr>rq_generation := g'\<rparr>)) rest2"
proof -
  let ?pl = "\<lparr>inp_campaign = c, inp_screen = scr, inp_cost = int cost\<rparr>"
  let ?in = "\<lambda>s. s\<lparr>form_busy := True, form_error := []\<rparr>"
  have stamped: "\<exists>g. stamp x rq = rq\<lparr>rq_generation := g\<rparr>" for x :: "'a console_scheme" and rq
    by (auto simp: stamp_def intro: exI [of _ "rq_generation rq"])
  have "\<exists>s1 k. form_request_key ?pl (?in s) = Return s1 k \<and>
      keyed (form_no (?in s)) ?pl k (form_own s1) \<and> invalidated s1 = invalidated (?in s)"
    by (rule form_request_key_outcome) (use assms(1,5) in auto)
  then obtain s1 k where key: "form_request_key ?pl (?in s) = Return s1 k"
    and s1: "keyed (form_no s) ?pl k (form_own s1)" "\<not> invalidated s1"
    using assms(3) by auto
  have "keeps form_own (\<lambda>_. keyed (form_no s) ?pl k) (\<lambda>_ _. True)
     (\<lambda>_ v. keyed (form_no s) ?pl k v \<and> \<not> fv_busy v) (\<lambda>_ v. keyed (form_no s) ?pl k v \<and> \<not> fv_busy v)
     (submit_reserve collate c scr price s)"
    using keeps_submit_body [OF _ _ assms(4) refl key s1(1)] assms(1,2) by (simp add: submit_reserve_def)
  from drive_keeps [OF this, of env w] assms(6,7)
  have "keyed (form_no s) ?pl k (form_own s')" and "\<not> form_busy s'"
    by (auto simp: form_own_def split: sum.splits)
  then have "form_request_key ?pl (?in s') = Return (?in s') k" and s': "form_shown s'"
    by (auto simp: keyed_def form_own_def form_request_key_again)
  then obtain rest2 where "submit_reserve collate c scr price s' =
      Await (?in s') (Fetch (stamp (?in s') (reserve_request ?pl k))) rest2"
    using submit_reserve_sends [OF s' \<open>\<not> form_busy s'\<close> assms(8,4), of c scr "?in s'" k] assms(8) by auto
  moreover obtain rest1 where "submit_reserve collate c scr price s =
      Await s1 (Fetch (stamp s1 (reserve_request ?pl k))) rest1"
    using submit_reserve_sends [OF assms(1-4) key s1(2)] by blast
  ultimately show ?thesis using stamped by metis
qed

definition reserve_console :: console where
  "reserve_console = open_dialog True fresh_console"

definition lossy :: "unit \<Rightarrow> awaiting \<Rightarrow> 's \<Rightarrow> reply \<times> 's \<times> unit" where
  "lossy w q s = (Refused ''signal timed out'', s, w)"

lemma reserve_cost_example: "reserve_cost ''1.50'' = Inr 1500000"
proof -
  have "''1.50'' = price_text 150" by code_simp
  then show ?thesis by (simp add: reserve_cost_exact price_pattern_price_text)
qed

theorem unchanged_form_same_key_witness:
  "\<exists>k g g' s1 rest1 s2 rest2.
    submit_reserve flat ''c'' ''s'' ''1.50'' reserve_console = Await s1 (Fetch
      ((reserve_request \<lparr>inp_campaign = ''c'', inp_screen = ''s'', inp_cost = 1500000\<rparr> k)\<lparr>rq_generation := g\<rparr>)) rest1 \<and>
    submit_reserve flat ''c'' ''s'' ''1.50''
      (fst (snd (drive (submit_reserve flat ''c'' ''s'' ''1.50'' reserve_console) lossy ()))) = Await s2 (Fetch
      ((reserve_request \<lparr>inp_campaign = ''c'', inp_screen = ''s'', inp_cost = 1500000\<rparr> k)\<lparr>rq_generation := g'\<rparr>)) rest2"
proof -
  let ?run = "drive (submit_reserve flat ''c'' ''s'' ''1.50'' reserve_console) lossy ()"
  obtain r s' where run: "?run = (r, s', ())" by (cases ?run) auto
  have "\<not> invalidated (fst (snd ?run))"
    by (simp add: reserve_console_def open_dialog_def fresh_console_simps submit_reserve_def submit_body_def
        reserve_cost_example form_request_key_def request_def send_def async_simps lossy_def on_form_def Let_def)
  then have "\<not> invalidated s'" by (simp add: run)
  moreover have "form_shown reserve_console" "\<not> form_busy reserve_console"
    "\<not> invalidated reserve_console" "form_fingerprint reserve_console = None"
    by (simp_all add: reserve_console_def open_dialog_def fresh_console_simps)
  ultimately show ?thesis
    using unchanged_form_same_key [OF _ _ _ reserve_cost_example _ _ run] run by (simp add: lossy_def)
qed

theorem refresh_outcome_witness:
  "case drive (refresh flat fresh_console) lossy () of (r, s', _) \<Rightarrow>
     r = Inr () \<and> \<not> refreshing s' \<and> connection_lost s' \<and> snap s' = None"
proof -
  obtain r s' where run: "drive (refresh flat fresh_console) lossy () = (r, s', ())"
    by (cases "drive (refresh flat fresh_console) lossy ()") auto
  moreover have "connection_lost (fst (snd (drive (refresh flat fresh_console) lossy ())))"
    by (simp add: fresh_console_simps refresh_def request_def send_def async_simps lossy_def)
  moreover have "\<not> refreshing fresh_console" and "snap fresh_console = None"
    by (simp_all add: fresh_console_simps)
  ultimately show ?thesis
    using refresh_outcome [OF _ _ run] by (simp add: lossy_def)
qed

text \<open>
  The failure lab runs one scenario at a time: whatever the order of clicks, replies and
  changes made by other pages, at most one scenario is in flight, and the flag that disables the
  buttons is set exactly while one is.
\<close>

theorem lab_one_at_a_time:
  assumes "\<not> busy s0" and "reaches (lab_handlers collate) lab_env ans s0 (s, ts)"
  shows "length ts = (if busy s then 1 else 0)"
  using lab.one_in_flight [OF assms(1) _ assms(2)] by simp

theorem lab_one_at_a_time_witness:
  "case run_events [Begin (scenario flat ''pause''), Begin (scenario flat ''traffic'')] (fresh_console, []) of
     (s, ts) \<Rightarrow> busy s \<and> length ts = (if busy s then 1 else 0)"
proof -
  let ?es = "[Begin (scenario flat ''pause''), Begin (scenario flat ''traffic'')]"
  obtain s ts where run: "run_events ?es (fresh_console, []) = (s, ts)" by fastforce
  have "reaches (lab_handlers flat) lab_env (\<lambda>_ _. True) fresh_console (run_events ?es (fresh_console, []))"
    by (rule run_events_reaches_start) (simp add: lab_handlers_def)
  with lab_one_at_a_time [of fresh_console flat "\<lambda>_ _. True" s ts] run
  have "length ts = (if busy s then 1 else 0)" by (simp add: fresh_console_simps)
  moreover have "busy (fst (run_events ?es (fresh_console, [])))"
    by (simp add: fresh_console_simps scenario_def scenario_body_def request_def send_def async_simps)
  ultimately show ?thesis using run by simp
qed

end
