(* ===== verification/Markup.thy ===== *)
theory Markup
  imports JsText
begin

text \<open>
  The HTML that the console writes into the document, and a reader of HTML that says what a browser
  makes of it: which characters are tags, where a text or an attribute value ends, which elements
  are open. A template literal of the scripts is a list of pieces: the text of the template, the
  characters of it beyond ASCII, and the values it inserts. What the views write is \<open>whole\<close> when the
  reader ends where it started whatever the values are; the values then never act as markup.
\<close>

subsection \<open>Pieces of a template\<close>

datatype piece = Lit string | Glyph nat | Val string

type_synonym html = "piece list"

text \<open>The UTF-8 bytes of a character from \<open>U+0080\<close> to \<open>U+FFFF\<close>.\<close>

definition utf8_bytes :: "nat \<Rightarrow> string" where
  "utf8_bytes n =
     (if n < 2048 then [char_of (192 + n div 64), char_of (128 + n mod 64)]
      else [char_of (224 + n div 4096 mod 16), char_of (128 + n div 64 mod 64), char_of (128 + n mod 64)])"

primrec piece_text :: "piece \<Rightarrow> string" where
  "piece_text (Lit t) = t"
| "piece_text (Glyph n) = utf8_bytes n"
| "piece_text (Val t) = t"

definition html_string :: "html \<Rightarrow> string" where
  "html_string h = concat (map piece_text h)"

text \<open>The same markup with empty values.\<close>

primrec blank_piece :: "piece \<Rightarrow> piece" where
  "blank_piece (Lit t) = Lit t"
| "blank_piece (Glyph n) = Glyph n"
| "blank_piece (Val t) = Val []"

subsection \<open>Reading HTML\<close>

text \<open>
  Between tags; in the name of a start tag; among its attributes; in a quoted value; after the
  slash of a tag without content; in the name of an end tag.
\<close>

datatype mode = Outside | Opening string | Inside string | Quoted char string | Slashed | Closing string

text \<open>The reader's state: its mode and the elements that are open, the innermost first.\<close>

type_synonym reader = "mode \<times> string list"

definition void_elements :: "string list" where
  "void_elements = [''input'', ''br'']"

definition enter :: "string \<Rightarrow> string list \<Rightarrow> string list" where
  "enter n els = (if n \<in> set void_elements then els else n # els)"

fun read_char :: "char \<Rightarrow> reader \<Rightarrow> reader option" where
  "read_char c (Outside, els) = Some (if c = CHR ''<'' then Opening [] else Outside, els)"
| "read_char c (Opening n, els) =
     (if c = CHR ''>'' then if n = [] then None else Some (Outside, enter n els)
      else if c = CHR '' '' then Some (Inside n, els)
      else if c = CHR ''/'' then Some (if n = [] then Closing [] else Slashed, els)
      else Some (Opening (n @ [c]), els))"
| "read_char c (Inside n, els) =
     (if c = CHR ''>'' then Some (Outside, enter n els)
      else if c = CHR 0x22 \<or> c = CHR 0x27 then Some (Quoted c n, els)
      else if c = CHR ''/'' then Some (Slashed, els)
      else if c = CHR ''<'' then None
      else Some (Inside n, els))"
| "read_char c (Quoted q n, els) = Some (if c = q then Inside n else Quoted q n, els)"
| "read_char c (Slashed, els) = (if c = CHR ''>'' then Some (Outside, els) else None)"
| "read_char c (Closing n, els) =
     (if c = CHR ''>'' then if els \<noteq> [] \<and> hd els = n then Some (Outside, tl els) else None
      else Some (Closing (n @ [c]), els))"

primrec reads :: "string \<Rightarrow> reader \<Rightarrow> reader option" where
  "reads [] r = Some r"
| "reads (c # t) r = Option.bind (read_char c r) (reads t)"

text \<open>
  The markup of a text: its characters without those between tags and those in quoted values. Two
  texts with the same markup have the same tags with the same attribute names, in the same order.
\<close>

primrec markup :: "string \<Rightarrow> reader \<Rightarrow> string" where
  "markup [] r = []"
| "markup (c # t) r = (case read_char c r of
     None \<Rightarrow> []
   | Some r' \<Rightarrow> (case (fst r, fst r') of
         (Outside, Outside) \<Rightarrow> markup t r'
       | (Quoted q n, Quoted q' n') \<Rightarrow> markup t r'
       | _ \<Rightarrow> c # markup t r'))"

subsection \<open>Values that do not act as markup\<close>

definition inert :: "string \<Rightarrow> bool" where
  "inert t \<longleftrightarrow> set t \<inter> markup_chars = {}"

text \<open>A value may stand between tags and in a quoted attribute value, nowhere else.\<close>

fun holds_text :: "mode \<Rightarrow> bool" where
  "holds_text Outside = True"
| "holds_text (Quoted q n) = (q \<in> {CHR 0x22, CHR 0x27})"
| "holds_text _ = False"

primrec read_piece :: "piece \<Rightarrow> reader \<Rightarrow> reader option" where
  "read_piece (Lit t) r = reads t r"
| "read_piece (Glyph n) r = (if holds_text (fst r) \<and> 128 \<le> n then Some r else None)"
| "read_piece (Val t) r = (if holds_text (fst r) \<and> inert t then Some r else None)"

primrec read_html :: "html \<Rightarrow> reader \<Rightarrow> reader option" where
  "read_html [] r = Some r"
| "read_html (p # h) r = Option.bind (read_piece p r) (read_html h)"

text \<open>A fragment that stands between tags and leaves the open elements as they were.\<close>

definition whole :: "html \<Rightarrow> bool" where
  "whole h \<longleftrightarrow> (\<forall>els. read_html h (Outside, els) = Some (Outside, els))"

lemma reads_append [simp]: "reads (t @ u) r = Option.bind (reads t r) (reads u)"
  by (induction t arbitrary: r) (simp_all add: Option.bind_assoc fun_eq_iff cong: Option.bind_cong)

lemma read_html_append [simp]: "read_html (g @ h) r = Option.bind (read_html g r) (read_html h)"
  by (induction g arbitrary: r) (simp_all add: Option.bind_assoc fun_eq_iff cong: Option.bind_cong)

lemma markup_append:
  "reads t r = Some r' \<Longrightarrow> markup (t @ u) r = markup t r @ markup u r'"
  by (induction t arbitrary: r) (auto simp: bind_eq_Some_conv split: mode.split prod.split)

lemma html_string_simps [simp]:
  "html_string [] = []" "html_string (p # h) = piece_text p @ html_string h"
  "html_string (g @ h) = html_string g @ html_string h"
  by (simp_all add: html_string_def)

lemma reads_quiet:
  assumes "holds_text (fst r)" and "set t \<inter> markup_chars = {}"
  shows "reads t r = Some r" and "markup t r = []"
proof -
  have "reads t r = Some r \<and> markup t r = []"
    using assms(2)
  proof (induction t)
    case (Cons c t)
    then have "read_char c r = Some r"
      using assms(1) by (cases r; cases "fst r") (auto simp: markup_chars_def)
    moreover have "fst r = Outside \<or> (\<exists>q n. fst r = Quoted q n)" using assms(1) by (cases "fst r") auto
    ultimately show ?case using Cons by auto
  qed simp
  then show "reads t r = Some r" and "markup t r = []" by simp_all
qed

lemma utf8_quiet: "128 \<le> n \<Longrightarrow> set (utf8_bytes n) \<inter> markup_chars = {}"
proof -
  have *: "char_of k \<notin> markup_chars" if "128 \<le> k" "k < 256" for k :: nat
  proof -
    have "of_char (char_of k :: char) = k" using that by simp
    then show ?thesis using that(1) unfolding markup_chars_def by (auto simp: of_char_def)
  qed
  assume "128 \<le> n"
  have "192 + n div 64 < 256" if "n < 2048" using that by linarith
  moreover have "n mod 64 < 64" "n div 64 mod 64 < 64" "n div 4096 mod 16 < 16" by simp_all
  ultimately show ?thesis
    unfolding utf8_bytes_def by (auto dest!: * [THEN notE, rotated -1])
qed

text \<open>
  Reading the pieces is reading the text they stand for, and the values leave no trace in the markup.
\<close>

lemma read_piece_sound:
  assumes "read_piece p r = Some r'"
  shows "reads (piece_text p) r = Some r'" and "reads (piece_text (blank_piece p)) r = Some r'"
    and "markup (piece_text (blank_piece p)) r = markup (piece_text p) r"
  using assms reads_quiet [of r "utf8_bytes _"] reads_quiet [of r] utf8_quiet
  by (cases p; auto simp: inert_def split: if_splits)+

lemma read_html_sound:
  assumes "read_html h r = Some r'"
  shows "reads (html_string h) r = Some r' \<and>
    markup (html_string (map blank_piece h)) r = markup (html_string h) r"
  using assms
proof (induction h arbitrary: r)
  case (Cons p h)
  then obtain r1 where p: "read_piece p r = Some r1" and h: "read_html h r1 = Some r'"
    by (auto simp: bind_eq_Some_conv)
  note sound = read_piece_sound [OF p]
  show ?case using Cons.IH [OF h] sound markup_append [OF sound(1)] markup_append [OF sound(2)] by simp
qed simp

lemma whole_fragment:
  assumes "whole h"
  shows "reads (html_string h) (Outside, els) = Some (Outside, els)"
    and "markup (html_string (map blank_piece h)) (Outside, els) = markup (html_string h) (Outside, els)"
  using read_html_sound [of h] assms by (auto simp: whole_def)

subsection \<open>Building whole fragments\<close>

lemma wholeI: "(\<And>els. read_html h (Outside, els) = Some (Outside, els)) \<Longrightarrow> whole h"
  by (simp add: whole_def)

lemma read_concat_map [simp]:
  "(\<And>x els. x \<in> set xs \<Longrightarrow> read_html (f x) (Outside, els) = Some (Outside, els)) \<Longrightarrow>
   read_html (concat (map f xs)) (Outside, els) = Some (Outside, els)"
  by (induction xs) simp_all

text \<open>Rules that read a template character by character.\<close>

lemma read_outside:
  "c \<noteq> CHR ''<'' \<Longrightarrow> reads (c # t) (Outside, els) = reads t (Outside, els)"
  "reads (CHR ''<'' # t) (Outside, els) = reads t (Opening [], els)"
  by simp_all

lemma read_opening:
  "c \<noteq> CHR ''>'' \<Longrightarrow> c \<noteq> CHR '' '' \<Longrightarrow> c \<noteq> CHR ''/'' \<Longrightarrow> reads (c # t) (Opening n, els) = reads t (Opening (n @ [c]), els)"
  "reads (CHR '' '' # t) (Opening n, els) = reads t (Inside n, els)"
  "reads (CHR ''>'' # t) (Opening (x # n), els) = reads t (Outside, enter (x # n) els)"
  "reads (CHR ''/'' # t) (Opening [], els) = reads t (Closing [], els)"
  "reads (CHR ''/'' # t) (Opening (x # n), els) = reads t (Slashed, els)"
  by simp_all

lemma read_inside:
  "c \<noteq> CHR ''>'' \<Longrightarrow> c \<noteq> CHR 0x22 \<Longrightarrow> c \<noteq> CHR 0x27 \<Longrightarrow> c \<noteq> CHR ''/'' \<Longrightarrow> c \<noteq> CHR ''<'' \<Longrightarrow>
     reads (c # t) (Inside n, els) = reads t (Inside n, els)"
  "reads (CHR 0x22 # t) (Inside n, els) = reads t (Quoted (CHR 0x22) n, els)"
  "reads (CHR 0x27 # t) (Inside n, els) = reads t (Quoted (CHR 0x27) n, els)"
  "reads (CHR ''>'' # t) (Inside n, els) = reads t (Outside, enter n els)"
  "reads (CHR ''/'' # t) (Inside n, els) = reads t (Slashed, els)"
  by simp_all

lemma read_quoted:
  "c \<noteq> q \<Longrightarrow> reads (c # t) (Quoted q n, els) = reads t (Quoted q n, els)"
  "reads (q # t) (Quoted q n, els) = reads t (Inside n, els)"
  by simp_all

lemma read_closing:
  "reads (CHR ''>'' # t) (Slashed, els) = reads t (Outside, els)"
  "c \<noteq> CHR ''>'' \<Longrightarrow> reads (c # t) (Closing n, els) = reads t (Closing (n @ [c]), els)"
  "reads (CHR ''>'' # t) (Closing n, n # els) = reads t (Outside, els)"
  by simp_all

lemma read_choice:
  "reads (if b then t else u) r = (if b then reads t r else reads u r)"
  "read_html (if b then g else h) r = (if b then read_html g r else read_html h r)"
  by simp_all

lemma enter_eval [simp]:
  "enter ''input'' els = els" "enter ''br'' els = els"
  "n \<notin> {''input'', ''br''} \<Longrightarrow> enter n els = n # els"
  by (simp_all add: enter_def void_elements_def)

declare reads.simps(2) [simp del] read_char.simps [simp del]

lemmas reading [simp] = read_outside read_opening read_inside read_quoted read_closing read_choice

lemma inert_values [simp]:
  "inert []" "inert (esc v)" "inert (t @ u) \<longleftrightarrow> inert t \<and> inert u"
  using esc_chars_safe by (auto simp: inert_def esc_def split: option.split)

lemma inert_Cons [simp]:
  "inert (c # t) \<longleftrightarrow> c \<noteq> CHR ''<'' \<and> c \<noteq> CHR ''>'' \<and> c \<noteq> CHR 0x22 \<and> c \<noteq> CHR 0x27 \<and> inert t"
  by (auto simp: inert_def markup_chars_def)

lemma inert_parts [simp]:
  "inert t \<Longrightarrow> inert (take n t)" "inert t \<Longrightarrow> inert (takeWhile p t)"
  "inert (if b then t else u) = (if b then inert t else inert u)"
  by (auto simp: inert_def dest: in_set_takeD set_takeWhileD)

lemma char_upper_markup: "char_upper c \<in> markup_chars \<Longrightarrow> c \<in> markup_chars"
proof (cases "CHR ''a'' \<le> c \<and> c \<le> CHR ''z''")
  case True
  have low: "of_char x < (65::nat)" if "x \<in> markup_chars" for x using that by (auto simp: markup_chars_def)
  define k :: nat where "k = of_char c - 32"
  have "65 \<le> k \<and> k < 256" using True unfolding k_def less_eq_char_def by auto
  then have "\<not> of_char (char_of k :: char) < (65::nat)" by simp
  moreover have "char_upper c = char_of k" using True by (simp add: char_upper_def k_def)
  moreover assume "char_upper c \<in> markup_chars"
  ultimately show ?thesis using low by metis
qed (simp add: char_upper_def)

lemma inert_upper [simp]: "inert t \<Longrightarrow> inert (map char_upper t)"
  using char_upper_markup by (fastforce simp: inert_def)

lemma inert_digits: "\<forall>c \<in> set t. is_digit c \<or> c = CHR '',''  \<Longrightarrow> inert t"
  by (auto simp: inert_def markup_chars_def is_digit_def less_eq_char_def)

lemma inert_dec [simp]: "inert (dec n)"
  using dec_digits [of n] by (intro inert_digits) auto

lemma set_group_rev: "set (group_rev t) \<subseteq> insert (CHR '','') (set t)"
  by (induction t rule: group_rev.induct) auto

lemma inert_num [simp]: "inert (num n)"
proof -
  have "inert (rev (group_rev (rev (dec (nat \<bar>n\<bar>)))))"
    using set_group_rev [of "rev (dec (nat \<bar>n\<bar>))"] dec_digits [of "nat \<bar>n\<bar>"] by (intro inert_digits) auto
  then show ?thesis by (simp add: num_def)
qed

lemma inert_money [simp]: "inert (money n)"
proof -
  have "inert (two_digits (k mod 100))" for k
    using two_digits_facts(2) [of "k mod 100"] by (intro inert_digits) simp
  then show ?thesis by (simp add: money_def Let_def)
qed

lemma inert_title [simp]:
  assumes "inert t" shows "inert (title t)"
proof -
  have "inert (map (\<lambda>c. if c = CHR ''_'' then CHR '' '' else c) t)" (is "inert ?u")
    using assms by (induction t) simp_all
  then show ?thesis using inert_upper [of "[hd ?u]"] by (cases ?u) (simp_all add: title_def)
qed

end
