(* ===== verification/Views.thy ===== *)
theory Views
  imports Console Markup
begin

text \<open>
  The views of \<open>internal/console/web/app.js\<close>: the functions that return the HTML of the main page
  and of the dialogs, template by template. A literal of the script is split into pieces, and
  characters beyond ASCII are written by their code. What the browser prints by its own rules,
  times and numbers with a fraction, and the geometry of the map that is computed with them, is an
  argument: a \<open>browser\<close>. The templates are laid out in the order of the script.
\<close>

record browser =
  br_time :: "int \<Rightarrow> string"
  br_local :: "int \<Rightarrow> string"
  br_percent :: "int \<Rightarrow> int \<Rightarrow> string"
  br_outline :: string
  br_dot :: "screen \<Rightarrow> string"
  br_bend :: "screen \<Rightarrow> screen \<Rightarrow> string \<times> string"
  br_json :: "payload \<Rightarrow> string"

text \<open>\<open>text.split(sep)\<close>, for a separator that is not empty.\<close>

function split_text :: "string \<Rightarrow> string \<Rightarrow> string \<Rightarrow> string list" where
  "split_text sep part [] = [part]"
| "split_text sep part (c # t) =
     (if sep \<noteq> [] \<and> take (length sep) (c # t) = sep then part # split_text sep [] (drop (length sep) (c # t))
      else split_text sep (part @ [c]) t)"
  by pat_completeness auto
termination
  by (relation "measure (\<lambda>(_, _, t). length t)") (auto simp: Suc_le_eq)

subsection \<open>Parts\<close>

definition delivery_intelligence :: html where
  "delivery_intelligence = [Lit ''DELIVERY INTELLIGENCE'']"

definition badge :: "string \<Rightarrow> html" where
  \<open>badge status =
     [Lit ''<span class="badge '', Val (esc (Some status)), Lit ''">''] @
     (if status = ''settled'' then [Glyph 0x2713, Lit '' '']
      else if status = ''duplicate'' then [Glyph 0x21AA, Lit '' '']
      else if status = ''quarantined'' \<or> status = ''failed'' then [Lit ''! ''] else []) @
     [Val (esc (Some (title status))), Lit ''</span>'']\<close>

definition button :: "html \<Rightarrow> string \<Rightarrow> bool \<Rightarrow> html" where
  \<open>button label action primary =
     [Lit ''<button class="button'', Lit (if primary then '' primary'' else []), Lit ''" data-action="'',
      Val action, Lit ''" '', Lit ''>''] @
     label @
     [Lit ''</button>'']\<close>

definition heading :: "html \<Rightarrow> html \<Rightarrow> html \<Rightarrow> html \<Rightarrow> html" where
  \<open>heading name description actions eyebrow =
     [Lit ''<div class="page-header"><div><div class="eyebrow">''] @
     eyebrow @
     [Lit ''</div><h1>''] @
     name @
     [Lit ''</h1><p>''] @
     description @
     [Lit ''</p></div><div class="actions">''] @
     actions @
     [Lit ''</div></div>'']\<close>

definition progress :: "browser \<Rightarrow> campaign \<Rightarrow> html" where
  \<open>progress br c =
     [Lit ''<div class="budget-progress" title="Settled '', Val (money (cmp_spent c)), Lit '' '', Glyph 0xB7,
      Lit '' Held '', Val (money (cmp_reserved c)), Lit ''"><i class="spent" style="width:'',
      Val (br_percent br (cmp_spent c) (cmp_budget c)), Lit ''%"></i><i class="held" style="width:'',
      Val (br_percent br (cmp_reserved c) (cmp_budget c)), Lit ''%"></i></div>'']\<close>

definition metric :: "html \<Rightarrow> html \<Rightarrow> html \<Rightarrow> html \<Rightarrow> bool \<Rightarrow> html" where
  \<open>metric label value note icon amber =
     [Lit ''<article class="metric"><div class="metric-name">''] @
     label @
     [Lit ''<span class="metric-icon">''] @
     icon @
     [Lit ''</span></div><div class="metric-value">''] @
     value @
     [Lit ''</div><div class="metric-note'', Lit (if amber then '' amber'' else []), Lit ''">''] @
     note @
     [Lit ''</div></article>'']\<close>

definition metrics :: "snapshot \<Rightarrow> html" where
  \<open>metrics sn =
     [Lit ''<div class="metrics">''] @
     metric [Lit ''Settled spend''] [Val (money (total cmp_spent sn))]
       ([Lit ''<strong>'', Glyph 0x2713, Lit ''</strong> Backed by matched playback receipts''])
       [Glyph 0x2197] False @
     metric [Lit ''Verified plays''] [Val (num (snp_counts sn Settled))] [Lit ''One settled reservation per play'']
       [Glyph 0x25F7] False @
     metric [Lit ''Duplicates suppressed''] [Val (num (snp_counts sn Duplicate))]
       ([Lit ''<strong>$0.00</strong> Additional spend from duplicate plays''])
       [Glyph 0x29C9] False @
     metric [Lit ''Needs attention''] [Val (num (recovery_badge (snp_counts sn)))]
       ([Val (num (snp_counts sn Accepted)), Lit '' receipts awaiting a decision''])
       [Glyph 0x25CC] True @
     [Lit ''</div>'']\<close>

definition map_line :: "browser \<Rightarrow> screen \<Rightarrow> screen \<Rightarrow> html" where
  \<open>map_line br v w =
     [Lit ''<path class="map-line" d="M'', Val (br_dot br v), Lit '' Q'', Val (fst (br_bend br v w)),
      Lit '','', Val (snd (br_bend br v w)), Lit '' '', Val (br_dot br w), Lit ''"/>'']\<close>

definition map_label :: "screen \<Rightarrow> string" where
  \<open>map_label v =
     (if scr_id v = ''sea-02'' then [] else map char_upper (takeWhile (\<lambda>c. c \<noteq> CHR ''-'') (scr_id v)))\<close>

definition map_dot :: "browser \<Rightarrow> screen \<Rightarrow> html" where
  \<open>map_dot br v =
     [Lit ''<g class="screen-dot" data-screen="'', Val (scr_id v),
      Lit ''" tabindex="0" role="button" aria-label="'', Val (esc (Some (scr_name v))),
      Lit ''" transform="translate('', Val (br_dot br v),
      Lit '')"><circle class="halo" r="12"/><circle class="core" r="3"/><text class="map-label" x="'',
      Lit (if scr_id v = ''sea-01'' then ''-31'' else ''10''), Lit ''" y="'',
      Lit (if scr_id v = ''sea-01'' then ''-10'' else ''-6''), Lit ''">'', Val (map_label v),
      Lit ''</text></g>'']\<close>

definition network :: "browser \<Rightarrow> snapshot \<Rightarrow> html" where
  \<open>network br sn =
     [Lit ''<section class="panel network-panel"><div class="panel-header"><div><h2>'',
      Lit ''Demo advertising screens</h2><p>Playback reconciliation across the demo network</p>'',
      Lit ''</div><span class="panel-tag">'', Val (dec (length (snp_screens sn))),
      Lit '' SCREENS / US</span></div><div class="map-wrap">'',
      Lit ''<svg viewBox="0 0 650 295" role="img" aria-label="Illustrative US map of eight '',
      Lit ''synthetic screens. Select a screen for its delivery details."><defs>'',
      Lit ''<pattern id="grid" width="24" height="24" patternUnits="userSpaceOnUse">'',
      Lit ''<path d="M24 0H0V24" fill="none" class="map-grid"/></pattern></defs>'',
      Lit ''<rect width="650" height="295" fill="url(#grid)"/><path class="us-outline" d="'',
      Val (br_outline br), Lit ''"/>''] @
     (case snp_screens sn of [] \<Rightarrow> [] | v # vs \<Rightarrow> concat (map (map_line br v) vs)) @
     concat (map (map_dot br) (snp_screens sn)) @
     [Lit ''</svg><div class="map-caption">ILLUSTRATIVE GEOGRAPHY '', Glyph 0xB7,
      Lit '' SYNTHETIC INVENTORY</div></div><div class="map-footer"><div class="legend"><span><i>'',
      Lit ''</i>Demo screen</span><span><i class="dim"></i>'',
      Val (dec (length (remdups (map scr_market (snp_screens sn))))),
      Lit '' markets</span></div><a class="text-link" href="#intake">Inspect partner intake '', Glyph 0x2197,
      Lit ''</a></div></section>'']\<close>

definition flow_row :: "bool \<Rightarrow> html \<times> string \<times> html \<times> int \<Rightarrow> html" where
  \<open>flow_row pending r =
     [Lit ''<div class="flow-row"><span class="flow-icon">''] @
     fst r @
     [Lit ''</span><div class="flow-text">'', Val (fst (snd r)), Lit ''<small>''] @
     fst (snd (snd r)) @
     [Lit ''</small></div><div class="flow-count">'', Val (num (snd (snd (snd r)))), Lit ''<small>'',
      Lit (if pending then ''pending'' else []), Lit ''</small></div></div>'']\<close>

definition flow :: "snapshot \<Rightarrow> runtime_info \<Rightarrow> html" where
  \<open>flow sn rt =
     [Lit ''<section class="panel"><div class="panel-header"><div><h2>From receipt to certainty</h2>'',
      Lit ''<p>Durable at every handoff</p></div><span class="panel-tag">'',
      Lit (if rt_transport rt = ''pubsub'' then ''PUB/SUB'' else ''LOCAL''),
      Lit ''</span></div><div class="flow-body">''] @
     (let c = flow_counts (snp_counts sn) in
        flow_row False ([Glyph 0x2193], ''Receipt API'', [Lit ''Validated envelope '', Glyph 0xB7, Lit '' persisted intent''], c ! 0) @
        flow_row True ([Glyph 0x21E2], ''Transactional outbox'', [Lit ''Accepted work survives a restart''], c ! 1) @
        flow_row False ([Glyph 0x25C7], ''Reconciliation worker'', [Lit ''Screen + time window + reservation''], c ! 2) @
        flow_row False ([Glyph 0x2713], ''Settlement ledger'', [Lit ''Atomic spend + immutable decision''], c ! 3)) @
     [Lit ''</div><div class="flow-bottom'',
      Lit (if rt_paused rt \<or> rt_breaker_open rt then '' warning'' else []), Lit ''"><span>''] @
     (if rt_paused rt \<or> rt_breaker_open rt then [Glyph 0x2161] else [Glyph 0x2713]) @
     [Lit ''</span>'',
      Lit (if rt_paused rt then ''Worker paused. Accepted receipts remain durable.''
        else if rt_breaker_open rt then ''Retry cooldown active. Work is retained.''
        else ''No duplicate charges. Every decision is auditable.''),
      Lit ''</div></section>'']\<close>

definition campaign_tr :: "browser \<Rightarrow> nat \<times> campaign \<Rightarrow> html" where
  \<open>campaign_tr br x =
     (let (i, c) = x; part = array_at (split_text '' / '' [] (cmp_name c)) in
     [Lit ''<tr><td><div class="campaign-name"><span class="campaign-mark '',
      Lit (if i = 1 then ''blue'' else if i = 2 then ''purple'' else []), Lit ''">'',
      Lit (if i = 0 then ''C'' else if i = 1 then ''N'' else if i = 2 then ''S'' else ''A''),
      Lit ''</span><div>'', Val (esc (part 0)), Lit ''<small>'', Val (esc (part 1)),
      Lit ''</small></div></div></td><td>'', Val (money (cmp_spent c + cmp_reserved c)),
      Lit '' <span class="muted">/ '', Val (money (cmp_budget c)), Lit ''</span>''] @
     progress br c @
     [Lit ''</td><td><span class="badge">'', Lit (if at_cap c then ''At cap'' else ''Active''),
      Lit ''</span></td></tr>''])\<close>

definition campaigns_table :: "browser \<Rightarrow> snapshot \<Rightarrow> html" where
  \<open>campaigns_table br sn =
     [Lit ''<section class="panel"><div class="panel-header"><div><h2>Campaign pacing</h2><p>'',
      Lit ''Settled and held against a hard budget cap</p></div>'',
      Lit ''<a href="#campaigns" class="button quiet">All campaigns '', Glyph 0x2197,
      Lit ''</a></div><div class="table-wrap"><table><thead><tr><th>CAMPAIGN</th><th>'',
      Lit ''COMMITTED / BUDGET</th><th>STATE</th></tr></thead><tbody>''] @
     concat (map (campaign_tr br) (enumerate 0 (snp_campaigns sn))) @
     [Lit ''</tbody></table></div><div class="table-foot"><span>Lime: settled '', Glyph 0xB7,
      Lit '' Amber: held</span><span>USD micros '', Glyph 0xB7,
      Lit '' No floating point</span></div></section>'']\<close>

definition ledger_tr :: "browser \<Rightarrow> bool \<Rightarrow> delivery \<Rightarrow> html" where
  \<open>ledger_tr br brief d =
     (let p = dlv_receipt d in
     [Lit ''<tr><td data-label="Receipt / screen"><button class="text-link mono" data-delivery="'',
      Val (dlv_id d), Lit ''">'', Val (esc (Some (take 8 (rcp_event p)))), Lit ''<span class="muted">'',
      Glyph 0x2026, Lit '' '', Glyph 0x2197,
      Lit ''</span></button><div class="muted" style="font-size:9px;margin-top:5px">'',
      Val (esc (Some (map char_upper (rcp_screen p)))), Lit ''</div></td>''] @
     (if brief then [] else [Lit ''<td data-label="Reservation" class="mono muted">'', Val (esc (Some (take 12 (rcp_reservation p)))),
      Glyph 0x2026, Lit ''</td><td data-label="Played at" class="mono" title="'',
      Val (esc (Some (br_local br (rcp_played_at p)))), Lit ''">'', Val (br_time br (rcp_played_at p)),
      Lit ''</td>'']) @
     [Lit ''<td data-label="Decision">''] @
     badge (status_name (dlv_status d)) @
     (if \<not> brief \<and> needs_recovery d then [Lit ''<small class="decision-reason">'',
      Val (esc (Some (title (if dlv_reason d \<noteq> [] then dlv_reason d else ''Inspect receipt for details'')))),
      Lit ''</small>''] else []) @
     [Lit ''</td><td data-label="'', Lit (if brief then ''Received'' else ''Attempts''),
      Lit ''" class="mono muted">'', Val (if brief then br_time br (dlv_received d) else dec (dlv_attempts d)),
      Lit ''</td></tr>''])\<close>

definition ledger_table :: "browser \<Rightarrow> string \<Rightarrow> string \<Rightarrow> string \<Rightarrow> delivery list \<Rightarrow> bool \<Rightarrow> html" where
  \<open>ledger_table br act flt srch data brief =
     (if data = [] \<and> (srch \<noteq> [] \<or> (\<not> brief \<and> act = ''ledger'' \<and> flt \<noteq> ''all''))
     then [Lit ''<div class="empty"><strong>No matching receipts.</strong>'',
      Lit ''Try a different search or <button class="text-link" data-clear-filters>'',
      Lit ''clear your filters</button>.</div>'']
     else if data = [] then [Lit ''<div class="empty"><strong>'',
      Lit (if act = ''recovery'' then ''Nothing needs recovery.'' else ''Your next play starts here.''),
      Lit ''</strong>'',
      Lit (if act = ''recovery'' then ''Run the schema or retry scenario in the failure lab to inspect a rejected delivery.''
        else ''Simulate traffic to create real reservations and reconcile playback receipts.''),
      Lit ''</div>'']
     else [Lit ''<div class="table-wrap"><table><thead><tr><th>RECEIPT / SCREEN</th>'',
      Lit (if brief then [] else ''<th>RESERVATION</th><th>PLAYED AT</th>''), Lit ''<th>DECISION</th><th>'',
      Lit (if brief then ''RECEIVED'' else ''ATTEMPTS''), Lit ''</th></tr></thead><tbody>''] @
     concat (map (ledger_tr br brief) data) @
     [Lit ''</tbody></table></div>''])\<close>

definition recent :: "browser \<Rightarrow> 'a console_scheme \<Rightarrow> snapshot \<Rightarrow> html" where
  \<open>recent br s sn =
     [Lit ''<section class="panel"><div class="panel-header"><div><h2>Latest decisions</h2><p>'',
      Lit ''Follow the evidence behind every play</p></div><a class="button quiet" href="#ledger">'',
      Lit ''Open ledger '', Glyph 0x2197, Lit ''</a></div>''] @
     ledger_table br (active s) (filt s) (search s) (take 3 (snp_deliveries sn)) True @
     [Lit ''<div class="table-foot"><span>Automatic updates '', Glyph 0xB7,
      Lit '' every 2 seconds when live</span><span>'',
      Lit ''Persisted decisions, live view <span class="status-dot"></span></span></div></section>'']\<close>

definition balance_card :: "browser \<Rightarrow> campaign \<Rightarrow> html" where
  \<open>balance_card br c =
     [Lit ''<article class="panel balance-card"><span class="eyebrow">'', Val (esc (Some (cmp_id c))),
      Lit ''</span><h2>'', Val (esc (Some (cmp_name c))), Lit ''</h2><div class="amount">'',
      Val (money (available c)), Lit '' <small class="muted" style="font-size:12px">available</small></div>''] @
     progress br c @
     [Lit ''<div class="balance-breakdown"><div><span>Settled</span><br>'', Val (money (cmp_spent c)),
      Lit ''</div><div><span>Held</span><br>'', Val (money (cmp_reserved c)),
      Lit ''</div><div><span>Budget</span><br>'', Val (money (cmp_budget c)), Lit ''</div></div></article>'']\<close>

definition reservation_tr :: "reservation \<Rightarrow> html" where
  \<open>reservation_tr r =
     [Lit ''<tr><td class="mono">'', Val (take 12 (rsv_id r)), Glyph 0x2026, Lit ''</td><td>'',
      Val (esc (Some (rsv_campaign r))), Lit ''</td><td>'', Val (esc (Some (rsv_screen r))), Lit ''</td><td>'',
      Val (money (rsv_cost r)), Lit ''</td><td>''] @
     badge (rstate_name (rsv_state r)) @
     [Lit ''</td><td>''] @
     (if rsv_state r = Held then [Lit ''<button class="button small" data-proof="'', Val (rsv_id r), Lit ''">Record playback '',
      Glyph 0x2197, Lit ''</button>'']
      else [Lit ''<span class="muted">Final</span>'']) @
     [Lit ''</td></tr>'']\<close>

definition campaigns :: "browser \<Rightarrow> snapshot \<Rightarrow> html" where
  \<open>campaigns br sn =
     heading [Lit ''Budgets with boundaries.''] [Lit ''Reserve first. Settle on evidence. Never spend the same budget twice.'']
       (button [Lit ''+ Reserve a play''] ''reserve'' True) delivery_intelligence @
     [Lit ''<div class="balance-cards">''] @
     concat (map (balance_card br) (snp_campaigns sn)) @
     [Lit ''</div><section class="panel"><div class="panel-header"><div><h2>Reservations</h2><p>'',
      Lit ''Newest 100 holds '', Glyph 0xB7,
      Lit '' 15-minute play window + 15-minute receipt grace period</p></div></div>''] @
     (if snp_reservations sn = [] then [Lit ''<div class="empty">No reservations yet.</div>'']
      else [Lit ''<div class="table-wrap"><table><thead><tr><th>RESERVATION</th><th>CAMPAIGN</th><th>'',
      Lit ''SCREEN</th><th>AMOUNT</th><th>STATE</th><th>ACTION</th></tr></thead><tbody>''] @
     concat (map reservation_tr (snp_reservations sn)) @
     [Lit ''</tbody></table></div>'']) @
     [Lit ''</section>'']\<close>

definition ledger_rows :: "browser \<Rightarrow> string comparator \<Rightarrow> 'a console_scheme \<Rightarrow> html" where
  \<open>ledger_rows br collate s =
     (let rows = deliveries_shown collate s; v = ledger_results rows (ledger_page s) in
     ledger_table br (active s) (filt s) (search s) (lvw_rows v) False @
     [Lit ''<div class="table-foot ledger-pagination"><span>''] @
     (case lvw_range v of None \<Rightarrow> [Lit ''0 matches'']
      | Some (a, z) \<Rightarrow> [Val (dec a), Glyph 0x2013, Val (dec z), Lit '' of '', Val (dec (length rows))]) @
     [Lit '' '', Glyph 0xB7, Lit '' newest 100 receipts searched</span><div>'',
      Lit ''<button class="button small" data-ledger-page="previous" '',
      Lit (if lvw_prev_disabled v then ''disabled'' else []), Lit '' aria-label="Previous receipts page">'',
      Glyph 0x2190, Lit '' Previous</button><span>Page '', Val (dec (lvw_page v + 1)), Lit '' / '',
      Val (dec (lvw_pages v)), Lit ''</span><button class="button small" data-ledger-page="next" '',
      Lit (if lvw_next_disabled v then ''disabled'' else []), Lit '' aria-label="Next receipts page">Next '',
      Glyph 0x2192, Lit ''</button></div></div>''])\<close>

definition filter_button :: "string \<Rightarrow> string \<Rightarrow> delivery list \<Rightarrow> string \<Rightarrow> html" where
  \<open>filter_button act flt ds v =
     [Lit ''<button class="filter '', Lit (if flt = v then ''active'' else []), Lit ''" data-filter="'', Val v,
      Lit ''" aria-pressed="'', Lit (if flt = v then ''true'' else ''false''), Lit ''">'',
      Val (if v = ''all'' then ''All decisions'' else title v), Lit '' <span>'',
      Val (dec (filter_count act ds v)), Lit ''</span></button>'']\<close>

definition ledger :: "browser \<Rightarrow> string comparator \<Rightarrow> 'a console_scheme \<Rightarrow> snapshot \<Rightarrow> html" where
  \<open>ledger br collate s sn =
     (let recovery = active s = ''recovery'' in
     heading [Lit (if recovery then ''Exceptions, explained.'' else ''The evidence behind every play.'')]
       [Lit (if recovery then ''Find the cause. Choose the next step. Preserve the original evidence.''
        else ''Search receipts, follow decisions, and inspect the evidence behind settlement.'')]
       ([Lit ''<button class="button" data-export-receipts>Export matches '', Glyph 0x2193,
      Lit ''</button><a href="#'', Lit (if recovery then ''lab'' else ''intake''),
      Lit ''" class="button primary">'', Lit (if recovery then ''Open failure lab'' else ''Partner intake''),
      Lit '' '', Glyph 0x2197, Lit ''</a>'']) delivery_intelligence @
     (if recovery then [Lit ''<div class="recovery-guidance"><article><span class="badge quarantined">'',
      Lit ''Quarantined</span><h3>Evidence needs correction</h3><p>'',
      Lit ''Inspect the schema, screen, or play window. A corrected payload needs a new event '',
      Lit ''ID.</p></article><article><span class="badge failed">Failed</span><h3>'',
      Lit ''Processing exhausted its retries</h3><p>'',
      Lit ''Resolve the operational cause, then replay the original receipt. Charge protection '',
      Lit ''still applies.</p></article></div>''] else []) @
     [Lit ''<div class="ledger-toolbar"><label class="ledger-search-label"><span>'',
      Lit ''Search receipts</span><input class="search" id="ledger-search" type="search" '',
      Lit ''placeholder="Event, receipt, screen, reservation or reason'', Glyph 0x2026,
      Lit ''" aria-label="Search deliveries" value="'', Val (esc (Some (search s))),
      Lit ''"></label><label class="ledger-sort-label"><span>Sort by</span><select id="ledger-sort">'',
      Lit ''<option value="newest" '', Lit (if ledger_sort s = ''newest'' then ''selected'' else []),
      Lit ''>Newest first</option><option value="oldest" '',
      Lit (if ledger_sort s = ''oldest'' then ''selected'' else []),
      Lit ''>Oldest first</option></select></label><button class="button quiet" data-clear-filters>'',
      Lit ''Clear filters</button></div><div class="filters" aria-label="Filter by decision">''] @
     concat (map (filter_button (active s) (filt s) (snp_deliveries sn)) (filter_options (active s))) @
     [Lit ''<span class="filter-scope">Counts within latest 100</span></div>'',
      Lit ''<section class="panel" id="ledger-results">''] @
     ledger_rows br collate s @
     [Lit ''</section>''])\<close>

definition lab_scenarios :: "runtime_info \<Rightarrow> (string \<times> string \<times> string \<times> string \<times> string) list" where
  "lab_scenarios rt = [
     (''01'', ''Duplicate delivery'', ''Five distinct event IDs report the same reservation. The first settles; the other four are suppressed.'',
      ''duplicate'', ''Send five receipts''),
     (''02'', ''Crash after commit'', ''The next playback commits its charge, then loses the acknowledgement. The retry must leave spend unchanged.'',
      ''crash'', ''Lose the acknowledgement''),
     (''03'', ''Unsupported schema'', ''A partner sends schema v99. Keep the evidence, quarantine the event, and leave the budget held.'',
      ''poison'', ''Send schema v99''),
     (''04'', ''Transient failure'', ''Fail the next five processing attempts. With an otherwise empty queue, the receipt reaches retry exhaustion.'',
      ''retry'', ''Inject five failures''),
     (''05'', ''Worker interruption'', ''Pause the local dispatcher, simulate traffic, then resume. Watch durable backlog drain without losing receipts.'',
      ''pause'', if rt_paused rt then ''Resume worker'' else ''Pause worker''),
     (''06'', ''Concurrent budget pressure'', ''32 requests compete to reserve $10 each from Solstice. Successful holds persist; the hard cap rejects the rest.'',
      ''budget-race'', ''Race 32 reservations'')]"

definition lab_card :: "string \<times> string \<times> string \<times> string \<times> string \<Rightarrow> html" where
  \<open>lab_card x =
     (let (n, name, about, kind, label) = x in
     [Lit ''<article class="panel lab-card"><div class="lab-number">SCENARIO / '', Val n, Lit ''</div><h2>'',
      Val name, Lit ''</h2><p>'', Val about, Lit ''</p>''] @
     button [Val label, Lit '' '', Glyph 0x2197] kind False @
     [Lit ''</article>''])\<close>

definition audit_item :: "browser \<Rightarrow> audit_entry \<Rightarrow> html" where
  \<open>audit_item br a =
     [Lit ''<div class="audit-item"><time>'', Val (br_time br (aud_created a)), Lit ''</time><div>''] @
     badge (aud_kind a) @
     [Lit '' <span class="mono muted">'', Val (take 10 (aud_resource a)), Lit ''</span><small>'',
      Val (esc (Some (aud_detail a))), Lit ''</small></div></div>'']\<close>

definition lab :: "browser \<Rightarrow> snapshot \<Rightarrow> runtime_info \<Rightarrow> html" where
  \<open>lab br sn rt =
     heading [Lit ''Make it fail. Watch it recover.''] [Lit ''Controlled faults against the real reconciliation engine.'']
       (button [Glyph 0x25B7, Lit '' Simulate traffic''] ''traffic'' True) [Lit ''RELIABILITY LAB''] @
     [Lit ''<div class="view-intro"><span class="big">'', Glyph 0x2318,
      Lit ''</span><div>These controls mutate the local demo database. Faults are shared across '',
      Lit ''this process. Run one scenario at a time with an empty queue for a clear result. Demo '',
      Lit ''controls are disabled outside demo mode.</div></div><div class="lab-grid">''] @
     concat (map lab_card (lab_scenarios rt)) @
     [Lit ''</div><section class="panel" style="margin-top:22px"><div class="panel-header"><div><h2>'',
      Lit ''Decision trail</h2><p>Newest 80 persisted audit records</p></div>'',
      Lit ''<span class="panel-tag">APPEND-ONLY APPLICATION LOG</span></div><div class="audit-list">''] @
     (if snp_audit sn = [] then [Lit ''<div class="empty">Run a scenario to begin the trail.</div>'']
      else concat (map (audit_item br) (snp_audit sn))) @
     [Lit ''</div></section>'']\<close>

definition decision_card :: "html \<times> html \<Rightarrow> html" where
  \<open>decision_card d =
     [Lit ''<article class="panel decision"><h3>''] @
     fst d @
     [Lit ''</h3><p>''] @
     snd d @
     [Lit ''</p></article>'']\<close>

definition arch_decisions :: "runtime_info \<Rightarrow> (html \<times> html) list" where
  \<open>arch_decisions rt =
     [([Lit ''01 / Durability is a contract''],
       [Lit ''<code>202 Accepted</code> means receipt + outbox committed to SQL. A broker outage '',
      Lit ''delays processing without losing already accepted intent. It does not mean the play has '',
      Lit ''been billed.'']),
      ([Lit ''02 / Business identity beats message identity''],
       [Lit ''An event ID deduplicates a retry. The reservation state prevents a second charge even '',
      Lit ''when a partner sends a brand-new event ID for the same play.'']),
      ([Lit ''03 / One transaction, one decision''],
       [Lit ''Receipt status, reservation transition, integer-micros budget and audit decision commit '',
      Lit ''together. A crash before commit rolls back; a crash after commit makes redelivery a '',
      Lit ''no-op.'']),
      ([Lit ''04 / Retry the recoverable failures''],
       [Lit ''Dispatch uses leased ownership, backoff with jitter and bounded retries. Invalid '',
      Lit ''evidence is quarantined. Replays use the original payload and the same validation rules.'']),
      ([Lit ''05 / Trust boundaries stay explicit''],
       [Lit ''Production API credentials bind a tenant. No request can choose another tenant. Shared '',
      Lit ''screen metadata contains no people, device IDs or mobile-location histories.'']),
      ([Lit ''06 / Know what has been demonstrated''],
       [Lit ''This console runs on ''] @ [Val (esc (Some (rt_storage rt))), Lit '' and '',
        Lit (if rt_transport rt = ''pubsub'' then ''the Google Pub/Sub client.'' else ''a local SQL-backed transport.'')] @
       [Lit '' Cloud Run infrastructure is supplied separately. This is a production-oriented demo, '',
      Lit ''not a certified Vistar integration.''])]\<close>

definition arch_node :: "bool \<Rightarrow> string \<times> string \<Rightarrow> html" where
  \<open>arch_node first x =
     (if first then [] else [Lit ''<span class="arch-arrow">'', Glyph 0x2192, Lit ''</span>'']) @
     [Lit ''<div class="arch-node">'', Val (fst x), Lit ''<small>'', Val (snd x), Lit ''</small></div>'']\<close>

definition architecture :: "runtime_info \<Rightarrow> html" where
  \<open>architecture rt =
     heading [Lit ''Small surface. Strong guarantees.'']
       [Lit ''An engineering demo designed around the failure boundaries in digital out-of-home.'']
       ([Lit ''<a href="https://github.com/jon-jc/afterglow" class="button" target="_blank" '',
      Lit ''rel="noreferrer">Private repository '', Glyph 0x2197, Lit ''</a>'']) [Lit ''SYSTEM DESIGN''] @
     [Lit ''<section class="panel"><div class="arch-flow">''] @
     arch_node True (''REST API'', ''Validate + reserve'') @ arch_node False (''SQL transaction'', ''Receipt + outbox'') @
     arch_node False (''Pub/Sub'', ''At-least-once delivery'') @ arch_node False (''Go worker'', ''Reconcile + settle'') @
     [Lit ''</div></section><div class="decision-grid">''] @
     concat (map decision_card (arch_decisions rt)) @
     [Lit ''</div><div class="arch-note">Independent demo inspired by public <a '',
      Lit ''href="https://clearchanneloutdoor.com/programmatic-advertising/" target="_blank" '',
      Lit ''rel="noreferrer">Clear Channel Outdoor programmatic material</a>'', Lit '' and <a '',
      Lit ''href="https://www.vistarmedia.com/news/clear-channel-outdoor-selects-vistar-media-as-doo'',
      Lit ''h-technology-partner" target="_blank" rel="noreferrer">'',
      Lit ''the CCO/Vistar partnership announcement</a>'',
      Lit ''. Campaigns, costs and screen inventory are synthetic. Playback evidence is not a '',
      Lit ''measured audience impression or attribution claim.</div>'']\<close>

definition detail_text :: "browser \<Rightarrow> delivery \<times> reservation option \<Rightarrow> html" where
  \<open>detail_text br x =
     (let (d, r) = x; p = dlv_receipt d; st = dlv_status d in
     [Lit ''<div class="dialog-eyebrow">DELIVERY / '', Val (esc (Some (take 12 (dlv_id d)))),
      Lit ''</div><h2>'',
      Lit (if st = Settled then ''A play, accounted for.'' else if st = Duplicate then ''Same play. No second charge.''
       else if st = Accepted then ''Durable. Awaiting a decision.'' else ''Evidence that needs attention.''),
      Lit ''</h2>''] @
     badge (status_name st) @
     [Lit ''<dl class="detail-grid"><div><dt>DECISION</dt><dd>'',
      Val (esc (Some (title (if dlv_reason d \<noteq> [] then dlv_reason d else ''Waiting for consumer'')))),
      Lit ''</dd></div><div><dt>RESERVATION PRICE</dt><dd>'',
      Val (case r of None \<Rightarrow> ''Outside latest reservation window'' | Some x \<Rightarrow> money (rsv_cost x)),
      Lit ''</dd></div><div><dt>SCREEN</dt><dd>'', Val (esc (Some (rcp_screen p))),
      Lit ''</dd></div><div><dt>PROCESSING ATTEMPTS</dt><dd>'', Val (dec (dlv_attempts d)),
      Lit ''</dd></div></dl><div class="code-block">'', Val (esc (Some (br_json br (P_receipt p)))),
      Lit ''</div><div class="dialog-actions">''] @
     (if needs_recovery d then [Lit ''<button class="button primary" data-replay="'', Val (dlv_id d), Lit ''">'', Glyph 0x21BB,
      Lit '' Replay original receipt</button>''] else []) @
     [Lit ''</div><p>'',
      Lit (if st = Duplicate then ''The reservation already settled. A different message ID cannot create another financial effect.''
       else if st = Quarantined then ''Replaying preserves the original payload. Resolve the underlying cause first; unsupported schemas are rejected again.''
       else ''The reservation price comes from the server, never from the playback receipt.''),
      Lit ''</p>''])\<close>

definition reserve_dialog :: "snapshot \<Rightarrow> html" where
  \<open>reserve_dialog sn =
     [Lit ''<div class="dialog-eyebrow">CAMPAIGN OPERATIONS</div><h2>Reserve a play.</h2>'',
      Lit ''<form id="reserve-form"><label>Campaign<select name="campaign">''] @
     concat (map (\<lambda>c. [Lit ''<option value="'', Val (cmp_id c), Lit ''">'', Val (esc (Some (cmp_name c))), Lit ''</option>'']) (snp_campaigns sn)) @
     [Lit ''</select></label><label>Screen<select name="screen">''] @
     concat (map (\<lambda>v. [Lit ''<option value="'', Val (scr_id v), Lit ''">'', Val (esc (Some (scr_name v))), Lit ''</option>'']) (snp_screens sn)) @
     [Lit ''</select></label><label>Price in USD<input name="price" value="1.50" '',
      Lit ''inputmode="decimal" pattern="[0-9]+([.][0-9]{1,2})?" required></label>'',
      Lit ''<p id="reserve-error" class="form-error" role="alert"></p>'',
      Lit ''<button class="button primary" type="submit">Reserve budget '', Glyph 0x2192,
      Lit ''</button></form><p>The hold expires 15 minutes from now, followed by a 15-minute '',
      Lit ''receipt grace period.</p>'']\<close>

definition screen_dialog :: "snapshot \<Rightarrow> screen \<Rightarrow> html" where
  \<open>screen_dialog sn v =
     (let ds = filter (\<lambda>d. rcp_screen (dlv_receipt d) = scr_id v) (snp_deliveries sn) in
     [Lit ''<div class="dialog-eyebrow">SYNTHETIC SCREEN / '', Val (scr_id v), Lit ''</div><h2>'',
      Val (esc (Some (scr_name v))), Lit ''</h2><p>'', Val (esc (Some (scr_market v))), Lit '' '', Glyph 0xB7,
      Lit '' '', Val (esc (Some (scr_format v))),
      Lit ''<br>Illustrative inventory. Not a real CCO screen identifier.</p>'',
      Lit ''<dl class="detail-grid"><div><dt>RECENT RECEIPTS</dt><dd>'', Val (dec (length ds)),
      Lit ''</dd></div><div><dt>RECENT SETTLED PLAYS</dt><dd>'',
      Val (dec (length (filter (\<lambda>d. dlv_status d = Settled) ds))),
      Lit ''</dd></div></dl><p>Counts reflect this screen within the newest 100 receipts.</p>''])\<close>

subsection \<open>Every view is whole\<close>

text \<open>
  What the views rely on: identifiers, which they insert without escaping, and what the browser
  prints have no markup characters.
\<close>

definition plain_ids :: "snapshot \<Rightarrow> bool" where
  "plain_ids sn \<longleftrightarrow> list_all (\<lambda>c. inert (cmp_id c)) (snp_campaigns sn) \<and> list_all (\<lambda>v. inert (scr_id v)) (snp_screens sn) \<and>
     list_all (\<lambda>r. inert (rsv_id r)) (snp_reservations sn) \<and> list_all (\<lambda>d. inert (dlv_id d)) (snp_deliveries sn) \<and>
     list_all (\<lambda>a. inert (aud_resource a)) (snp_audit sn)"

definition plain_browser :: "browser \<Rightarrow> bool" where
  "plain_browser br \<longleftrightarrow> (\<forall>n. inert (br_time br n)) \<and> (\<forall>a b. inert (br_percent br a b)) \<and> inert (br_outline br) \<and>
     (\<forall>v. inert (br_dot br v)) \<and> (\<forall>v w. inert (fst (br_bend br v w)) \<and> inert (snd (br_bend br v w)))"

lemma plain_browserD [simp]:
  assumes "plain_browser br"
  shows "inert (br_time br n)" "inert (br_percent br a b)" "inert (br_outline br)" "inert (br_dot br v)"
    "inert (fst (br_bend br v w))" "inert (snd (br_bend br v w))"
  using assms by (simp_all add: plain_browser_def)

lemma read_badge [simp]:
  "read_html (badge st) (Outside, els) = Some (Outside, els)"
  by (simp add: badge_def)

lemma read_button [simp]:
  "(\<And>els. read_html label (Outside, els) = Some (Outside, els)) \<Longrightarrow> inert action \<Longrightarrow> read_html (button label action primary) (Outside, els) = Some (Outside, els)"
  by (simp add: button_def)

lemma read_heading [simp]:
  "(\<And>els. read_html n (Outside, els) = Some (Outside, els)) \<Longrightarrow> (\<And>els. read_html d (Outside, els) = Some (Outside, els)) \<Longrightarrow> (\<And>els. read_html a (Outside, els) = Some (Outside, els)) \<Longrightarrow> (\<And>els. read_html e (Outside, els) = Some (Outside, els)) \<Longrightarrow> read_html (heading n d a e) (Outside, els) = Some (Outside, els)"
  by (simp add: heading_def)

lemma read_progress [simp]:
  "plain_browser br \<Longrightarrow> read_html (progress br c) (Outside, els) = Some (Outside, els)"
  by (simp add: progress_def)

lemma read_metric [simp]:
  "(\<And>els. read_html l (Outside, els) = Some (Outside, els)) \<Longrightarrow> (\<And>els. read_html v (Outside, els) = Some (Outside, els)) \<Longrightarrow> (\<And>els. read_html n (Outside, els) = Some (Outside, els)) \<Longrightarrow> (\<And>els. read_html i (Outside, els) = Some (Outside, els)) \<Longrightarrow> read_html (metric l v n i amber) (Outside, els) = Some (Outside, els)"
  by (simp add: metric_def)

lemma read_metrics [simp]:
  "read_html (metrics sn) (Outside, els) = Some (Outside, els)"
  by (simp add: metrics_def)

lemma read_map_line [simp]:
  "plain_browser br \<Longrightarrow> read_html (map_line br v w) (Outside, els) = Some (Outside, els)"
  by (simp add: map_line_def)

lemma inert_map_label [simp]: "inert (scr_id v) \<Longrightarrow> inert (map_label v)"
  by (simp add: map_label_def)

lemma read_map_dot [simp]:
  "plain_browser br \<Longrightarrow> inert (scr_id v) \<Longrightarrow> read_html (map_dot br v) (Outside, els) = Some (Outside, els)"
  by (simp add: map_dot_def)

lemma read_network [simp]:
  "plain_browser br \<Longrightarrow> plain_ids sn \<Longrightarrow> read_html (network br sn) (Outside, els) = Some (Outside, els)"
  by (simp add: network_def plain_ids_def list_all_iff split: list.split)

lemma read_flow_row [simp]:
  "(\<And>els. read_html (fst r) (Outside, els) = Some (Outside, els)) \<Longrightarrow> inert (fst (snd r)) \<Longrightarrow> (\<And>els. read_html (fst (snd (snd r))) (Outside, els) = Some (Outside, els)) \<Longrightarrow> read_html (flow_row p r) (Outside, els) = Some (Outside, els)"
  by (simp add: flow_row_def)

lemma read_flow [simp]:
  "read_html (flow sn rt) (Outside, els) = Some (Outside, els)"
  by (simp add: flow_def Let_def)

lemma read_campaign_tr [simp]:
  "plain_browser br \<Longrightarrow> read_html (campaign_tr br x) (Outside, els) = Some (Outside, els)"
  by (simp add: campaign_tr_def Let_def split: prod.split)

lemma read_campaigns_table [simp]:
  "plain_browser br \<Longrightarrow> read_html (campaigns_table br sn) (Outside, els) = Some (Outside, els)"
  by (simp add: campaigns_table_def)

lemma read_ledger_tr [simp]:
  "plain_browser br \<Longrightarrow> inert (dlv_id d) \<Longrightarrow> read_html (ledger_tr br brief d) (Outside, els) = Some (Outside, els)"
  by (simp add: ledger_tr_def Let_def)

lemma read_ledger_table [simp]:
  "plain_browser br \<Longrightarrow> (\<And>d. d \<in> set ds \<Longrightarrow> inert (dlv_id d)) \<Longrightarrow> read_html (ledger_table br act flt srch ds brief) (Outside, els) = Some (Outside, els)"
  by (simp add: ledger_table_def)

lemma plain_idsD:
  assumes "plain_ids sn"
  shows "c \<in> set (snp_campaigns sn) \<Longrightarrow> inert (cmp_id c)" "v \<in> set (snp_screens sn) \<Longrightarrow> inert (scr_id v)"
    "r \<in> set (snp_reservations sn) \<Longrightarrow> inert (rsv_id r)" "d \<in> set (snp_deliveries sn) \<Longrightarrow> inert (dlv_id d)"
    "a \<in> set (snp_audit sn) \<Longrightarrow> inert (aud_resource a)"
  using assms by (simp_all add: plain_ids_def list_all_iff)

lemma plain_take: "plain_ids sn \<Longrightarrow> d \<in> set (take n (snp_deliveries sn)) \<Longrightarrow> inert (dlv_id d)"
  by (meson in_set_takeD plain_idsD(4))

lemma read_recent [simp]:
  "plain_browser br \<Longrightarrow> plain_ids sn \<Longrightarrow> read_html (recent br s sn) (Outside, els) = Some (Outside, els)"
  by (simp add: recent_def plain_take)

lemma read_balance_card [simp]:
  "plain_browser br \<Longrightarrow> read_html (balance_card br c) (Outside, els) = Some (Outside, els)"
  by (simp add: balance_card_def)

lemma read_reservation_tr [simp]:
  "inert (rsv_id r) \<Longrightarrow> read_html (reservation_tr r) (Outside, els) = Some (Outside, els)"
  by (simp add: reservation_tr_def)

lemma read_campaigns [simp]:
  "plain_browser br \<Longrightarrow> plain_ids sn \<Longrightarrow> read_html (campaigns br sn) (Outside, els) = Some (Outside, els)"
  by (simp add: campaigns_def delivery_intelligence_def plain_idsD(3))

lemma shown_inert:
  assumes "plain_ids sn" and "snap s = Some sn" and "d \<in> set (page_rows (deliveries_shown collate s) p)"
  shows "inert (dlv_id d)"
proof -
  have "d \<in> set (deliveries_shown collate s)"
    using assms(3) by (auto simp: page_rows_def array_slice_def dest: in_set_takeD in_set_dropD)
  then show ?thesis using plain_idsD(4) [OF assms(1), of d] assms(2) by (simp add: deliveries_shown_def filtered_def)
qed

lemma read_ledger_rows [simp]:
  "plain_browser br \<Longrightarrow> plain_ids sn \<Longrightarrow> snap s = Some sn \<Longrightarrow> read_html (ledger_rows br collate s) (Outside, els) = Some (Outside, els)"
  by (simp add: ledger_rows_def Let_def ledger_results_def shown_inert)

lemma read_filter_button [simp]:
  "inert v \<Longrightarrow> inert (title v) \<Longrightarrow> read_html (filter_button act flt ds v) (Outside, els) = Some (Outside, els)"
  by (simp add: filter_button_def)

lemma filter_options_inert: "v \<in> set (filter_options act) \<Longrightarrow> inert v"
  by (auto simp: filter_options_def split: if_splits)

lemma read_ledger [simp]:
  "plain_browser br \<Longrightarrow> plain_ids sn \<Longrightarrow> snap s = Some sn \<Longrightarrow> read_html (ledger br collate s sn) (Outside, els) = Some (Outside, els)"
  by (cases "active s = ''recovery''") (simp_all add: ledger_def Let_def delivery_intelligence_def filter_options_inert)

lemma read_lab_card [simp]:
  "inert (fst x) \<Longrightarrow> inert (fst (snd x)) \<Longrightarrow> inert (fst (snd (snd x))) \<Longrightarrow> inert (fst (snd (snd (snd x)))) \<Longrightarrow> inert (snd (snd (snd (snd x)))) \<Longrightarrow> read_html (lab_card x) (Outside, els) = Some (Outside, els)"
  by (cases x) (simp add: lab_card_def)

lemma read_audit_item [simp]:
  "plain_browser br \<Longrightarrow> inert (aud_resource a) \<Longrightarrow> read_html (audit_item br a) (Outside, els) = Some (Outside, els)"
  by (simp add: audit_item_def)

lemma read_lab [simp]:
  "plain_browser br \<Longrightarrow> plain_ids sn \<Longrightarrow> read_html (lab br sn rt) (Outside, els) = Some (Outside, els)"
  by (simp add: lab_def lab_scenarios_def plain_idsD(5))

lemma read_decision_card [simp]:
  "(\<And>els. read_html (fst d) (Outside, els) = Some (Outside, els)) \<Longrightarrow> (\<And>els. read_html (snd d) (Outside, els) = Some (Outside, els)) \<Longrightarrow> read_html (decision_card d) (Outside, els) = Some (Outside, els)"
  by (simp add: decision_card_def)

lemma read_arch_node [simp]:
  "inert (fst x) \<Longrightarrow> inert (snd x) \<Longrightarrow> read_html (arch_node f x) (Outside, els) = Some (Outside, els)"
  by (simp add: arch_node_def)

lemma read_architecture [simp]:
  "read_html (architecture rt) (Outside, els) = Some (Outside, els)"
  by (simp add: architecture_def arch_decisions_def)

lemma read_detail_text [simp]:
  "inert (dlv_id (fst x)) \<Longrightarrow> read_html (detail_text br x) (Outside, els) = Some (Outside, els)"
  by (cases x; cases "snd x") (simp_all add: detail_text_def Let_def)

lemma read_reserve_dialog [simp]:
  "plain_ids sn \<Longrightarrow> read_html (reserve_dialog sn) (Outside, els) = Some (Outside, els)"
  by (simp add: reserve_dialog_def plain_idsD(1,2))

lemma read_screen_dialog [simp]:
  "inert (scr_id v) \<Longrightarrow> read_html (screen_dialog sn v) (Outside, els) = Some (Outside, els)"
  by (simp add: screen_dialog_def Let_def)

end
