(* ===== verification/Navigation.thy ===== *)
theory Navigation
  imports Console
begin

text \<open>
  \<open>internal/console/web/navigation.js\<close>: the page finder. A table of the console's pages, the search
  over it, the dialog with its field and links, and the keys that move between them. The symbols
  beside the names are their UTF-8 bytes, so that a search sees the same text.
\<close>

subsection \<open>State and operations\<close>

datatype nav_focus = OnInput | OnLink nat | Elsewhere

record nav_page = console +
  nav_open :: bool
  nav_input :: string
  nav_focus :: nav_focus

definition utf8 :: "nat list \<Rightarrow> string" where
  "utf8 bs = map char_of bs"

definition pages :: "(string \<times> string \<times> string \<times> string) list" where
  "pages = [
     (''foot-traffic'', utf8 [226, 151, 136], ''Foot traffic'', ''Aggregate observation windows, coverage and comparisons''),
     (''assurance'', utf8 [226, 156, 147], ''Campaign assurance'', ''Full-history delivery and budget reconciliation''),
     (''overview'', utf8 [226, 151, 171], ''Overview'', ''Campaign performance and delivery health''),
     (''campaigns'', utf8 [226, 150, 164], ''Campaigns'', ''Budgets, reservations and playback''),
     (''intake'', utf8 [226, 135, 132], ''Partner intake'', ''Submit and inspect playback batches''),
     (''ledger'', utf8 [226, 137, 139], ''Delivery ledger'', ''Search receipts and settlement decisions''),
     (''recovery'', utf8 [226, 134, 187], ''Recovery queue'', ''Inspect failures and quarantined evidence''),
     (''proof'', utf8 [226, 151, 142], ''Live proof'', ''Verify the integration from end to end''),
     (''lab'', utf8 [226, 140, 152], ''Failure lab'', ''Exercise controlled faults and recovery''),
     (''architecture'', utf8 [226, 151, 135], ''Architecture'', ''Understand guarantees and system design'')]"

definition page_text :: "string \<times> string \<times> string \<times> string \<Rightarrow> string" where
  "page_text p = (case p of (i, icon, name, about) \<Rightarrow>
     i @ '' '' @ icon @ '' '' @ name @ '' '' @ about)"

text \<open>The links that \<open>results\<close> shows for a query, by the page they lead to.\<close>

definition nav_results :: "string \<Rightarrow> string list" where
  "nav_results q = map fst (filter (\<lambda>p. text_includes (to_lower (page_text p)) (trim (to_lower q))) pages)"

definition open_navigation :: "'a nav_page_scheme \<Rightarrow> 'a nav_page_scheme" where
  "open_navigation s =
     (if dialog_open s \<or> nav_open s then s
      else s\<lparr>nav_input := [], nav_open := True, nav_focus := OnInput\<rparr>)"

definition close_navigation :: "'a nav_page_scheme \<Rightarrow> 'a nav_page_scheme" where
  "close_navigation s = s\<lparr>nav_open := False, nav_focus := Elsewhere\<rparr>"

text \<open>Typing draws the results again; the field keeps the focus.\<close>

definition nav_type :: "string \<Rightarrow> 'a nav_page_scheme \<Rightarrow> 'a nav_page_scheme" where
  "nav_type v s = s\<lparr>nav_input := v, nav_focus := OnInput\<rparr>"

text \<open>A click on a link closes the dialog and the browser follows it.\<close>

definition nav_follow :: "string comparator \<Rightarrow> nat \<Rightarrow> 'a nav_page_scheme \<Rightarrow> 'a nav_page_scheme" where
  "nav_follow collate i s =
     (case array_at (nav_results (nav_input s)) i of
        None \<Rightarrow> s
      | Some h \<Rightarrow> hash_change collate h (close_navigation s))"

text \<open>\<open>links.indexOf(document.activeElement)\<close>.\<close>

fun focus_index :: "nav_focus \<Rightarrow> int" where
  "focus_index (OnLink i) = int i"
| "focus_index _ = -1"

definition arrow_target :: "bool \<Rightarrow> int \<Rightarrow> nat \<Rightarrow> nat" where
  "arrow_target down i n = nat ((i + (if down then 1 else int n - 1) + int n) mod int n)"

definition nav_arrow :: "bool \<Rightarrow> 'a nav_page_scheme \<Rightarrow> 'a nav_page_scheme" where
  "nav_arrow down s =
     (let n = length (nav_results (nav_input s)) in
      if n = 0 then s else s\<lparr>nav_focus := OnLink (arrow_target down (focus_index (nav_focus s)) n)\<rparr>)"

definition nav_enter :: "string comparator \<Rightarrow> 'a nav_page_scheme \<Rightarrow> 'a nav_page_scheme" where
  "nav_enter collate s =
     (if nav_focus s = OnInput \<and> nav_results (nav_input s) \<noteq> [] then nav_follow collate 0 s
      else case nav_focus s of OnLink i \<Rightarrow> nav_follow collate i s | _ \<Rightarrow> s)"

text \<open>The keyboard shortcut: control or command with K.\<close>

definition nav_shortcut :: "bool \<Rightarrow> string \<Rightarrow> 'a nav_page_scheme \<Rightarrow> 'a nav_page_scheme" where
  "nav_shortcut modifier k s = (if modifier \<and> to_lower k = ''k'' then open_navigation s else s)"

definition fresh_nav :: nav_page where
  "fresh_nav = console.extend fresh_console \<lparr>nav_open = False, nav_input = [], nav_focus = Elsewhere\<rparr>"

lemmas fresh_nav_simps = fresh_nav_def console.defs fresh_console_simps

subsection \<open>The finder and the routes\<close>

text \<open>
  The finder offers every view of the console exactly once when the search field is empty,
  and nothing but views for any search.
\<close>

theorem finder_covers_views:
  "mset (nav_results []) = mset views \<and> set (nav_results q) \<subseteq> set views"
proof
  have "nav_results [] = map fst pages"
    by (simp add: nav_results_def to_lower_def trim_def)
  then show "mset (nav_results []) = mset views"
    by (simp add: pages_def views_def)
  show "set (nav_results q) \<subseteq> set views"
    by (auto simp: nav_results_def pages_def views_def)
qed

lemma results_are_views: "set (nav_results q) \<subseteq> set views"
  by (auto simp: nav_results_def pages_def views_def)

text \<open>
  Choosing a link of the finder, or pressing Enter in the field for the first one, shows that
  page: the finder closes, the route and the drawn view are the page's, and the ledger's search
  and filter are reset.
\<close>

theorem follow_shows_page:
  assumes "snap s \<noteq> None" and "focused s \<notin> {''ledger-search'', ''ledger-sort''}"
    and "i < length (nav_results (nav_input s))"
  shows "let h = nav_results (nav_input s) ! i; s' = nav_follow collate i s in
    \<not> nav_open s' \<and> active s' = h \<and> main_view s' = h \<and> search s' = [] \<and> filt s' = ''all'' \<and>
    (nav_focus s = OnInput \<and> i = 0 \<longrightarrow> nav_enter collate s = s')"
proof -
  let ?h = "nav_results (nav_input s) ! i"
  let ?s1 = "(close_navigation s)\<lparr>hash := ?h, search := [], filt := ''all'', ledger_page := 0\<rparr>"
  have "?h \<in> set views" using assms(3) results_are_views nth_mem by blast
  then have "route ?s1 = ?h" by (simp add: route_def)
  moreover have "nav_follow collate i s = render collate ?s1"
    using assms(3) by (simp add: nav_follow_def array_at_def hash_change_def)
  moreover have "snap ?s1 \<noteq> None" "focused ?s1 \<notin> {''ledger-search'', ''ledger-sort''}"
    using assms(1,2) by (simp_all add: close_navigation_def)
  note shown = render_shows [OF this]
  moreover have "\<not> nav_open (render collate ?s1)"
    by (subst render_form) (simp add: close_navigation_def)
  moreover have "nav_focus s = OnInput \<and> i = 0 \<longrightarrow> nav_enter collate s = nav_follow collate i s"
    using assms(3) by (auto simp: nav_enter_def)
  ultimately show ?thesis by (auto simp: Let_def)
qed

definition loaded_nav :: nav_page where
  "loaded_nav = fresh_nav\<lparr>snap := Some \<lparr>snp_campaigns = [], snp_screens = [], snp_reservations = [],
     snp_deliveries = [], snp_audit = [], snp_counts = (\<lambda>_. 0), snp_now = 0\<rparr>,
     nav_open := True, nav_focus := OnInput\<rparr>"

theorem follow_shows_page_witness:
  "let s' = nav_follow flat 7 loaded_nav in \<not> nav_open s' \<and> active s' = ''proof''"
proof -
  have "nav_results (nav_input loaded_nav) = map fst pages"
    by (simp add: nav_results_def to_lower_def trim_def loaded_nav_def fresh_nav_simps)
  moreover have "map fst pages ! 7 = ''proof''" and "7 < length (map fst pages)"
    by (simp_all add: pages_def)
  moreover have "snap loaded_nav \<noteq> None" "focused loaded_nav \<notin> {''ledger-search'', ''ledger-sort''}"
    by (simp_all add: loaded_nav_def fresh_nav_simps)
  ultimately show ?thesis
    using follow_shows_page [of loaded_nav 7 flat] by (simp add: Let_def)
qed

subsection \<open>The arrow keys\<close>

text \<open>
  The arrow keys cycle through the results: from a link they move to the next and to the
  previous one around the end of the list, each undoes the other, and the down key enters the list
  at its first link.
\<close>

theorem arrows_cycle:
  assumes "i < n"
  shows "arrow_target True (int i) n = (if Suc i = n then 0 else Suc i) \<and>
    arrow_target False (int i) n = (if i = 0 then n - 1 else i - 1) \<and>
    arrow_target False (int (arrow_target True (int i) n)) n = i \<and>
    arrow_target True (focus_index OnInput) n = 0"
proof -
  have down: "arrow_target True (int j) n = (if Suc j = n then 0 else Suc j)" if "j < n" for j
  proof (cases "Suc j = n")
    case True
    then have "int j + 1 = int n" by simp
    then have "(int j + 1 + int n) mod int n = 0" by simp
    with True show ?thesis by (simp add: arrow_target_def)
  next
    case False
    with that have "(int j + 1 + int n) mod int n = int j + 1" by simp
    with False show ?thesis by (simp add: arrow_target_def)
  qed
  have up: "arrow_target False (int j) n = (if j = 0 then n - 1 else j - 1)" if "j < n" for j
  proof (cases j)
    case 0
    have "(int n - 1 + int n) mod int n = (int n - 1) mod int n" by (rule mod_add_self2)
    also have "\<dots> = int n - 1" using that 0 by (intro mod_pos_pos_trivial) auto
    finally have "(int n - 1 + int n) mod int n = int n - 1" .
    with 0 that show ?thesis by (simp add: arrow_target_def nat_diff_distrib)
  next
    case (Suc k)
    have "(int j + (int n - 1) + int n) mod int n = (int k + 2 * int n) mod int n"
      using Suc by (simp add: algebra_simps)
    also have "\<dots> = int k" using Suc that by (simp add: mod_simps)
    finally show ?thesis using Suc by (simp add: arrow_target_def)
  qed
  have "arrow_target True (focus_index OnInput) n = 0" by (simp add: arrow_target_def)
  then show ?thesis using down [OF assms] up [OF assms] up [of "Suc i"] up [of 0] assms by auto
qed

theorem arrows_cycle_witness:
  "arrow_target True 9 10 = 0 \<and> arrow_target False 0 10 = 9"
  using arrows_cycle [of 9 10] arrows_cycle [of 0 10] by simp

text \<open>
  The up key in the search field does not wrap to the last result: with two or more results it
  focuses the one before the last.
\<close>

theorem arrow_up_from_field:
  assumes "2 \<le> length (nav_results (nav_input s))" and "nav_focus s = OnInput"
  shows "nav_focus (nav_arrow False s) = OnLink (length (nav_results (nav_input s)) - 2)"
proof -
  define n where "n = length (nav_results (nav_input s))"
  have "(-1 + (int n - 1) + int n) mod int n = (int n - 2 + int n) mod int n" by (simp add: algebra_simps)
  also have "\<dots> = (int n - 2) mod int n" by (rule mod_add_self2)
  also have "\<dots> = int n - 2" using assms(1) by (intro mod_pos_pos_trivial) (simp_all add: n_def)
  finally have "arrow_target False (focus_index OnInput) n = n - 2"
    by (simp add: arrow_target_def nat_diff_distrib)
  with assms show ?thesis by (auto simp: nav_arrow_def Let_def n_def)
qed

theorem arrow_up_from_field_witness: "nav_focus (nav_arrow False loaded_nav) = OnLink 8"
proof -
  have "nav_results (nav_input loaded_nav) = map fst pages"
    by (simp add: nav_results_def to_lower_def trim_def loaded_nav_def fresh_nav_simps)
  moreover have "length pages = 10" by (simp add: pages_def)
  moreover have "nav_focus loaded_nav = OnInput" by (simp add: loaded_nav_def)
  ultimately show ?thesis using arrow_up_from_field [of loaded_nav] by simp
qed

end
