(* ===== verification/Assurance.thy ===== *)
theory Assurance
  imports Navigation
begin

text \<open>
  \<open>internal/console/web/assurance.js\<close>: the campaign assurance page. A report is fetched for the
  selected campaign whenever the selection changes or a refresh is asked for; several fetches may
  be under way at once and a counter lets only the latest one write the page.
\<close>

subsection \<open>State and operations\<close>

record assure_page = nav_page +
  as_selected :: string
  as_report :: "payload option"
  as_loading :: bool
  as_error :: string
  as_generation :: nat

definition assurance_request :: "string \<Rightarrow> http_request" where
  "assurance_request c = get_request (''/api/v1/campaigns/'' @ encode_uri c @ ''/assurance'')"

text \<open>The guarded assignments of one fetch: only the latest ticket may write.\<close>

definition if_latest ::
  "nat \<Rightarrow> ('a assure_page_scheme \<Rightarrow> 'a assure_page_scheme) \<Rightarrow> 'a assure_page_scheme \<Rightarrow> 'a assure_page_scheme"
  where "if_latest ticket f s = (if ticket = as_generation s then f s else s)"

definition fetch_report :: "('a assure_page_scheme, unit) prog" where
  "fetch_report s =
     (if as_selected s = [] then Return s ()
      else let ticket = Suc (as_generation s) in
        try_finally
          (try_catch
            (bind (request (assurance_request (as_selected s))) (\<lambda>data.
               modify (if_latest ticket (\<lambda>s1. s1\<lparr>as_report := Some data\<rparr>))))
            (\<lambda>e. modify (if_latest ticket (\<lambda>s1. s1\<lparr>as_error := err_message e\<rparr>))))
          (if_latest ticket (\<lambda>s1. s1\<lparr>as_loading := False\<rparr>))
          (s\<lparr>as_generation := ticket, as_loading := True, as_error := [], as_report := None\<rparr>))"

text \<open>\<open>render\<close> chooses the first campaign when none is; it may queue a fetch as a microtask.\<close>

definition assurance_render :: "('a assure_page_scheme, unit) prog" where
  "assurance_render s =
     (if as_selected s = []
      then Return (s\<lparr>as_selected :=
             (case snap s of Some sn \<Rightarrow> (case snp_campaigns sn of c # _ \<Rightarrow> cmp_id c | [] \<Rightarrow> [])
              | None \<Rightarrow> [])\<rparr>) ()
      else Return s ())"

definition wants_fetch :: "'a assure_page_scheme \<Rightarrow> bool" where
  "wants_fetch s \<longleftrightarrow> as_report s = None \<and> \<not> as_loading s \<and> as_error s = []"

definition campaign_change :: "string \<Rightarrow> ('a assure_page_scheme, unit) prog" where
  "campaign_change v s = fetch_report (s\<lparr>as_selected := v\<rparr>)"

definition export_enabled :: "'a assure_page_scheme \<Rightarrow> bool" where
  "export_enabled s \<longleftrightarrow> as_report s \<noteq> None \<and> \<not> as_loading s \<and> as_error s = []"

text \<open>
  The handlers of the page: drawing it, the microtask and the refresh button (both
  \<open>fetch_report\<close>), and a change of the selection, whose values are campaign identifiers.
\<close>

definition assurance_handlers :: "('a assure_page_scheme, unit) prog set" where
  "assurance_handlers = {assurance_render, fetch_report} \<union> campaign_change ` {v. v \<noteq> []}"

text \<open>The follow-up advice: heading, text and the view it links to.\<close>

definition recommendations :: "assurance \<Rightarrow> (string \<times> string \<times> string) list" where
  "recommendations r =
     (let items =
        (if \<not> asr_budget_consistent r
         then [(''Budget mismatch'',
           ''Campaign balances disagree with reservation totals. Investigate before treating this report as financially reconciled.'',
           ''campaigns'')] else []) @
        (if asr_awaiting r \<noteq> 0
         then [(''Follow up on missing valid playback'', num (asr_awaiting r) @
           '' held plays are past their play window. Valid evidence may still arrive during the receipt grace period; expired holds are released by the worker.'',
           ''ledger'')] else []) @
        (if asr_decisions r Quarantined \<noteq> 0
         then [(''Review partner evidence'', num (asr_decisions r Quarantined) @
           '' linked receipts are quarantined. Inspect their reasons; corrected content requires a new event identity. Historical quarantines remain even after a correction settles.'',
           ''recovery'')] else []) @
        (if asr_decisions r Failed \<noteq> 0
         then [(''Recover processing failures'', num (asr_decisions r Failed) @
           '' linked receipts exhausted dispatch retries. Resolve the operational cause before replaying.'',
           ''recovery'')] else []) @
        (if asr_decisions r Accepted \<noteq> 0
         then [(''Watch processing progress'', num (asr_decisions r Accepted) @
           '' receipts are durable but not yet reconciled. Acceptance is not a settlement.'',
           ''ledger'')] else [])
      in if items = []
         then [(''No exceptions in this report'',
           ''The observed balances agree and no linked receipt exceptions or overdue held plays were found. This is an operational check, not a campaign performance forecast.'',
           ''campaigns'')]
         else items)"

text \<open>The number of exceptions shown beside a screen.\<close>

definition screen_exceptions :: "screen_assurance \<Rightarrow> int" where
  "screen_exceptions v = sas_decisions v Quarantined + sas_decisions v Failed"

subsection \<open>The latest ticket wins\<close>

definition later :: "'a assure_page_scheme \<Rightarrow> 'a assure_page_scheme \<Rightarrow> bool" where
  "later s s' \<longleftrightarrow> as_generation s \<le> as_generation s' \<and>
     (as_generation s = as_generation s' \<longrightarrow> as_selected s = as_selected s' \<or> as_selected s = [])"

text \<open>What is shown answers the request for the selected campaign.\<close>

definition matching :: "(awaiting \<Rightarrow> reply \<Rightarrow> bool) \<Rightarrow> 'a assure_page_scheme \<Rightarrow> bool" where
  "matching ans s \<longleftrightarrow> (\<forall>p. as_report s = Some p \<longrightarrow>
     as_selected s \<noteq> [] \<and> ans (ReadBody (assurance_request (as_selected s))) (Body p))"

text \<open>The rest of the console: it does not write the variables of this page.\<close>

definition assurance_env :: "'a assure_page_scheme \<Rightarrow> 'a assure_page_scheme \<Rightarrow> bool" where
  "assurance_env s s' \<longleftrightarrow> as_selected s' = as_selected s \<and> as_report s' = as_report s \<and>
     as_loading s' = as_loading s \<and> as_error s' = as_error s \<and> as_generation s' = as_generation s"

lemma later_trans: "transp later"
  by (rule transpI) (auto simp: later_def)

lemma assure_frame [simp]:
  fixes s :: "'a assure_page_scheme"
  shows "as_selected (remember n s) = as_selected s" "as_report (remember n s) = as_report s"
    "as_generation (remember n s) = as_generation s"
    "as_selected (reload n b s) = as_selected s" "as_report (reload n b s) = as_report s"
    "as_generation (reload n b s) = as_generation s"
  by (simp_all add: remember_def set_item_def reload_def clear_def remove_item_def set_local_def
      run_keys_def Let_def)

interpretation assured: session_client later "matching ans" ans for ans
  by unfold_locales (auto simp: later_trans, auto simp: later_def matching_def)

lemma rg_fetch_report:
  assumes "as_selected s \<noteq> []" and "as_generation p \<le> as_generation s"
  shows "rg later (matching ans) ans (\<lambda>_ _. True) (\<lambda>_ _. True) p (fetch_report s)"
proof -
  let ?t = "Suc (as_generation s)"
  let ?s1 = "s\<lparr>as_generation := ?t, as_loading := True, as_error := [], as_report := None\<rparr>"
  have start: "later p ?s1" "matching ans ?s1" using assms(2) by (simp_all add: later_def matching_def)
  have "rg later (matching ans) ans (\<lambda>_ _. True) (\<lambda>_ _. True) ?s1
     (try_finally
       (try_catch
         (bind (request (assurance_request (as_selected s))) (\<lambda>data.
            modify (if_latest ?t (\<lambda>s1. s1\<lparr>as_report := Some data\<rparr>))))
         (\<lambda>e. modify (if_latest ?t (\<lambda>s1. s1\<lparr>as_error := err_message e\<rparr>))))
       (if_latest ?t (\<lambda>s1. s1\<lparr>as_loading := False\<rparr>)) ?s1)"
    by (intro rg_finallyI rg_catchI rg_bindI later_trans assured.rg_request start(2))
       (use assms(1) in \<open>auto simp: modify_def if_latest_def later_def matching_def\<close>)
  from rg_pre [OF later_trans start(1) this] assms(1) show ?thesis
    by (simp add: fetch_report_def Let_def)
qed

lemma rg_assurance_handlers:
  assumes "h \<in> assurance_handlers" and "matching ans s"
  shows "rg later (matching ans) ans (\<lambda>_ _. True) (\<lambda>_ _. True) s (h s)"
proof -
  consider "h = assurance_render" | "h = fetch_report" | v where "v \<noteq> []" "h = campaign_change v"
    using assms(1) by (auto simp: assurance_handlers_def)
  then show ?thesis
  proof cases
    case 1
    with assms(2) show ?thesis
      by (auto simp: assurance_render_def later_def matching_def)
  next
    case 2
    with assms(2) show ?thesis
      by (cases "as_selected s = []")
         (simp_all add: rg_fetch_report, simp add: fetch_report_def later_def)
  next
    case 3
    then show ?thesis by (simp add: campaign_change_def rg_fetch_report)
  qed
qed

interpretation assured_loop: cooperative assurance_handlers assurance_env ans later "matching ans" for ans
  by unfold_locales
     (auto simp: later_trans rg_assurance_handlers, auto simp: later_def matching_def assurance_env_def)

definition fresh_assure :: assure_page where
  "fresh_assure = nav_page.extend fresh_nav \<lparr>as_selected = [], as_report = None, as_loading = False,
     as_error = [], as_generation = 0\<rparr>"

lemmas fresh_assure_simps = fresh_assure_def nav_page.defs fresh_nav_simps

subsection \<open>Properties of the assurance page\<close>

text \<open>
  C13. A report is never shown for another campaign: in every order of selections, refreshes and
  replies, with several requests under way at once, the report on the page answers the request for
  the campaign that is selected now.
\<close>

theorem report_matches_selection:
  assumes "as_report s0 = None"
    and "\<And>c p. ans (ReadBody (assurance_request c)) (Body p) \<Longrightarrow>
           \<exists>a. p = P_assurance a \<and> cmp_id (asr_campaign a) = c"
    and "reaches assurance_handlers assurance_env ans s0 (s, ts)"
    and "as_report s = Some p"
  shows "\<exists>a. p = P_assurance a \<and> cmp_id (asr_campaign a) = as_selected s"
proof -
  have "matching ans s0" using assms(1) by (simp add: matching_def)
  from assured_loop.reaches_sound [OF this assms(3)] have "matching ans s" by simp
  with assms(2,4) show ?thesis by (auto simp: matching_def)
qed

definition example_report :: "string \<Rightarrow> assurance" where
  "example_report c = \<lparr>asr_campaign = \<lparr>cmp_id = c, cmp_name = c, cmp_budget = 0, cmp_reserved = 0,
     cmp_spent = 0\<rparr>, asr_screens = [], asr_observed = 0, asr_budget_consistent = True,
     asr_settled_plays = 0, asr_held_plays = 0, asr_awaiting = 0, asr_decisions = (\<lambda>_. 0), asr_scope = []\<rparr>"

definition plain_ok :: http_response where
  "plain_ok = \<lparr>rs_status = 200, rs_generation = None, rs_retry_after = None\<rparr>"

text \<open>A service that answers for the campaign in the path.\<close>

definition honest_reports :: "awaiting \<Rightarrow> reply \<Rightarrow> bool" where
  "honest_reports q r \<longleftrightarrow> (\<forall>rq p. q = ReadBody rq \<and> r = Body p \<longrightarrow>
     (\<exists>c. rq = assurance_request c \<and> p = P_assurance (example_report c)))"

lemma assurance_request_inj [simp]: "assurance_request a = assurance_request b \<longleftrightarrow> a = b"
  by (simp add: assurance_request_def get_request_def)

definition late_first_reply :: "assure_page event list" where
  "late_first_reply = [Begin (campaign_change ''a''), Begin (campaign_change ''b''),
     Deliver 1 (Responded plain_ok), Deliver 1 (Body (P_assurance (example_report ''b''))),
     Deliver 0 (Responded plain_ok), Deliver 0 (Body (P_assurance (example_report ''a'')))]"

lemmas run_simps = late_first_reply_def campaign_change_def fetch_report_def if_latest_def request_def
  send_def receive_def read_or_null_def read_json_def async_simps Let_def plain_ok_def ok_def

lemma late_first_reply_run:
  "events_ok assurance_handlers honest_reports late_first_reply (fresh_assure, [])"
  "as_report (fst (run_events late_first_reply (fresh_assure, []))) = Some (P_assurance (example_report ''b''))"
  "as_selected (fst (run_events late_first_reply (fresh_assure, []))) = ''b''"
  by (simp_all add: run_simps fresh_assure_simps assurance_handlers_def honest_reports_def)

theorem report_matches_selection_witness:
  "\<exists>a. as_report (fst (run_events late_first_reply (fresh_assure, []))) = Some (P_assurance a) \<and>
     cmp_id (asr_campaign a) = as_selected (fst (run_events late_first_reply (fresh_assure, [])))"
proof -
  obtain s ts where run: "run_events late_first_reply (fresh_assure, []) = (s, ts)" by fastforce
  have "reaches assurance_handlers assurance_env honest_reports fresh_assure (s, ts)"
    using run_events_reaches_start [OF late_first_reply_run(1)] run by metis
  moreover have "as_report fresh_assure = None" by (simp add: fresh_assure_simps)
  moreover have "as_report s = Some (P_assurance (example_report ''b''))"
    using late_first_reply_run(2) run by simp
  ultimately have "\<exists>a. P_assurance (example_report ''b'') = P_assurance a \<and> cmp_id (asr_campaign a) = as_selected s"
    by (intro report_matches_selection [of fresh_assure honest_reports])
       (auto simp: honest_reports_def example_report_def)
  with run late_first_reply_run(2) show ?thesis by simp
qed

text \<open>
  The advice follows the report: a reconciled report without open plays, quarantines, failures
  or pending receipts is the only one that says ``no exceptions'', and each kind of exception
  contributes exactly one card.
\<close>

theorem recommendations_follow_report:
  "let exceptions = [\<not> asr_budget_consistent r, asr_awaiting r \<noteq> 0, asr_decisions r Quarantined \<noteq> 0,
     asr_decisions r Failed \<noteq> 0, asr_decisions r Accepted \<noteq> 0] in
   (list_ex (\<lambda>b. b) exceptions \<longleftrightarrow> (\<forall>x \<in> set (recommendations r). fst x \<noteq> ''No exceptions in this report'')) \<and>
   length (recommendations r) = max 1 (length (filter (\<lambda>b. b) exceptions)) \<and>
   (\<forall>x \<in> set (recommendations r). snd (snd x) \<in> set views)"
  by (auto simp: recommendations_def Let_def views_def)

theorem recommendations_follow_report_witness:
  "length (recommendations (example_report ''a'')) = 1 \<and>
   \<not> (\<forall>x \<in> set (recommendations (example_report ''a'')). fst x \<noteq> ''No exceptions in this report'')"
  using recommendations_follow_report [of "example_report ''a''"]
  by (simp add: Let_def example_report_def)

subsection \<open>The page and the session\<close>

lemma obeys_fetch_report: "obeys same_session retired ans (fetch_report :: ('a assure_page_scheme, unit) prog)"
proof -
  have "obeys same_session retired ans
    (try_finally
      (try_catch
        (bind (request (assurance_request c)) (\<lambda>data.
           modify (if_latest n (\<lambda>s1 :: 'a assure_page_scheme. s1\<lparr>as_report := Some data\<rparr>))))
        (\<lambda>e. modify (if_latest n (\<lambda>s1. s1\<lparr>as_error := err_message e\<rparr>))))
      (if_latest n (\<lambda>s1. s1\<lparr>as_loading := False\<rparr>)))" for c n
    by (intro doc.obeys_intros beside_sessionD) (auto simp: beside_session_def if_latest_def)
  from obeys_at [OF same_session_trans this]
  show ?thesis
    by (intro obeysI) (auto simp: fetch_report_def Let_def same_session_def retired_def)
qed

lemma obeys_assurance_handlers: "h \<in> assurance_handlers \<Longrightarrow> obeys same_session retired ans h"
proof -
  have "obeys same_session retired ans (campaign_change v)" for v
    using obeys_entered [OF obeys_fetch_report, where f = "\<lambda>s. s\<lparr>as_selected := v\<rparr>"]
    by (intro obeysI) (simp add: campaign_change_def beside_session_def)
  moreover have "obeys same_session retired ans assurance_render"
    by (intro obeysI) (auto simp: assurance_render_def same_session_def retired_def)
  moreover assume "h \<in> assurance_handlers"
  ultimately show ?thesis by (auto simp: assurance_handlers_def obeys_fetch_report)
qed

end
