(* ===== verification/Intake.thy ===== *)
theory Intake
  imports Assurance
begin

text \<open>
  \<open>internal/console/web/intake.js\<close>: the partner intake page. \<open>Load example\<close> reserves a small hold
  under an idempotency key it keeps until the outcome is certain, and writes a batch of receipts
  for the chosen scenario into the request body; \<open>Send batch\<close> posts that body. The body's text is
  modelled by what \<open>JSON.parse\<close> makes of it.
\<close>

subsection \<open>State\<close>

datatype draft = Unparsable string | NoArray | Receipts "batch_item list"

text \<open>The keys of \<open>examples\<close>, the values of the options of the select.\<close>

datatype example_kind = Ex_partial | Ex_clean | Ex_duplicate | Ex_replay | Ex_schema | Ex_window

record example_plan =
  pln_key :: string
  pln_input :: reservation_input
  pln_hold :: "reservation option"

record intake_page = assure_page +
  in_price :: string
  in_price_error :: string
  in_kind :: example_kind
  in_plan :: "example_plan option"
  in_preparing :: bool
  in_draft :: draft
  in_pending :: bool
  in_result :: "batch_response option"
  in_notice :: string
  in_http :: int

text \<open>The scenarios with their names and the explanation the page shows.\<close>

fun example_of :: "example_kind \<Rightarrow> string \<times> string \<times> string" where
  "example_of Ex_partial = (''partial'', ''Partial success'', ''Two events for one play plus a malformed item. Expect HTTP 207, then one settlement and one duplicate.'')"
| "example_of Ex_clean = (''clean'', ''Valid playback'', ''One valid receipt. Expect HTTP 202, followed by settlement.'')"
| "example_of Ex_duplicate = (''duplicate'', ''Different IDs, same play'', ''Five event IDs report one reservation. Expect one settlement and four duplicates.'')"
| "example_of Ex_replay = (''replay'', ''Same event repeated'', ''The identical event appears twice. Expect the second item to replay the first receipt identity.'')"
| "example_of Ex_schema = (''schema'', ''Unsupported schema'', ''Schema v99 is accepted durably, then quarantined by the worker. No settlement.'')"
| "example_of Ex_window = (''window'', ''Outside the play window'', ''Playback predates the reservation. Expect durable acceptance, then quarantine.'')"

definition examples :: "example_kind list" where
  "examples = [Ex_partial, Ex_clean, Ex_duplicate, Ex_replay, Ex_schema, Ex_window]"

definition explanation :: "example_kind \<Rightarrow> string" where
  "explanation kind = snd (snd (example_of kind))"

subsection \<open>Loading an example\<close>

text \<open>Whether a new reservation has to be planned.\<close>

definition stale_plan :: "int \<Rightarrow> int \<Rightarrow> example_plan option \<Rightarrow> bool" where
  "stale_plan now cost plan =
     (case plan of None \<Rightarrow> True
      | Some pl \<Rightarrow> (case pln_hold pl of None \<Rightarrow> False
          | Some h \<Rightarrow> rsv_expires h \<le> now \<or> inp_cost (pln_input pl) \<noteq> cost))"

definition make_plan :: "int \<Rightarrow> ('a intake_page_scheme, unit) prog" where
  "make_plan cost =
     bind (bind (request snapshot_request) (shaped as_snapshot)) (\<lambda>sn.
       case (array_find (\<lambda>c. cost \<le> available c) (snp_campaigns sn), snp_screens sn) of
         (Some c, scr # _) \<Rightarrow>
           bind random_uuid (\<lambda>u. modify (\<lambda>s. s\<lparr>in_plan := Some \<lparr>pln_key = u,
             pln_input = \<lparr>inp_campaign = cmp_id c, inp_screen = scr_id scr, inp_cost = cost\<rparr>,
             pln_hold = None\<rparr>\<rparr>))
       | _ \<Rightarrow> throw (js_err (''No campaign has '' @ money cost @
                '' available. Lower the price or check campaign budgets.'')))"

definition hold_request :: "example_plan \<Rightarrow> http_request" where
  "hold_request pl = (post_request ''/api/v1/reservations''
     (P_reservation_input (pln_input pl)))\<lparr>rq_key := Some (pln_key pl)\<rparr>"

text \<open>
  Whatever the service answers is taken as the hold; an object of another shape has no state \<open>held\<close>, so the check
  that follows discards the plan.
\<close>

definition hold_gone :: js_error where
  "hold_gone = js_err ''The recovered reservation is no longer available. Load again to prepare a fresh example.''"

definition take_hold :: "example_plan \<Rightarrow> payload \<Rightarrow> ('a intake_page_scheme, reservation) prog" where
  "take_hold pl p s = (case as_reservation p of
     None \<Rightarrow> Throw (s\<lparr>in_plan := None\<rparr>) hold_gone
   | Some r \<Rightarrow> Return (s\<lparr>in_plan := Some (pl\<lparr>pln_hold := Some r\<rparr>)\<rparr>) r)"

definition obtain_hold :: "('a intake_page_scheme, reservation) prog" where
  "obtain_hold =
     bind (gets in_plan) (\<lambda>plan. case plan of
       None \<Rightarrow> throw type_error
     | Some pl \<Rightarrow> (case pln_hold pl of
         Some r \<Rightarrow> ret r
       | None \<Rightarrow> bind (request (hold_request pl)) (take_hold pl)))"

fun fresh_events :: "nat \<Rightarrow> receipt \<Rightarrow> ('a page_scheme, batch_item list) prog" where
  "fresh_events 0 r = ret []"
| "fresh_events (Suc n) r =
     bind random_uuid (\<lambda>u. bind (fresh_events n r) (\<lambda>xs. ret (Item (r\<lparr>rcp_event := u\<rparr>) # xs)))"

definition example_items :: "example_kind \<Rightarrow> reservation \<Rightarrow> ('a page_scheme, batch_item list) prog" where
  "example_items kind r =
     bind random_uuid (\<lambda>u.
       let receipt = \<lparr>rcp_version = 1, rcp_event = u, rcp_reservation = rsv_id r,
             rcp_screen = rsv_screen r, rcp_played_at = rsv_created r + 1, rcp_duration = 10000\<rparr>
       in case kind of
            Ex_clean \<Rightarrow> ret [Item receipt]
          | Ex_duplicate \<Rightarrow> fresh_events 5 receipt
          | Ex_replay \<Rightarrow> ret [Item receipt, Item receipt]
          | Ex_schema \<Rightarrow> ret [Item (receipt\<lparr>rcp_version := 99\<rparr>)]
          | Ex_window \<Rightarrow> ret [Item (receipt\<lparr>rcp_played_at := rsv_created r - 1000\<rparr>)]
          | Ex_partial \<Rightarrow> bind random_uuid (\<lambda>u2.
              ret [Item receipt, Item (receipt\<lparr>rcp_event := u2\<rparr>),
                   Malformed ''deliberately malformed'']))"

definition use_hold :: "reservation \<Rightarrow> ('a intake_page_scheme, unit) prog" where
  "use_hold r s =
     (if rsv_state r \<noteq> Held \<or> rsv_expires r \<le> clock s
      then Throw (s\<lparr>in_plan := None\<rparr>) hold_gone
      else bind (example_items (in_kind s) r) (\<lambda>items.
        modify (\<lambda>s1. s1\<lparr>in_draft := Receipts items, in_result := None,
          in_notice := ''Example ready. A '' @ money (rsv_cost r) @
            '' demo hold is reserved; no playback receipts have been sent. '' @
            explanation (in_kind s1)\<rparr>)) s)"

definition definitive :: "int option \<Rightarrow> bool" where
  "definitive st \<longleftrightarrow> st \<in> Some ` {400, 401, 403, 404, 409, 422}"

text \<open>The \<open>catch\<close> block: only a definitive rejection of the reservation discards the plan.\<close>

fun undecided :: "example_plan option \<Rightarrow> bool" where
  "undecided None = False"
| "undecided (Some pl) = (pln_hold pl = None)"

definition load_failed :: "js_error \<Rightarrow> 'a intake_page_scheme \<Rightarrow> 'a intake_page_scheme" where
  "load_failed e s =
     (let plan = (if undecided (in_plan s) \<and> definitive (err_status e) then None else in_plan s)
      in s\<lparr>in_plan := plan,
           in_notice := err_message e @
             (if undecided plan
              then '' Click Load example to retry; an uncertain reservation keeps the same request key.''
              else '' Adjust the price if needed, then click Load example again.'')\<rparr>)"

definition load_body :: "nat \<Rightarrow> ('a intake_page_scheme, unit) prog" where
  "load_body c = seq (\<lambda>s1. if stale_plan (clock s1) (int c) (in_plan s1) then make_plan (int c) s1
                           else Return s1 ()) (bind obtain_hold use_hold)"

definition load_example :: "('a intake_page_scheme, unit) prog" where
  "load_example s =
     (if in_pending s \<or> \<not> rt_demo (runtime s) then Return s ()
      else case price_micros (in_price s) of
        Inl m \<Rightarrow> Return (s\<lparr>in_price_error := m, in_notice := m\<rparr>) ()
      | Inr c \<Rightarrow>
          try_finally
            (try_catch
              (load_body c)
              (\<lambda>e. modify (load_failed e)))
            (\<lambda>s1. s1\<lparr>in_pending := False, in_preparing := False\<rparr>)
            (s\<lparr>in_price_error := [], in_pending := True, in_preparing := True,
               in_notice := ''Preparing a real demo reservation...''\<rparr>))"

subsection \<open>Sending a batch\<close>

definition batch_request :: "batch_item list \<Rightarrow> http_request" where
  "batch_request items = post_request ''/api/v1/receipts/batch'' (P_batch items)"

text \<open>The checks before anything is sent.\<close>

fun draft_items :: "draft \<Rightarrow> string + batch_item list" where
  "draft_items (Unparsable m) = Inl m"
| "draft_items NoArray = Inl ''Use a receipts array with 1-50 items.''"
| "draft_items (Receipts items) =
     (if length items < 1 \<or> 50 < length items then Inl ''Use a receipts array with 1-50 items.''
      else Inr items)"

definition batch_failure :: "http_response \<Rightarrow> payload \<Rightarrow> js_error" where
  "batch_failure resp data = js_err
     ((if truthy (detail_of data) then the (detail_of data) else ''Request failed'') @
      '' ('' @ dec (nat (rs_status resp)) @ '')'' @
      (if truthy (rs_retry_after resp)
       then ''. Retry after '' @ the (rs_retry_after resp) @ '' seconds'' else []))"

definition send_body ::
  "string comparator \<Rightarrow> batch_item list \<Rightarrow> ('a intake_page_scheme, unit) prog" where
  "send_body collate items =
     bind (send (batch_request items) False) (\<lambda>resp.
     bind (read_json (batch_request items)) (\<lambda>data.
       if \<not> ok resp then throw (batch_failure resp data)
       else case as_batch_response data of
         None \<Rightarrow> throw (js_err ''Unreadable result; acceptance is unknown.'')
       | Some b \<Rightarrow>
           seq (modify (\<lambda>s1. s1\<lparr>in_result := Some b, in_plan := None,
                  in_http := rs_status resp, in_notice :=
                  ''Response received. Original payload retained for an unchanged retry.''\<rparr>))
               (refresh collate)))"

definition send_batch :: "string comparator \<Rightarrow> ('a intake_page_scheme, unit) prog" where
  "send_batch collate s =
     (if in_pending s \<or> \<not> rt_demo (runtime s) then Return s ()
      else case draft_items (in_draft s) of
        Inl m \<Rightarrow> Return (s\<lparr>in_notice := ''Invalid batch: '' @ m\<rparr>) ()
      | Inr items \<Rightarrow>
          try_finally
            (try_catch
              (send_body collate items)
              (\<lambda>e. modify (\<lambda>s1. s1\<lparr>in_notice := err_message e @
                 ''. Payload retained. If the outcome is unknown, retry unchanged.''\<rparr>)))
            (\<lambda>s1. s1\<lparr>in_pending := False\<rparr>)
            (s\<lparr>in_pending := True, in_plan := None, in_result := None,
               in_notice := ''Sending to the Go intake API...''\<rparr>))"

subsection \<open>Editing\<close>

text \<open>The price field is disabled while an operation runs and while a plan has no hold yet.\<close>

definition price_disabled :: "'a intake_page_scheme \<Rightarrow> bool" where
  "price_disabled s \<longleftrightarrow> in_pending s \<or> undecided (in_plan s)"

definition price_input :: "string \<Rightarrow> ('a intake_page_scheme, unit) prog" where
  "price_input v s =
     (if price_disabled s then Return s ()
      else Return (s\<lparr>in_price := v, in_price_error := [], in_notice :=
        ''Click Load example to apply this price. The current request body and existing reservation are unchanged.''\<rparr>) ())"

definition kind_change :: "example_kind \<Rightarrow> ('a intake_page_scheme, unit) prog" where
  "kind_change k s =
     (if in_pending s then Return s ()
      else Return (s\<lparr>in_kind := k, in_notice :=
        ''Click Load example to prepare this scenario. The current request body is unchanged.''\<rparr>) ())"

definition draft_input :: "draft \<Rightarrow> ('a intake_page_scheme, unit) prog" where
  "draft_input d s = (if in_pending s then Return s () else Return (s\<lparr>in_draft := d\<rparr>) ())"

definition intake_handlers :: "string comparator \<Rightarrow> ('a intake_page_scheme, unit) prog set" where
  "intake_handlers collate =
     {load_example, send_batch collate} \<union> range price_input \<union> range kind_change \<union> range draft_input"

subsection \<open>One operation at a time, under one price\<close>

record intake_vars =
  iv_pending :: bool
  iv_plan :: "example_plan option"
  iv_price :: string
  iv_draft :: draft

definition intake_own :: "'a intake_page_scheme \<Rightarrow> intake_vars" where
  "intake_own s = \<lparr>iv_pending = in_pending s, iv_plan = in_plan s, iv_price = in_price s,
     iv_draft = in_draft s\<rparr>"

text \<open>A plan without a hold was made for the price that the field still shows.\<close>

definition plan_priced :: "intake_vars \<Rightarrow> bool" where
  "plan_priced v \<longleftrightarrow> (undecided (iv_plan v) \<longrightarrow>
     map_sum id int (price_micros (iv_price v)) = Inr (inp_cost (pln_input (the (iv_plan v)))))"

definition intake_env :: "'a intake_page_scheme \<Rightarrow> 'a intake_page_scheme \<Rightarrow> bool" where
  "intake_env s s' \<longleftrightarrow> intake_own s' = intake_own s"

lemma page_frame_intake: "page_frame intake_own"
  by (simp add: page_frame_def intake_own_def remember_def set_item_def reload_def clear_def
      remove_item_def set_local_def run_keys_def Let_def)

lemma console_frame_intake: "console_frame intake_own"
  by (rule console_frameI [OF page_frame_intake]) (simp_all add: intake_own_def)

text \<open>
  What is sent is what is kept: a reservation is requested under the key and with the content of
  the plan, which is still undecided; a batch is the draft, of 1 to 50 items.
\<close>

definition intake_sends :: "awaiting \<Rightarrow> intake_vars \<Rightarrow> bool" where
  "intake_sends q v \<longleftrightarrow> (case q of
     Fetch rq \<Rightarrow>
       (rq_path rq = ''/api/v1/reservations'' \<longrightarrow>
          (\<exists>pl. iv_plan v = Some pl \<and> pln_hold pl = None \<and> rq_key rq = Some (pln_key pl) \<and>
             rq_body rq = P_reservation_input (pln_input pl))) \<and>
       (rq_path rq = ''/api/v1/receipts/batch'' \<longrightarrow>
          (\<exists>items. iv_draft v = Receipts items \<and> rq_body rq = P_batch items \<and>
             items \<noteq> [] \<and> length items \<le> 50))
   | _ \<Rightarrow> True)"

lemma intake_sends_reads [simp]:
  "for_refresh q \<Longrightarrow> intake_sends q v" "for_request snapshot_request q \<Longrightarrow> intake_sends q v"
  by (auto simp: for_refresh_def for_request_def intake_sends_def snapshot_request_def
      runtime_request_def)

lemma intake_sends_hold:
  "for_request (hold_request pl) q \<Longrightarrow> iv_plan v = Some pl \<Longrightarrow> pln_hold pl = None \<Longrightarrow> intake_sends q v"
  by (auto simp: for_request_def intake_sends_def hold_request_def)

lemma intake_sends_batch:
  "for_request (batch_request items) q \<Longrightarrow> draft_items (iv_draft v) = Inr items \<Longrightarrow> intake_sends q v"
  by (cases "iv_draft v")
     (auto simp: for_request_def intake_sends_def batch_request_def split: if_splits)

text \<open>What holds while \<open>load_example\<close> runs for a price of \<open>c\<close> micros.\<close>

definition loading_for :: "nat \<Rightarrow> intake_vars \<Rightarrow> bool" where
  "loading_for c v \<longleftrightarrow> iv_pending v \<and> price_micros (iv_price v) = Inr c \<and>
     (undecided (iv_plan v) \<longrightarrow> inp_cost (pln_input (the (iv_plan v))) = int c)"

abbreviation "keeps_loading c ans \<equiv>
  keeps intake_own (\<lambda>q v. loading_for c v \<and> intake_sends q v) ans
    (\<lambda>_. loading_for c) (\<lambda>_. loading_for c)"

lemma keeps_make_plan: "loading_for c (intake_own s) \<Longrightarrow> keeps_loading c ans (make_plan (int c) s)"
  unfolding make_plan_def
  by (rule keeps_bindI, rule keeps_shaped [OF page_frame_intake])
     (auto simp: async_simps intake_own_def loading_for_def split: option.splits list.splits)

lemma keeps_obtain_hold:
  assumes "loading_for c (intake_own s)"
  shows "keeps_loading c ans (obtain_hold s)"
proof -
  have "keeps_loading c ans (bind (request (hold_request pl)) (take_hold pl) s)"
    if "in_plan s = Some pl" and "pln_hold pl = None" for pl
  proof (rule keeps_bindI, rule keeps_request [OF page_frame_intake])
    show "loading_for c (intake_own s) \<and> intake_sends q (intake_own s)"
      if "for_request (hold_request pl) q" for q
      using assms intake_sends_hold [OF that] \<open>in_plan s = Some pl\<close> \<open>pln_hold pl = None\<close>
      by (simp add: intake_own_def)
  qed (use assms in \<open>auto simp: take_hold_def intake_own_def loading_for_def split: option.split\<close>)
  with assms show ?thesis
    by (auto simp: obtain_hold_def bind_def [of "gets _"] gets_def throw_def ret_def
        split: option.splits)
qed

lemma uuid_form [simp]: "\<exists>n. s\<lparr>uuid_next := m\<rparr> = s\<lparr>uuid_next := n\<rparr>"
  by blast

lemma fresh_events_form:
  "\<exists>n xs. fresh_events k r s = Return (s\<lparr>uuid_next := n\<rparr>) xs \<and> length xs = k"
proof (induction k arbitrary: s)
  case 0
  then show ?case by (auto simp: async_simps intro: exI [of _ "uuid_next s"])
next
  case (Suc k)
  obtain n xs where
    "fresh_events k r (s\<lparr>uuid_next := Suc (uuid_next s)\<rparr>) =
       Return (s\<lparr>uuid_next := Suc (uuid_next s)\<rparr>\<lparr>uuid_next := n\<rparr>) xs" "length xs = k"
    using Suc.IH by blast
  then show ?case by (auto simp: async_simps)
qed

lemma example_items_form:
  "\<exists>n xs. example_items kind r s = Return (s\<lparr>uuid_next := n\<rparr>) xs \<and> 1 \<le> length xs \<and> length xs \<le> 5"
proof -
  obtain n xs where "fresh_events 5 \<lparr>rcp_version = 1, rcp_event = uuid_src s (uuid_next s),
       rcp_reservation = rsv_id r, rcp_screen = rsv_screen r, rcp_played_at = rsv_created r + 1,
       rcp_duration = 10000\<rparr> (s\<lparr>uuid_next := Suc (uuid_next s)\<rparr>) =
     Return (s\<lparr>uuid_next := n\<rparr>) xs" and "length xs = 5"
    using fresh_events_form [of 5 _ "s\<lparr>uuid_next := Suc (uuid_next s)\<rparr>"] by fastforce
  then show ?thesis by (cases kind) (simp_all add: example_items_def async_simps Let_def)
qed

lemma keeps_use_hold:
  assumes "loading_for c (intake_own s)"
  shows "keeps_loading c ans (use_hold r s)"
proof -
  obtain n xs where "example_items (in_kind s) r s = Return (s\<lparr>uuid_next := n\<rparr>) xs"
    using example_items_form by blast
  with assms show ?thesis
    by (simp add: use_hold_def bind_def modify_def intake_own_def loading_for_def)
qed

lemma keeps_load_body:
  assumes "loading_for c (intake_own s)"
  shows "keeps_loading c ans (load_body c s)"
proof -
  have planned: "keeps_loading c ans (if stale_plan (clock s) (int c) (in_plan s) then make_plan (int c) s
     else Return s ())"
    using assms by (simp add: keeps_make_plan)
  have "keeps_loading c ans (bind obtain_hold use_hold s')"
    if "loading_for c (intake_own s')" for s' :: "'a intake_page_scheme"
    using that
    by (intro keeps_bindI keeps_mono [OF keeps_obtain_hold]) (auto intro: keeps_use_hold)
  then show ?thesis
    unfolding load_body_def by (intro keeps_seqI keeps_mono [OF planned]) auto
qed

lemma owns_load_example:
  assumes "\<not> in_pending s" and "plan_priced (intake_own s)"
  shows "owns intake_own iv_pending plan_priced intake_sends ans (load_example s)"
proof (cases "price_micros (in_price s)")
  case (Inl m)
  with assms show ?thesis
    by (simp add: load_example_def owns_def intake_own_def plan_priced_def)
next
  case (Inr c)
  have "owns intake_own iv_pending plan_priced intake_sends ans
      (try_finally (try_catch (load_body c) (\<lambda>e. modify (load_failed e)))
        (\<lambda>s1. s1\<lparr>in_pending := False, in_preparing := False\<rparr>) s1)"
    if "loading_for c (intake_own s1)" for s1 :: "'a intake_page_scheme"
    by (rule owns_try [where G = "loading_for c"], rule keeps_load_body [OF that])
       (auto simp: loading_for_def plan_priced_def intake_own_def load_failed_def Let_def)
  moreover have "loading_for c (intake_own (s\<lparr>in_price_error := [], in_pending := True,
      in_preparing := True, in_notice := ''Preparing a real demo reservation...''\<rparr>))"
    using assms Inr by (cases "in_plan s") (auto simp: intake_own_def loading_for_def plan_priced_def)
  ultimately show ?thesis using assms Inr
    by (auto simp: load_example_def owns_def intake_own_def)
qed

definition sending :: "draft \<Rightarrow> intake_vars \<Rightarrow> bool" where
  "sending d v \<longleftrightarrow> iv_pending v \<and> iv_plan v = None \<and> iv_draft v = d"

lemma keeps_send_body:
  assumes "sending d (intake_own s)" and "draft_items d = Inr items"
  shows "keeps intake_own (\<lambda>q v. sending d v \<and> intake_sends q v) ans (\<lambda>_. sending d) (\<lambda>_. sending d) (send_body collate items s)"
proof -
  have fin: "keeps intake_own (\<lambda>q v. sending d v \<and> intake_sends q v) ans (\<lambda>_. sending d) (\<lambda>_. sending d)
      (seq (modify (\<lambda>s1. s1\<lparr>in_result := Some b, in_plan := None, in_http := i, in_notice := m\<rparr>))
        (refresh collate) s')" if "sending d (intake_own s')" for s' :: "'a intake_page_scheme" and b i m
    using that by (intro keeps_seqI)
      (auto simp: modify_def intro!: keeps_refresh [OF console_frame_intake] simp: intake_own_def sending_def)
  have sent: "sending d (intake_own s') \<and> intake_sends q (intake_own s')"
    if "for_request (batch_request items) q" and "sending d (intake_own s')"
    for q and s' :: "'a intake_page_scheme"
    using that assms(2) intake_sends_batch [OF that(1)] by (simp add: sending_def)
  show ?thesis unfolding send_body_def
    by (rule keeps_bindI, rule keeps_send [OF page_frame_intake])
       (use assms(1) fin sent in \<open>auto intro!: keeps_bindI keeps_read_json simp: throw_def split: option.splits\<close>)
qed

lemma owns_send_batch:
  assumes "\<not> in_pending s" and "plan_priced (intake_own s)"
  shows "owns intake_own iv_pending plan_priced intake_sends ans (send_batch collate s)"
proof (cases "draft_items (in_draft s)")
  case (Inl m)
  with assms show ?thesis
    by (simp add: send_batch_def owns_def intake_own_def plan_priced_def)
next
  case (Inr items)
  have "owns intake_own iv_pending plan_priced intake_sends ans
      (try_finally (try_catch (send_body collate items) (\<lambda>e. modify (\<lambda>s1. s1\<lparr>in_notice := err_message e @
          ''. Payload retained. If the outcome is unknown, retry unchanged.''\<rparr>)))
        (\<lambda>s1. s1\<lparr>in_pending := False\<rparr>) s1)"
    if "sending (in_draft s) (intake_own s1)" for s1 :: "'a intake_page_scheme"
    by (rule owns_try [where G = "sending (in_draft s)"], rule keeps_send_body [OF that Inr])
       (auto simp: sending_def plan_priced_def intake_own_def)
  then show ?thesis using assms Inr
    by (auto simp: send_batch_def owns_def intake_own_def sending_def)
qed

lemma owns_intake_handlers:
  assumes "h \<in> intake_handlers collate" and "\<not> in_pending s" and "plan_priced (intake_own s)"
  shows "owns intake_own iv_pending plan_priced intake_sends ans (h s)"
  using assms
  by (auto simp: intake_handlers_def owns_load_example owns_send_batch)
     (auto simp: owns_def price_input_def kind_change_def draft_input_def price_disabled_def
        intake_own_def plan_priced_def)

interpretation intake: exclusive "intake_handlers collate" intake_env ans intake_own iv_pending plan_priced intake_sends
  for collate ans
proof (unfold_locales, goal_cases)
  case (1 h s)
  then show ?case
    by (auto simp: intake_handlers_def load_example_def send_batch_def price_input_def
        kind_change_def draft_input_def price_disabled_def intake_own_def)
next
  case (2 h s)
  then show ?case by (intro owns_intake_handlers) (simp_all add: intake_own_def)
next
  case (3 s s')
  then show ?case by (simp add: intake_env_def)
qed

definition fresh_intake :: intake_page where
  "fresh_intake = assure_page.extend fresh_assure \<lparr>in_price = ''0.01'', in_price_error = [],
     in_kind = Ex_partial, in_plan = None, in_preparing = False, in_draft = Unparsable [],
     in_pending = False, in_result = None, in_notice = [], in_http = 0\<rparr>"

lemmas fresh_intake_simps = fresh_intake_def assure_page.defs fresh_assure_simps

subsection \<open>Properties of the intake page\<close>

text \<open>
  The intake page works on one thing at a time, and a plan without a hold keeps its price: in
  every order of clicks, edits and replies at most one request is in flight, exactly while the
  page is pending, and while the outcome of a reservation is undecided the price field still shows
  the price that was asked for.
\<close>

theorem intake_one_operation:
  assumes "\<not> in_pending s0" and "in_plan s0 = None"
    and "reaches (intake_handlers collate) intake_env ans s0 (s, ts)"
  shows "length ts = (if in_pending s then 1 else 0) \<and>
    (\<forall>pl. in_plan s = Some pl \<and> pln_hold pl = None \<longrightarrow>
       map_sum id int (price_micros (in_price s)) = Inr (inp_cost (pln_input pl)))"
proof -
  have "length ts = (if in_pending s then 1 else 0) \<and> plan_priced (intake_own s)"
    using intake.one_in_flight [OF _ _ assms(3)] assms(1,2) by (simp add: intake_own_def plan_priced_def)
  then show ?thesis by (auto simp: plan_priced_def intake_own_def)
qed

definition demo_intake :: intake_page where
  "demo_intake = fresh_intake\<lparr>runtime := no_runtime\<lparr>rt_demo := True\<rparr>\<rparr>"

lemma demo_intake_sel [simp]:
  "\<not> in_pending demo_intake" "in_plan demo_intake = None" "rt_demo (runtime demo_intake)"
  "in_price demo_intake = ''0.01''" "\<not> invalidated demo_intake" "in_kind demo_intake = Ex_partial"
  "generation demo_intake = None"
  by (simp_all add: demo_intake_def fresh_intake_simps)

lemma default_price: "price_micros ''0.01'' = Inr 10000"
proof -
  have "''0.01'' = price_text 1" by code_simp
  then show ?thesis by (simp add: price_micros_exact price_pattern_price_text)
qed

theorem intake_one_operation_witness:
  "let c = run_events [Begin load_example, Begin (send_batch flat), Begin (price_input ''2'')] (demo_intake, [])
   in in_pending (fst c) \<and> length (snd c) = 1"
proof -
  let ?es = "[Begin load_example, Begin (send_batch flat), Begin (price_input ''2'')]"
  obtain s ts where run: "run_events ?es (demo_intake, []) = (s, ts)" by fastforce
  have "reaches (intake_handlers flat) intake_env (\<lambda>_ _. True) demo_intake (run_events ?es (demo_intake, []))"
    by (rule run_events_reaches_start) (simp add: intake_handlers_def)
  with run intake_one_operation [of demo_intake flat "\<lambda>_ _. True" s ts]
  have "length ts = (if in_pending s then 1 else 0)" by simp
  moreover have "in_pending (fst (run_events ?es (demo_intake, [])))"
    by (simp add: load_example_def send_batch_def price_input_def price_disabled_def default_price load_body_def
        stale_plan_def make_plan_def request_def send_def async_simps)
  ultimately show ?thesis using run by (simp add: Let_def)
qed

text \<open>
  C35. What is in flight is what is kept: a reservation request carries the key and the content of
  the undecided plan, and a batch request is the draft in the editor, of 1 to 50 items.
\<close>

theorem intake_sends_what_is_kept:
  assumes "\<not> in_pending s0" and "in_plan s0 = None"
    and "reaches (intake_handlers collate) intake_env ans s0 (s, ts)" and "(Fetch rq, k) \<in> set ts"
  shows "(rq_path rq = ''/api/v1/reservations'' \<longrightarrow> (\<exists>pl. in_plan s = Some pl \<and> pln_hold pl = None \<and>
      rq_key rq = Some (pln_key pl) \<and> rq_body rq = P_reservation_input (pln_input pl))) \<and>
    (rq_path rq = ''/api/v1/receipts/batch'' \<longrightarrow> (\<exists>items. in_draft s = Receipts items \<and>
      rq_body rq = P_batch items \<and> items \<noteq> [] \<and> length items \<le> 50))"
proof -
  have "intake_sends (Fetch rq) (intake_own s)"
    using intake.one_in_flight [OF _ _ assms(3)] assms(1,2,4)
    by (fastforce simp: intake_own_def plan_priced_def)
  then show ?thesis by (simp add: intake_sends_def intake_own_def)
qed

definition drafting_intake :: intake_page where
  "drafting_intake = demo_intake\<lparr>in_draft := Receipts [Malformed ''x'']\<rparr>"

theorem intake_sends_what_is_kept_witness:
  "\<exists>s rq k. run_events [Begin (send_batch flat)] (drafting_intake, []) = (s, [(Fetch rq, k)]) \<and>
     rq_path rq = ''/api/v1/receipts/batch'' \<and> in_draft s = Receipts [Malformed ''x''] \<and>
     rq_body rq = P_batch [Malformed ''x'']"
proof -
  have "\<exists>s k rq. send_batch flat drafting_intake = Await s (Fetch rq) k \<and>
      rq_path rq = ''/api/v1/receipts/batch'' \<and> in_draft s = Receipts [Malformed ''x'']"
    by (simp add: send_batch_def drafting_intake_def send_body_def send_def async_simps batch_request_def)
  then obtain s k rq where k: "send_batch flat drafting_intake = Await s (Fetch rq) k"
    "rq_path rq = ''/api/v1/receipts/batch''" "in_draft s = Receipts [Malformed ''x'']" by blast
  have run: "run_events [Begin (send_batch flat)] (drafting_intake, []) = (s, [(Fetch rq, k)])" by (simp add: k(1))
  have "reaches (intake_handlers flat) intake_env (\<lambda>_ _. True) drafting_intake
      (run_events [Begin (send_batch flat)] (drafting_intake, []))"
    by (rule run_events_reaches_start) (simp add: intake_handlers_def)
  with run have "rq_body rq = P_batch [Malformed ''x'']"
    using intake_sends_what_is_kept [of drafting_intake flat "\<lambda>_ _. True" s "[(Fetch rq, k)]" rq k] k(2,3)
    by (simp add: drafting_intake_def)
  with run k(2,3) show ?thesis by blast
qed

subsection \<open>An uncertain reservation keeps its key\<close>

text \<open>Replies that leave open whether the hold exists: none, an unreadable one, a status that does not decide.\<close>

definition uncertain :: "awaiting \<Rightarrow> reply \<Rightarrow> bool" where
  "uncertain q r \<longleftrightarrow> (\<forall>rq resp. q = Fetch rq \<and> r = Responded resp \<longrightarrow>
     \<not> ok resp \<and> \<not> definitive (Some (rs_status resp)))"

lemma intake_own_session [simp]:
  "intake_own (remember n s) = intake_own s" "intake_own (reload n b s) = intake_own s"
  by (simp_all add: page_frame_intake [unfolded page_frame_def])

lemma keeps_uncertain_request:
  fixes s :: "'a intake_page_scheme"
  assumes "I (intake_own s)"
  shows "keeps intake_own (\<lambda>_ _. True) uncertain (\<lambda>_ _. False)
    (\<lambda>e v. I v \<and> \<not> definitive (err_status e)) (request rq s)"
proof -
  have "keeps intake_own (\<lambda>_ _. True) uncertain
     (\<lambda>resp v. I v \<and> \<not> ok resp \<and> \<not> definitive (Some (rs_status resp)))
     (\<lambda>e v. I v \<and> \<not> definitive (err_status e)) (send rq False s)"
    using assms
    by (auto simp: send_def receive_def Let_def uncertain_def js_err_def cleared_error_def
        definitive_def split: reply.splits)
  moreover have "keeps intake_own (\<lambda>_ _. True) uncertain (\<lambda>_ _. False)
     (\<lambda>e v. I v \<and> \<not> definitive (err_status e))
     (bind (read_or_null rq) (\<lambda>data.
       if \<not> ok resp then throw (failure (rs_status resp) data)
       else case data of
         None \<Rightarrow> throw (js_err ''The server returned an unreadable response. Please retry.'')
       | Some p \<Rightarrow> ret p) s')"
    if "I (intake_own s') \<and> \<not> ok resp \<and> \<not> definitive (Some (rs_status resp))"
    for resp and s' :: "'a intake_page_scheme"
    using that by (auto intro!: keeps_bindI keeps_read_or_null simp: throw_def failure_def)
  ultimately show ?thesis unfolding request_def by (rule keeps_bind)
qed

text \<open>The request for the hold of an undecided plan, and the rest of the load.\<close>

definition asks_hold :: "awaiting \<Rightarrow> bool" where
  "asks_hold q \<longleftrightarrow> (\<exists>rq. q = Fetch rq \<and> rq_path rq = ''/api/v1/reservations'')"

definition plan_kept :: "intake_vars \<Rightarrow> intake_vars \<Rightarrow> bool" where
  "plan_kept v v' \<longleftrightarrow> \<not> iv_pending v' \<and> iv_plan v' = iv_plan v \<and> iv_price v' = iv_price v"

abbreviation "load_end m \<equiv> afinally (acatch m (\<lambda>e. modify (load_failed e)))
  (\<lambda>s1. s1\<lparr>in_pending := False, in_preparing := False\<rparr>)"

abbreviation "asks_none ans \<equiv> keeps intake_own (\<lambda>q _. \<not> asks_hold q) ans (\<lambda>_ _. True) (\<lambda>_ _. True)"

lemma asks_none_end: "asks_none ans m \<Longrightarrow> asks_none ans (load_end m)"
  by (rule keeps_afinally, rule keeps_acatch, assumption) (simp_all add: modify_def)

lemma asks_none_use: "asks_none ans (use_hold r s)"
proof -
  obtain n xs where "example_items (in_kind s) r s = Return (s\<lparr>uuid_next := n\<rparr>) xs"
    using example_items_form by blast
  then show ?thesis by (simp add: use_hold_def bind_def modify_def)
qed

lemma request_asks_once:
  "\<not> invalidated s \<Longrightarrow> \<exists>k. request rq s = Await s (Fetch (stamp s rq)) k \<and> (\<forall>r s'. asks_none ans (k r s'))"
  by (simp add: request_def send_def async_simps)
     (auto simp: receive_def Let_def read_or_null_def read_json_def async_simps asks_hold_def split: reply.split option.split)

lemma not_asks_hold [simp]:
  "for_refresh q \<Longrightarrow> \<not> asks_hold q" "for_request snapshot_request q \<Longrightarrow> \<not> asks_hold q"
  "for_request (batch_request items) q \<Longrightarrow> \<not> asks_hold q" "\<not> asks_hold (ReadBody rq)"
  by (auto simp: asks_hold_def for_refresh_def for_request_def snapshot_request_def runtime_request_def batch_request_def)

lemma asks_none_plan: "asks_none ans (make_plan c s)"
  unfolding make_plan_def
  by (rule keeps_bindI, rule keeps_shaped [OF page_frame_intake])
     (auto simp: async_simps split: option.splits list.splits)

lemma keeps_uncertain_end:
  fixes s :: "'a intake_page_scheme"
  assumes "in_plan s = Some pl" and "pln_hold pl = None"
  shows "keeps intake_own (\<lambda>_ _. True) uncertain (\<lambda>_. plan_kept (intake_own s)) (\<lambda>_. plan_kept (intake_own s))
    (load_end (abind (bind (request (hold_request pl)) (take_hold pl) s) use_hold))"
proof -
  let ?I = "\<lambda>v. iv_plan v = Some pl \<and> iv_price v = in_price s"
  have asked: "keeps intake_own (\<lambda>_ _. True) uncertain (\<lambda>_ _. False) (\<lambda>e v. ?I v \<and> \<not> definitive (err_status e))
      (abind (bind (request (hold_request pl)) (take_hold pl) s) use_hold)"
    unfolding bind_def [of "bind _ _", symmetric]
    by (rule keeps_bind, rule keeps_bind, rule keeps_uncertain_request [where I = ?I]) (use assms in \<open>auto simp: intake_own_def\<close>)
  have "keeps intake_own (\<lambda>_ _. True) uncertain (\<lambda>_. ?I) (\<lambda>_ _. False)
      (acatch (abind (bind (request (hold_request pl)) (take_hold pl) s) use_hold) (\<lambda>e. modify (load_failed e)))"
    by (rule keeps_acatch, rule keeps_mono [OF asked, where Q' = "\<lambda>_. ?I" and P' = "\<lambda>_ _. True"
          and E' = "\<lambda>e v. ?I v \<and> \<not> definitive (err_status e)"]) (auto simp: modify_def load_failed_def Let_def intake_own_def)
  then show ?thesis
    by (rule keeps_afinally) (auto simp: plan_kept_def intake_own_def assms)
qed

lemma survives_rest:
  fixes s :: "'a intake_page_scheme"
  shows "survives intake_own ans asks_hold uncertain plan_kept (load_end (bind obtain_hold use_hold s))"
proof (cases "undecided (in_plan s)")
  case False
  then have "asks_none ans (bind obtain_hold use_hold s)"
    by (cases "in_plan s") (auto simp: obtain_hold_def async_simps asks_none_use split: option.split)
  then show ?thesis by (intro survives_never asks_none_end)
next
  case True
  then obtain pl where pl: "in_plan s = Some pl" "pln_hold pl = None" by (cases "in_plan s") auto
  then have eq: "load_end (bind obtain_hold use_hold s) =
      load_end (abind (bind (request (hold_request pl)) (take_hold pl) s) use_hold)"
    by (simp add: obtain_hold_def bind_def gets_def)
  show ?thesis
  proof (cases "invalidated s")
    case True
    then show ?thesis unfolding eq by (simp add: request_def send_def async_simps)
  next
    case False
    then obtain k where k: "request (hold_request pl) s = Await s (Fetch (stamp s (hold_request pl))) k"
      "\<And>r s'. asks_none ans (k r s')"
      using request_asks_once by blast
    have "asks_none ans (load_end (abind (abind (k r s') (take_hold pl)) use_hold))" for r s'
      by (rule asks_none_end, rule keeps_abind, rule keeps_abind, rule k(2))
         (auto simp: take_hold_def asks_none_use split: option.split)
    then show ?thesis
      unfolding eq using keeps_uncertain_end [OF pl]
      by (intro survives_once [where s = s and q = "Fetch (stamp s (hold_request pl))"]) (auto simp: bind_def k(1))
  qed
qed

lemma survives_load_example: "survives intake_own ans asks_hold uncertain plan_kept (load_example s)"
proof -
  have "survives intake_own ans asks_hold uncertain plan_kept (load_end (load_body c s1))" for c and s1 :: "'a intake_page_scheme"
    unfolding load_body_def seq_def
    by (rule survives_after) (auto simp: asks_none_plan survives_rest modify_def)
  then show ?thesis by (auto simp: load_example_def try_finally_def try_catch_def split: sum.split)
qed

lemma survives_send_batch: "survives intake_own ans asks_hold uncertain plan_kept (send_batch collate s)"
proof -
  have rest: "asks_none ans (seq (modify (\<lambda>s1. s1\<lparr>in_result := Some b, in_plan := None, in_http := i, in_notice := m\<rparr>))
      (refresh collate) s')" for b i m and s' :: "'a intake_page_scheme"
    by (intro keeps_seqI) (auto simp: modify_def intro!: keeps_refresh [OF console_frame_intake])
  have "asks_none ans (send_body collate items s1)" for items and s1 :: "'a intake_page_scheme"
    unfolding send_body_def
    by (rule keeps_bindI, rule keeps_send [OF page_frame_intake])
       (use rest in \<open>auto intro!: keeps_bindI keeps_read_json simp: throw_def split: option.splits\<close>)
  then have "asks_none ans (afinally (acatch (send_body collate items s1) (\<lambda>e. modify (f e))) g)" for items f g
      and s1 :: "'a intake_page_scheme"
    by (intro keeps_afinally [OF keeps_acatch]) (auto simp: modify_def)
  then show ?thesis
    by (auto simp: send_batch_def try_finally_def try_catch_def split: sum.split intro!: survives_never)
qed

lemma survives_intake_handlers:
  assumes "h \<in> intake_handlers collate"
  shows "survives intake_own ans asks_hold uncertain plan_kept (h s)"
  using assms
  by (auto simp: intake_handlers_def survives_load_example survives_send_batch price_input_def kind_change_def draft_input_def)

text \<open>The first thing \<open>load_example\<close> waits for when the plan is undecided.\<close>

lemma load_example_resends:
  assumes "\<not> in_pending s" and "rt_demo (runtime s)" and "\<not> invalidated s"
    and "in_plan s = Some pl" and "pln_hold pl = None" and "price_micros (in_price s) = Inr c"
  shows "\<exists>g s1 k. load_example s = Await s1 (Fetch ((hold_request pl)\<lparr>rq_generation := g\<rparr>)) k"
proof -
  have "\<exists>s1 k. load_example s = Await s1 (Fetch (stamp s1 (hold_request pl))) k"
    using assms by (simp add: load_example_def load_body_def stale_plan_def obtain_hold_def request_def
      send_def async_simps)
  then show ?thesis by (auto simp: stamp_def hold_request_def post_request_def)
qed

text \<open>
  C11. An uncertain reservation is retried under the same key. In every order of clicks, edits and replies that starts
  with no plan: when a reservation request of \<open>Load example\<close> is in flight and neither its own reply nor a later one
  of the load decides it (it is refused or times out, or has a status that is neither a success nor a definitive
  rejection), then the load ends, and unless the session was reset meanwhile or the demo switched off,
  the next \<open>Load example\<close> sends a reservation with the same key and the same content.
\<close>

theorem uncertain_hold_same_key:
  assumes "\<not> in_pending s0" and "in_plan s0 = None"
    and "reaches (intake_handlers collate) intake_env ans s0 (s, ts)"
    and "(Fetch rq, k) \<in> set ts" and "rq_path rq = ''/api/v1/reservations''"
    and "uncertain (Fetch rq) r" and "intake_own s1 = intake_own s"
    and "\<And>w q s r s' w'. env w q s = (r, s', w') \<Longrightarrow> uncertain q r \<and> intake_own s' = intake_own s"
    and "drive (k r s1) env w = (res, s', w')"
    and "\<not> invalidated s'" and "rt_demo (runtime s')"
  shows "\<not> in_pending s' \<and> rq_key rq \<noteq> None \<and>
    (\<exists>rq' s2 k2. load_example s' = Await s2 (Fetch rq') k2 \<and> rq_path rq' = rq_path rq \<and>
       rq_key rq' = rq_key rq \<and> rq_body rq' = rq_body rq)"
proof -
  have free: "\<not> iv_pending (intake_own s0)" "plan_priced (intake_own s0)"
    using assms(1,2) by (simp_all add: intake_own_def plan_priced_def)
  have "intake_sends (Fetch rq) (intake_own s)" and priced: "plan_priced (intake_own s)"
    using intake.one_in_flight [OF free assms(3)] assms(4) by fastforce+
  then obtain pl where pl: "in_plan s = Some pl" "pln_hold pl = None" "rq_key rq = Some (pln_key pl)"
    "rq_body rq = P_reservation_input (pln_input pl)"
    using assms(5) by (auto simp: intake_sends_def intake_own_def)
  then obtain c where c: "price_micros (in_price s) = Inr c"
    using priced by (cases "price_micros (in_price s)") (auto simp: plan_priced_def intake_own_def)
  have "survives intake_own ans asks_hold uncertain plan_kept (Await s (Fetch rq) k)"
    using intake.in_flight_survives [OF free assms(3), of asks_hold uncertain plan_kept] survives_intake_handlers assms(4)
    by fastforce
  then have "keeps intake_own (\<lambda>_ _. True) uncertain (\<lambda>_. plan_kept (intake_own s)) (\<lambda>_. plan_kept (intake_own s)) (k r s1)"
    using assms(5-7) by (simp add: asks_hold_def)
  from drive_keeps [OF this, of env w] assms(8,9) have "plan_kept (intake_own s) (intake_own s')"
    by (auto split: sum.splits)
  then have "\<not> in_pending s'" "in_plan s' = Some pl" "in_price s' = in_price s"
    using pl(1) by (simp_all add: plan_kept_def intake_own_def)
  moreover from load_example_resends [OF this(1) assms(11,10) this(2) pl(2)] this(3) c obtain g s2 k2
    where "load_example s' = Await s2 (Fetch ((hold_request pl)\<lparr>rq_generation := g\<rparr>)) k2" by auto
  ultimately show ?thesis using pl(3,4) assms(5) by (simp add: hold_request_def)
qed

definition small_snapshot :: snapshot where
  "small_snapshot = \<lparr>snp_campaigns = [\<lparr>cmp_id = ''c'', cmp_name = [], cmp_budget = 20000, cmp_reserved = 0, cmp_spent = 0\<rparr>],
     snp_screens = [\<lparr>scr_id = ''s'', scr_name = [], scr_market = [], scr_format = []\<rparr>], snp_reservations = [],
     snp_deliveries = [], snp_audit = [], snp_counts = (\<lambda>_. 0), snp_now = 0\<rparr>"

definition first_load :: "intake_page event list" where
  "first_load = [Begin load_example, Deliver 0 (Responded plain_ok), Deliver 0 (Body (P_snapshot small_snapshot))]"

theorem uncertain_hold_same_key_witness:
  "\<exists>s rq k s2 rq' k2. run_events first_load (demo_intake, []) = (s, [(Fetch rq, k)]) \<and>
     rq_path rq = ''/api/v1/reservations'' \<and> rq_key rq \<noteq> None \<and>
     load_example (fst (snd (drive (k (Refused ''signal timed out'') s) lossy ()))) = Await s2 (Fetch rq') k2 \<and>
     rq_key rq' = rq_key rq \<and> rq_body rq' = rq_body rq"
proof -
  have "\<exists>s rq k. run_events first_load (demo_intake, []) = (s, [(Fetch rq, k)]) \<and> rq_path rq = ''/api/v1/reservations'' \<and>
      \<not> invalidated (fst (snd (drive (k (Refused ''signal timed out'') s) lossy ()))) \<and>
      rt_demo (runtime (fst (snd (drive (k (Refused ''signal timed out'') s) lossy ()))))"
    by (simp add: first_load_def load_example_def default_price load_body_def stale_plan_def make_plan_def obtain_hold_def
        request_def send_def receive_def read_or_null_def read_json_def plain_ok_def ok_def shaped_def small_snapshot_def
        available_def hold_request_def load_failed_def Let_def async_simps)
  then obtain s rq k where run: "run_events first_load (demo_intake, []) = (s, [(Fetch rq, k)])"
    and rq: "rq_path rq = ''/api/v1/reservations''"
    and after: "\<not> invalidated (fst (snd (drive (k (Refused ''signal timed out'') s) lossy ())))"
      "rt_demo (runtime (fst (snd (drive (k (Refused ''signal timed out'') s) lossy ()))))" by blast
  obtain res s' where drive: "drive (k (Refused ''signal timed out'') s) lossy () = (res, s', ())" by (cases "drive (k (Refused ''signal timed out'') s) lossy ()") auto
  have "reaches (intake_handlers flat) intake_env (\<lambda>_ _. True) demo_intake (run_events first_load (demo_intake, []))"
    by (rule run_events_reaches_start)
       (simp add: first_load_def intake_handlers_def load_example_def default_price load_body_def stale_plan_def make_plan_def
        request_def send_def receive_def read_or_null_def read_json_def plain_ok_def Let_def async_simps)
  then have reach: "reaches (intake_handlers flat) intake_env (\<lambda>_ _. True) demo_intake (s, [(Fetch rq, k)])" by (simp only: run)
  have "uncertain q (Refused m)" for q m by (simp add: uncertain_def)
  then have "rq_key rq \<noteq> None \<and> (\<exists>rq' s2 k2. load_example s' = Await s2 (Fetch rq') k2 \<and> rq_path rq' = rq_path rq \<and>
       rq_key rq' = rq_key rq \<and> rq_body rq' = rq_body rq)"
    using uncertain_hold_same_key [where env = lossy and k = k and rq = rq and r = "Refused ''signal timed out''",
        OF demo_intake_sel(1,2) reach _ rq _ refl _ drive] after drive
    by (simp add: lossy_def)
  then show ?thesis using run rq drive by auto
qed

subsection \<open>The page and the session\<close>

lemma obeys_make_plan: "obeys same_session retired ans (make_plan c)"
  unfolding make_plan_def
  by (rule doc.obeys_intros(1), intro doc.obeys_intros)
     (auto intro!: doc.obeys_intros obeys_uuid beside_sessionD simp: beside_session_def
       split: option.split list.split)

lemma obeys_obtain_hold: "obeys same_session retired ans obtain_hold"
proof -
  have "obeys same_session retired ans (take_hold pl p)" for pl p
    by (auto simp: obeys_def take_hold_def same_session_def retired_def split: option.split)
  then show ?thesis unfolding obtain_hold_def by (intro doc.obeys_intros)
qed

lemma obeys_example_items:
  "obeys same_session retired ans (example_items kind r)"
proof (rule obeysI)
  fix s :: "'a page_scheme" assume "retired s"
  moreover obtain n xs where "example_items kind r s = Return (s\<lparr>uuid_next := n\<rparr>) xs"
    using example_items_form by blast
  ultimately show "rg same_session retired ans (\<lambda>_ _. True) (\<lambda>_ _. True) s (example_items kind r s)"
    by (simp add: same_session_def retired_def)
qed

lemma obeys_use_hold: "obeys same_session retired ans (use_hold r)"
proof (rule obeysI)
  fix s :: "'a intake_page_scheme" assume s: "retired s"
  have "obeys same_session retired ans (bind (example_items k r) (\<lambda>items.
        modify (\<lambda>s1 :: 'a intake_page_scheme. s1\<lparr>in_draft := Receipts items, in_result := None,
          in_notice := ''Example ready. A '' @ money (rsv_cost r) @
            '' demo hold is reserved; no playback receipts have been sent. '' @
            explanation (in_kind s1)\<rparr>)))" for k
    by (intro doc.obeys_intros obeys_example_items beside_sessionD) (auto simp: beside_session_def)
  then show "rg same_session retired ans (\<lambda>_ _. True) (\<lambda>_ _. True) s (use_hold r s)"
    using s by (auto simp: use_hold_def obeys_def same_session_def retired_def)
qed

lemma obeys_load_body: "obeys same_session retired ans (load_body c)"
proof -
  have "obeys same_session retired ans
    (\<lambda>s1. if stale_plan (clock s1) (int c) (in_plan s1) then make_plan (int c) s1 else Return s1 ())"
    using obeys_make_plan by (auto simp: obeys_def)
  then show ?thesis unfolding load_body_def
    by (intro doc.obeys_intros obeys_obtain_hold obeys_use_hold)
qed

lemma obeys_load_example:
  "obeys same_session retired ans (load_example :: ('a intake_page_scheme, unit) prog)"
proof -
  have "obeys same_session retired ans
    (try_finally (try_catch (load_body c) (\<lambda>e. modify (load_failed e)))
      (\<lambda>s1 :: 'a intake_page_scheme. s1\<lparr>in_pending := False, in_preparing := False\<rparr>))" for c
    by (intro doc.obeys_intros obeys_load_body beside_sessionD)
       (auto simp: beside_session_def load_failed_def Let_def)
  from obeys_entered [OF this, where f = "\<lambda>s. s\<lparr>in_price_error := [], in_pending := True,
      in_preparing := True, in_notice := ''Preparing a real demo reservation...''\<rparr>"]
  show ?thesis
    by (intro obeysI) (auto simp: load_example_def beside_session_def split: sum.split,
        auto simp: same_session_def retired_def)
qed

lemma obeys_send_batch:
  "obeys same_session retired ans (send_batch collate :: ('a intake_page_scheme, unit) prog)"
proof -
  have "obeys same_session retired ans (send_body collate items :: ('a intake_page_scheme, unit) prog)" for items
    unfolding send_body_def
    by (intro doc.obeys_intros obeys_refresh beside_sessionD) (auto simp: beside_session_def)
  then have "obeys same_session retired ans
    (try_finally (try_catch (send_body collate items) (\<lambda>e. modify (\<lambda>s1. s1\<lparr>in_notice := err_message e @
         ''. Payload retained. If the outcome is unknown, retry unchanged.''\<rparr>)))
      (\<lambda>s1 :: 'a intake_page_scheme. s1\<lparr>in_pending := False\<rparr>))" for items
    by (intro doc.obeys_intros beside_sessionD) (auto simp: beside_session_def)
  from obeys_entered [OF this, where f = "\<lambda>s. s\<lparr>in_pending := True, in_plan := None, in_result := None,
      in_notice := ''Sending to the Go intake API...''\<rparr>"]
  show ?thesis
    by (intro obeysI) (auto simp: send_batch_def beside_session_def split: sum.split,
        auto simp: same_session_def retired_def)
qed

lemma obeys_intake_handlers: "h \<in> intake_handlers collate \<Longrightarrow> obeys same_session retired ans h"
  by (auto simp: intake_handlers_def obeys_load_example obeys_send_batch)
     (auto intro!: obeysI simp: price_input_def kind_change_def draft_input_def same_session_def retired_def)

end
