(* ===== verification/LiveProof.thy ===== *)
theory LiveProof
  imports Intake "HOL-Library.List_Lexorder"
begin

text \<open>
  \<open>internal/console/web/proof.js\<close>: the live integration proof. A run reserves two plays, sends a
  batch with a malformed neighbour, resends it, waits for the worker's decisions, corrects the
  quarantined receipt and verifies the final records. A stage is marked as verified only after its
  assertions; the run is saved after each stage and resumed with its own identities. The polling
  loop \<open>observe\<close> carries fuel: a theorem below shows how much is enough under a clock that
  advances with the timers. A reply of another shape than the API's is a TypeError.
\<close>

subsection \<open>State\<close>

record proof_page = intake_page +
  pf_run :: "proof_run option"
  pf_running :: bool
  pf_message :: string
  pf_storage_warning :: string

definition stages :: "(string \<times> string \<times> string) list" where
  "stages = [
     (''Reserve'', ''Two server-priced holds'', ''Reserve two $0.01 plays with stable idempotency keys.''),
     (''Accept'', ''Partial success is explicit'', ''Three valid envelopes commit. One malformed neighbor is rejected.''),
     (''Retry'', ''Same events, same receipts'', ''Resend the exact batch and verify all three accepted identities replay.''),
     (''Reconcile'', ''Protect the financial boundary'', ''Observe one settlement, one duplicate, and one quarantined schema.''),
     (''Correct'', ''Keep original evidence intact'', ''Submit schema v1 under a new event ID for the quarantined play.''),
     (''Verify'', ''Inspect persisted outcomes'', ''Confirm two settled reservations and retain the original quarantine.'')]"

definition is_done :: "proof_run \<Rightarrow> nat \<Rightarrow> bool" where
  "is_done r i \<longleftrightarrow> i < length (run_steps r) \<and> run_steps r ! i \<noteq> None"

definition all_done :: "proof_run \<Rightarrow> bool" where
  "all_done r \<longleftrightarrow> list_all (\<lambda>x. x \<noteq> None) (run_steps r)"

definition stages_done :: "proof_run \<Rightarrow> nat" where
  "stages_done r = length (filter (\<lambda>x. x \<noteq> None) (run_steps r))"

text \<open>What the script takes from the session's storage when it starts.\<close>

definition proof_load :: "'a proof_page_scheme \<Rightarrow> 'a proof_page_scheme" where
  "proof_load s =
     (case (if storage_ok s then session_store s proof_key else None) of
        Some (SavedRun r) \<Rightarrow> (if length (run_steps r) = 6 then s\<lparr>pf_run := Some r\<rparr> else s\<lparr>pf_run := None\<rparr>)
      | _ \<Rightarrow> s\<lparr>pf_run := None\<rparr>)"

definition save :: "'a proof_page_scheme \<Rightarrow> 'a proof_page_scheme" where
  "save s =
     (if invalidated s then s
      else if \<not> storage_ok s
      then s\<lparr>pf_storage_warning := ''Browser storage unavailable. Export evidence before closing this page.''\<rparr>
      else set_item proof_key (case pf_run s of None \<Rightarrow> Text ''null'' | Some r \<Rightarrow> SavedRun r) s)"

definition update_run :: "(proof_run \<Rightarrow> proof_run) \<Rightarrow> ('a proof_page_scheme, unit) prog" where
  "update_run f = modify (\<lambda>s. s\<lparr>pf_run := map_option f (pf_run s)\<rparr>)"

text \<open>The run that the scripts read; a property of \<open>null\<close> is a TypeError.\<close>

definition the_run :: "('a proof_page_scheme, proof_run) prog" where
  "the_run s = (case pf_run s of None \<Rightarrow> Throw s type_error | Some r \<Rightarrow> Return s r)"

definition assert :: "bool \<Rightarrow> string \<Rightarrow> ('s, unit) prog" where
  "assert b m = (if b then ret () else throw (js_err m))"

text \<open>A property of a value that may be undefined.\<close>

definition defined :: "'b option \<Rightarrow> ('s, 'b) prog" where
  "defined x = (case x of None \<Rightarrow> throw type_error | Some v \<Rightarrow> ret v)"

subsection \<open>Requests of a run\<close>

definition mixed_batch :: "batch_item list \<Rightarrow> ('a page_scheme, batch_response) prog" where
  "mixed_batch items =
     bind (send (batch_request items) False) (\<lambda>resp.
     bind (read_json (batch_request items)) (\<lambda>data.
     seq (assert (rs_status resp = 207)
            (''Expected partial success; received HTTP '' @ dec (nat (rs_status resp)) @ '': '' @
             (if truthy (detail_of data) then the (detail_of data) else ''Inspect the API response'') @
             ''. Keep this run and retry unchanged.''))
       (case as_batch_response data of
          None \<Rightarrow> throw (js_err ''Unexpected batch outcome. Evidence retained for inspection.'')
        | Some b \<Rightarrow>
            if bat_accepted b = 3 \<and> bat_rejected b = 1
            then bind (defined (array_at (bat_results b) 3)) (\<lambda>r3.
                 seq (assert (brs_status r3 = 400)
                        ''Unexpected batch outcome. Evidence retained for inspection.'')
                     (ret b))
            else throw (js_err ''Unexpected batch outcome. Evidence retained for inspection.''))))"

definition delivery_request :: "string \<Rightarrow> http_request" where
  "delivery_request i = get_request (''/api/v1/deliveries/'' @ encode_uri i)"

fun read_rows :: "string list \<Rightarrow> ('a page_scheme, evidence list) prog" where
  "read_rows [] = ret []"
| "read_rows (i # ids) =
     bind (bind (request (delivery_request i)) (shaped as_evidence)) (\<lambda>e.
     bind (read_rows ids) (\<lambda>es. ret (e # es)))"

definition poll_interval :: int where "poll_interval = 350"
definition poll_deadline :: int where "poll_deadline = 20000"

definition out_of_fuel :: js_error where "out_of_fuel = js_err ''(fuel)''"

definition late_worker :: js_error where
  "late_worker = js_err ''Worker has not completed within 20 seconds. Check the Failure lab and connection, then resume this run.''"

fun observe_until :: "nat \<Rightarrow> int \<Rightarrow> string list \<Rightarrow> ('a page_scheme, evidence list) prog" where
  "observe_until 0 deadline ids = throw out_of_fuel"
| "observe_until (Suc fuel) deadline ids =
     bind (read_rows ids) (\<lambda>rows.
       if list_all (\<lambda>e. dlv_status (evd_delivery e) \<noteq> Accepted) rows then ret rows
       else bind (gets clock) (\<lambda>now.
         if deadline < now then throw late_worker
         else seq (await (Sleep poll_interval)) (observe_until fuel deadline ids)))"

definition poll_fuel :: nat where "poll_fuel = 59"

definition observe :: "string list \<Rightarrow> ('a page_scheme, evidence list) prog" where
  "observe ids = bind (gets clock) (\<lambda>now. observe_until poll_fuel (now + poll_deadline) ids)"

definition result_id :: "batch_result \<Rightarrow> string" where
  "result_id r = (case brs_id r of None \<Rightarrow> ''undefined'' | Some i \<Rightarrow> i)"

definition accepted_ids :: "batch_response \<Rightarrow> string list" where
  "accepted_ids b = map result_id (array_slice 0 3 (bat_results b))"

subsection \<open>The six stages\<close>

definition plan_input :: "proof_run \<Rightarrow> reservation_input" where
  "plan_input r = \<lparr>inp_campaign = plan_campaign r, inp_screen = plan_screen r, inp_cost = 10000\<rparr>"

definition plan_request :: "proof_run \<Rightarrow> string \<Rightarrow> http_request" where
  "plan_request r k = reserve_request (plan_input r) k"

fun reserve_holds :: "string list \<Rightarrow> ('a proof_page_scheme, unit) prog" where
  "reserve_holds [] = ret ()"
| "reserve_holds (k # ks) =
     bind the_run (\<lambda>r.
     bind (bind (request (plan_request r k)) (shaped as_reservation)) (\<lambda>h.
     seq (update_run (\<lambda>r. r\<lparr>run_holds := run_holds r @ [h]\<rparr>)) (reserve_holds ks)))"

definition plan_receipt :: "proof_run \<Rightarrow> nat \<Rightarrow> reservation \<Rightarrow> int \<Rightarrow> receipt" where
  "plan_receipt r i h v = \<lparr>rcp_version = v,
     rcp_event = (case array_at (plan_events r) i of None \<Rightarrow> ''undefined'' | Some e \<Rightarrow> e),
     rcp_reservation = rsv_id h, rcp_screen = rsv_screen h, rcp_played_at = rsv_created h + 1,
     rcp_duration = 10000\<rparr>"

definition plan_payload :: "proof_run \<Rightarrow> reservation \<Rightarrow> reservation \<Rightarrow> batch_item list" where
  "plan_payload r a b = [Item (plan_receipt r 0 a 1), Item (plan_receipt r 1 a 1),
     Item (plan_receipt r 2 b 99), Malformed ''malformed_neighbor'']"

definition stage_reserve :: "('a proof_page_scheme, unit) prog" where
  "stage_reserve =
     seq (update_run (\<lambda>r. r\<lparr>run_holds := []\<rparr>))
     (bind the_run (\<lambda>r.
      seq (reserve_holds (plan_keys r))
      (bind the_run (\<lambda>r.
       bind (defined (array_at (run_holds r) 0)) (\<lambda>a.
       bind (defined (array_at (run_holds r) 1)) (\<lambda>b.
         update_run (\<lambda>r. r\<lparr>run_payload := plan_payload r a b,
           run_correction := Some (plan_receipt r 3 b 1)\<rparr>)))))))"

definition stage_accept :: "('a proof_page_scheme, unit) prog" where
  "stage_accept =
     bind the_run (\<lambda>r.
     bind (mixed_batch (run_payload r)) (\<lambda>b. update_run (\<lambda>r. r\<lparr>run_batch := Some b\<rparr>)))"

text \<open>\<open>run.replay.results.slice(0, 3).every((r, i) => r.id === run.batch.results[i].id)\<close>.\<close>

definition same_ids :: "batch_response \<Rightarrow> batch_response \<Rightarrow> bool" where
  "same_ids p b \<longleftrightarrow> (let rs = array_slice 0 3 (bat_results p) in
     length rs \<le> length (bat_results b) \<and>
     list_all (\<lambda>i. brs_id (rs ! i) = brs_id (bat_results b ! i)) [0..<length rs])"

definition stage_retry :: "('a proof_page_scheme, unit) prog" where
  "stage_retry =
     bind the_run (\<lambda>r.
     bind (mixed_batch (run_payload r)) (\<lambda>p.
     seq (update_run (\<lambda>r. r\<lparr>run_replay := Some p\<rparr>))
     (bind the_run (\<lambda>r.
      bind (defined (run_batch r)) (\<lambda>b.
        assert (bat_replayed p = 3 \<and> same_ids p b) ''Retry did not preserve all receipt identities.'')))))"

text \<open>\<open>rows.slice(0, 2).map(status).sort().join(",")\<close>.\<close>

fun join_comma :: "string list \<Rightarrow> string" where
  "join_comma [] = []"
| "join_comma [t] = t"
| "join_comma (t # ts) = t @ '','' @ join_comma ts"

definition play_outcome :: "evidence list \<Rightarrow> string" where
  "play_outcome rows =
     join_comma (sort_key (\<lambda>t. t) (map (\<lambda>e. status_name (dlv_status (evd_delivery e))) (array_slice 0 2 rows)))"

definition kept_hold :: "evidence \<Rightarrow> bool" where
  "kept_hold e \<longleftrightarrow> dlv_status (evd_delivery e) = Quarantined \<and>
     dlv_reason (evd_delivery e) = ''unsupported_schema'' \<and>
     (case evd_reservation e of None \<Rightarrow> False | Some h \<Rightarrow> rsv_state h = Held)"

definition stage_reconcile :: "('a proof_page_scheme, unit) prog" where
  "stage_reconcile =
     bind the_run (\<lambda>r.
     bind (defined (run_batch r)) (\<lambda>b.
     bind (observe (accepted_ids b)) (\<lambda>rows.
     seq (update_run (\<lambda>r. r\<lparr>run_initial := Some rows\<rparr>))
     (seq (assert (play_outcome rows = ''duplicate,settled'')
             ''Expected one settlement and one duplicate for play A.'')
      (bind (defined (array_at rows 2)) (\<lambda>e.
        assert (kept_hold e) ''Unsupported evidence did not preserve the held budget.''))))))"

definition correction_request :: "receipt \<Rightarrow> http_request" where
  "correction_request c = post_request ''/api/v1/receipts'' (P_receipt c)"

definition stage_correct :: "('a proof_page_scheme, unit) prog" where
  "stage_correct =
     bind the_run (\<lambda>r.
     bind (defined (run_correction r)) (\<lambda>c.
     bind (bind (request (correction_request c)) (shaped as_accepted)) (\<lambda>a.
       update_run (\<lambda>r. r\<lparr>run_corrected := Some (fst a)\<rparr>))))"

text \<open>The \<open>Map\<close> from reservation identifiers to reservations: a later entry replaces an earlier one.\<close>

definition reservation_map :: "evidence list \<Rightarrow> (string option \<times> reservation option) list" where
  "reservation_map rows =
     (let entries = map (\<lambda>e. (map_option rsv_id (evd_reservation e), evd_reservation e)) rows
      in map (\<lambda>k. (k, the (map_of (rev entries) k))) (remdups (map fst entries)))"

definition one_cent_settled :: "reservation option \<Rightarrow> bool" where
  "one_cent_settled x \<longleftrightarrow> (case x of None \<Rightarrow> False | Some h \<Rightarrow> rsv_state h = RSettled \<and> rsv_cost h = 10000)"

definition two_settled :: "evidence list \<Rightarrow> bool" where
  "two_settled rows \<longleftrightarrow> length (reservation_map rows) = 2 \<and>
     list_all one_cent_settled (map snd (reservation_map rows))"

definition kept_quarantine :: "evidence \<Rightarrow> bool" where
  "kept_quarantine e \<longleftrightarrow> rcp_version (dlv_receipt (evd_delivery e)) = 99 \<and>
     dlv_status (evd_delivery e) = Quarantined"

definition stage_verify :: "('a proof_page_scheme, unit) prog" where
  "stage_verify =
     bind the_run (\<lambda>r.
     bind (defined (run_batch r)) (\<lambda>b.
     bind (defined (run_corrected r)) (\<lambda>c.
     bind (observe (accepted_ids b @ [c])) (\<lambda>rows.
     seq (update_run (\<lambda>r. r\<lparr>run_final := Some rows\<rparr>))
     (bind (defined (array_at rows 3)) (\<lambda>e3.
      seq (assert (dlv_status (evd_delivery e3) = Settled) ''Corrected evidence did not settle play B.'')
      (bind (defined (array_at rows 2)) (\<lambda>e2.
       seq (assert (kept_quarantine e2) ''Original quarantine was changed.'')
       (seq (assert (play_outcome rows = ''duplicate,settled'') ''Play A outcome changed.'')
        (seq (assert (two_settled rows) ''Expected exactly two settled one-cent reservations.'')
         (bind (gets clock) (\<lambda>now. update_run (\<lambda>r. r\<lparr>run_completed := Some now\<rparr>)))))))))))))"

subsection \<open>Running them\<close>

definition step :: "nat \<Rightarrow> ('a proof_page_scheme, unit) prog \<Rightarrow> ('a proof_page_scheme, unit) prog" where
  "step i fn =
     bind the_run (\<lambda>r.
       if is_done r i then ret ()
       else seq (update_run (\<lambda>r. r\<lparr>run_current := i\<rparr>))
         (seq (modify (\<lambda>s. s\<lparr>pf_message := snd (snd (stages ! i))\<rparr>))
          (seq fn
           (bind (gets clock) (\<lambda>now.
            seq (update_run (\<lambda>r. r\<lparr>run_steps := (run_steps r)[i := Some now]\<rparr>))
                (modify save))))))"

fun fresh_uuids :: "nat \<Rightarrow> ('a page_scheme, string list) prog" where
  "fresh_uuids 0 = ret []"
| "fresh_uuids (Suc n) = bind random_uuid (\<lambda>u. bind (fresh_uuids n) (\<lambda>us. ret (u # us)))"

definition new_run :: "string \<Rightarrow> ('a proof_page_scheme, unit) prog" where
  "new_run campaign =
     bind (bind (request snapshot_request) (shaped as_snapshot)) (\<lambda>sn.
       case (array_find (\<lambda>c. (campaign = [] \<or> cmp_id c = campaign) \<and> 20000 \<le> available c)
               (snp_campaigns sn), snp_screens sn) of
         (Some c, scr # _) \<Rightarrow>
           bind random_uuid (\<lambda>i.
           bind (gets clock) (\<lambda>now.
           bind (gets runtime) (\<lambda>rt.
           bind (fresh_uuids 2) (\<lambda>ks.
           bind (fresh_uuids 4) (\<lambda>es.
             modify (\<lambda>s. save (s\<lparr>pf_run := Some
               \<lparr>run_id = i, run_started = now, run_storage = rt_storage rt,
                run_transport = rt_transport rt, plan_campaign = cmp_id c, plan_screen = scr_id scr,
                plan_keys = ks, plan_events = es, run_steps = replicate 6 None, run_current = 0,
                run_holds = [], run_payload = [], run_correction = None, run_batch = None,
                run_replay = None, run_initial = None, run_corrected = None, run_final = None,
                run_completed = None, run_last_error = None\<rparr>\<rparr>)))))))
       | _ \<Rightarrow> throw (js_err ''The requested campaign has insufficient available budget, or no campaign is available. This run requires $0.02.''))"

definition six_steps :: "('a proof_page_scheme, unit) prog" where
  "six_steps = seq (step 0 stage_reserve) (seq (step 1 stage_accept) (seq (step 2 stage_retry)
     (seq (step 3 stage_reconcile) (seq (step 4 stage_correct) (step 5 stage_verify)))))"

definition needs_new_run :: "proof_run option \<Rightarrow> bool" where
  "needs_new_run r = (case r of None \<Rightarrow> True | Some x \<Rightarrow> all_done x)"

definition execute_body :: "string comparator \<Rightarrow> string \<Rightarrow> ('a proof_page_scheme, unit) prog" where
  "execute_body collate campaign =
     bind (gets pf_run) (\<lambda>r.
     seq (if needs_new_run r then new_run campaign else ret ())
     (seq six_steps
      (seq (modify (\<lambda>s. s\<lparr>pf_message :=
              ''All six stages verified against persisted receipt and reservation records.''\<rparr>))
           (refresh collate))))"

definition run_failed :: "js_error \<Rightarrow> 'a proof_page_scheme \<Rightarrow> 'a proof_page_scheme" where
  "run_failed e s =
     (let m = err_message e @ '' Resume keeps the same identities; existing work is not discarded.'';
          s1 = s\<lparr>pf_message := m\<rparr>
      in case pf_run s of None \<Rightarrow> s1
         | Some r \<Rightarrow> save (s1\<lparr>pf_run := Some (r\<lparr>run_last_error := Some m\<rparr>)\<rparr>))"

definition execute :: "string comparator \<Rightarrow> string \<Rightarrow> ('a proof_page_scheme, unit) prog" where
  "execute collate campaign s =
     (if pf_running s \<or> \<not> rt_demo (runtime s) then Return s ()
      else try_finally
        (try_catch (execute_body collate campaign) (\<lambda>e. modify (run_failed e)))
        (\<lambda>s1. s1\<lparr>pf_running := False\<rparr>)
        (s\<lparr>pf_running := True\<rparr>))"

text \<open>The button of the overview, which opens the inline panel and runs the proof.\<close>

definition overview_proof :: "string comparator \<Rightarrow> ('a proof_page_scheme, unit) prog" where
  "overview_proof collate s =
     (if rt_demo (runtime s) then execute collate [] (render collate (s\<lparr>overview_proof_open := True\<rparr>))
      else Return s ())"

definition proof_handlers :: "string comparator \<Rightarrow> ('a proof_page_scheme, unit) prog set" where
  "proof_handlers collate = range (execute collate) \<union> {overview_proof collate}"

text \<open>What a card shows for a stage, and the rows of the evidence table.\<close>

datatype card = Verified | Running | Pending

definition card_state :: "'a proof_page_scheme \<Rightarrow> nat \<Rightarrow> card" where
  "card_state s i = (case pf_run s of
     None \<Rightarrow> Pending
   | Some r \<Rightarrow> if is_done r i then Verified else if pf_running s \<and> run_current r = i then Running else Pending)"

definition evidence_rows :: "proof_run option \<Rightarrow> evidence list" where
  "evidence_rows r = (case r of None \<Rightarrow> []
     | Some x \<Rightarrow> (case run_final x of Some rows \<Rightarrow> rows
         | None \<Rightarrow> (case run_initial x of Some rows \<Rightarrow> rows | None \<Rightarrow> [])))"

definition fresh_proof :: proof_page where
  "fresh_proof = intake_page.extend fresh_intake \<lparr>pf_run = None, pf_running = False,
     pf_message = [], pf_storage_warning = []\<rparr>"

lemmas fresh_proof_simps = fresh_proof_def intake_page.defs fresh_intake_simps

end
