(* ===== verification/ProofRuns.thy ===== *)
theory ProofRuns
  imports LiveProof
begin

text \<open>
  What a live proof run guarantees: the invariant of a run (stages are verified in order and each
  verified stage has the evidence its assertions ask for), its preservation through every
  suspension of \<open>execute\<close>, the identities of a resumed run, and the polling loop.
\<close>

subsection \<open>The invariant of a run\<close>

definition mixed_ok :: "batch_response \<Rightarrow> bool" where
  "mixed_ok b \<longleftrightarrow> bat_accepted b = 3 \<and> bat_rejected b = 1 \<and>
     (\<exists>r. array_at (bat_results b) 3 = Some r \<and> brs_status r = 400)"

definition initial_ok :: "evidence list \<Rightarrow> bool" where
  "initial_ok rows \<longleftrightarrow> play_outcome rows = ''duplicate,settled'' \<and>
     (\<exists>e. array_at rows 2 = Some e \<and> kept_hold e)"

definition final_ok :: "evidence list \<Rightarrow> bool" where
  "final_ok rows \<longleftrightarrow> play_outcome rows = ''duplicate,settled'' \<and>
     (\<exists>e. array_at rows 2 = Some e \<and> kept_quarantine e) \<and>
     (\<exists>e. array_at rows 3 = Some e \<and> dlv_status (evd_delivery e) = Settled) \<and> two_settled rows"

definition stage_ok :: "nat \<Rightarrow> proof_run \<Rightarrow> bool" where
  "stage_ok i r \<longleftrightarrow>
     (if i = 0 then \<exists>a b. run_holds r = [a, b] \<and> run_payload r = plan_payload r a b \<and>
        run_correction r = Some (plan_receipt r 3 b 1)
      else if i = 1 then \<exists>b. run_batch r = Some b \<and> mixed_ok b
      else if i = 2 then \<exists>b p. run_batch r = Some b \<and> run_replay r = Some p \<and> mixed_ok p \<and>
        bat_replayed p = 3 \<and> same_ids p b
      else if i = 3 then \<exists>rows. run_initial r = Some rows \<and> initial_ok rows
      else if i = 4 then run_corrected r \<noteq> None
      else if i = 5 then run_completed r \<noteq> None \<and> (\<exists>rows. run_final r = Some rows \<and> final_ok rows)
      else True)"

definition run_ok :: "proof_run \<Rightarrow> bool" where
  "run_ok r \<longleftrightarrow> length (run_steps r) = 6 \<and> length (plan_keys r) = 2 \<and>
     (\<forall>i < 6. is_done r i \<longrightarrow> stage_ok i r \<and> (\<forall>j < i. is_done r j))"

type_synonym proof_plan = "string \<times> string \<times> string \<times> string list \<times> string list"

definition plan_of :: "proof_run \<Rightarrow> proof_plan" where
  "plan_of r = (run_id r, plan_campaign r, plan_screen r, plan_keys r, plan_events r)"

record proof_vars =
  pv_running :: bool
  pv_run :: "proof_run option"

definition proof_own :: "'a proof_page_scheme \<Rightarrow> proof_vars" where
  "proof_own s = \<lparr>pv_running = pf_running s, pv_run = pf_run s\<rparr>"

text \<open>
  The run has the plan and at least as many verified stages as \<open>p\<close> says, and has verified the
  stages before \<open>i\<close>; at stage \<open>i\<close>, that one not yet.
\<close>

definition reached :: "proof_plan \<times> nat \<Rightarrow> nat \<Rightarrow> proof_vars \<Rightarrow> bool" where
  "reached p i v \<longleftrightarrow> pv_running v \<and>
     (\<exists>r. pv_run v = Some r \<and> run_ok r \<and> plan_of r = fst p \<and> (\<forall>j < snd p. is_done r j) \<and> (\<forall>j < i. is_done r j))"

definition at_stage :: "proof_plan \<times> nat \<Rightarrow> nat \<Rightarrow> proof_vars \<Rightarrow> bool" where
  "at_stage p i v \<longleftrightarrow> reached p i v \<and> (\<exists>r. pv_run v = Some r \<and> \<not> is_done r i)"

text \<open>Every write of a run belongs to its plan and to the stages that precede it.\<close>

definition proof_sends :: "awaiting \<Rightarrow> proof_vars \<Rightarrow> bool" where
  "proof_sends q v \<longleftrightarrow> (case q of
     Fetch rq \<Rightarrow> rq_post rq \<longrightarrow> (\<exists>r. pv_run v = Some r \<and>
        (rq_path rq = ''/api/v1/reservations'' \<and> rq_body rq = P_reservation_input (plan_input r) \<and>
           (\<exists>k \<in> set (plan_keys r). rq_key rq = Some k) \<or>
         rq_path rq = ''/api/v1/receipts/batch'' \<and> rq_body rq = P_batch (run_payload r) \<and> is_done r 0 \<or>
         rq_path rq = ''/api/v1/receipts'' \<and> is_done r 3 \<and>
           (\<exists>c. run_correction r = Some c \<and> rq_body rq = P_receipt c)))
   | _ \<Rightarrow> True)"

lemma proof_sends_get: "for_request (get_request p) q \<Longrightarrow> proof_sends q v"
  by (auto simp: for_request_def proof_sends_def)

lemma proof_sends_reads [simp]:
  "for_refresh q \<Longrightarrow> proof_sends q v" "for_request snapshot_request q \<Longrightarrow> proof_sends q v"
  "for_request (delivery_request i) q \<Longrightarrow> proof_sends q v" "proof_sends (Sleep n) v"
  "proof_sends (ReadBody rq) v"
  by (auto simp: for_refresh_def snapshot_request_def runtime_request_def delivery_request_def
      proof_sends_get) (simp_all add: proof_sends_def)

subsection \<open>Small steps of a stage\<close>

lemma proof_own_sel [simp]:
  "pv_running (proof_own s) = pf_running s" "pv_run (proof_own s) = pf_run s"
  by (simp_all add: proof_own_def)

lemma proof_own_eq: "proof_own s' = proof_own s \<longleftrightarrow> pf_running s' = pf_running s \<and> pf_run s' = pf_run s"
  by (auto simp: proof_own_def)

lemma page_frame_proof: "page_frame proof_own"
  by (simp add: page_frame_def proof_own_def remember_def set_item_def reload_def clear_def
      remove_item_def set_local_def run_keys_def Let_def)

lemma console_frame_proof: "console_frame proof_own"
  by (rule console_frameI [OF page_frame_proof]) (simp_all add: proof_own_def)

lemma save_sel [simp]: "pf_run (save s) = pf_run s" "pf_running (save s) = pf_running s"
  by (simp_all add: save_def set_item_def)

lemma the_run_bind: "pf_run s = Some r \<Longrightarrow> bind the_run f s = f r s"
  by (simp add: bind_def the_run_def)

lemma update_run_seq: "seq (update_run f) n s = n (s\<lparr>pf_run := map_option f (pf_run s)\<rparr>)"
  by (simp add: seq_def update_run_def modify_def)

lemma defined_bind:
  "bind (defined x) f s = (case x of None \<Rightarrow> Throw s type_error | Some v \<Rightarrow> f v s)"
  by (simp add: bind_def defined_def async_simps split: option.split)

lemma assert_seq: "seq (assert b m) n s = (if b then n s else Throw s (js_err m))"
  by (simp add: seq_def assert_def async_simps)

lemma assert_run: "assert b m s = (if b then Return s () else Throw s (js_err m))"
  by (simp add: assert_def async_simps)

lemma gets_bind: "bind (gets g) f s = f (g s) s"
  by (simp add: bind_def gets_def)

lemma modify_seq: "seq (modify f) n s = n (f s)"
  by (simp add: seq_def modify_def)

lemma update_run_run: "update_run f s = Return (s\<lparr>pf_run := map_option f (pf_run s)\<rparr>) ()"
  by (simp add: update_run_def modify_def)

lemmas stage_simps = the_run_bind update_run_seq defined_bind assert_seq assert_run gets_bind
  modify_seq update_run_run

text \<open>An update that leaves the plan, the marks and the evidence of earlier stages.\<close>

definition touches :: "nat \<Rightarrow> (proof_run \<Rightarrow> proof_run) \<Rightarrow> bool" where
  "touches i f \<longleftrightarrow> (\<forall>r. run_steps (f r) = run_steps r \<and> plan_of (f r) = plan_of r \<and>
     (\<forall>j < i. stage_ok j (f r) = stage_ok j r))"

lemma is_done_cong: "run_steps r' = run_steps r \<Longrightarrow> is_done r' = is_done r"
  by (simp add: is_done_def fun_eq_iff)

lemma at_stage_before:
  "run_ok r \<Longrightarrow> \<not> is_done r i \<Longrightarrow> is_done r j \<Longrightarrow> i < 6 \<Longrightarrow> j < i"
  by (metis is_done_def linorder_neqE_nat run_ok_def)

lemma at_stage_update:
  assumes "at_stage p i (proof_own s)" and "touches i f" and "i < 6"
  shows "at_stage p i (proof_own (s\<lparr>pf_run := map_option f (pf_run s)\<rparr>))"
proof -
  from assms(1) obtain r where r: "pf_run s = Some r" "run_ok r" "plan_of r = fst p"
    "\<forall>j < i. is_done r j" "\<not> is_done r i" "pf_running s" "\<forall>j < snd p. is_done r j"
    by (auto simp: at_stage_def reached_def)
  from assms(2) have f: "run_steps (f r) = run_steps r" "plan_of (f r) = plan_of r"
    "\<And>j. j < i \<Longrightarrow> stage_ok j (f r) = stage_ok j r" by (auto simp: touches_def)
  note d = is_done_cong [OF f(1)]
  have "stage_ok j (f r)" if "is_done r j" "j < 6" for j
    using that f(3) at_stage_before [OF r(2,5) that(1) assms(3)] r(2) by (auto simp: run_ok_def)
  then have "run_ok (f r)" using r(2) f(1,2) by (auto simp: run_ok_def d plan_of_def)
  with r f show ?thesis by (auto simp: at_stage_def reached_def d)
qed

lemma at_stage_own: "at_stage p i (proof_own s) \<Longrightarrow> proof_own s' = proof_own s \<Longrightarrow> at_stage p i (proof_own s')"
  by simp

lemma at_stage_run:
  assumes "at_stage p i (proof_own s)"
  obtains r where "pf_run s = Some r" "run_ok r" "plan_of r = fst p" "\<forall>j < i. is_done r j" "\<not> is_done r i"
  using assms by (auto simp: at_stage_def reached_def)

abbreviation "keeps_stage p i ans Q \<equiv>
  keeps proof_own (\<lambda>q v. at_stage p i v \<and> proof_sends q v) ans Q (\<lambda>_. at_stage p i)"

abbreviation "finished_stage p i \<equiv>
  (\<lambda>v. at_stage p i v \<and> (\<exists>r. pv_run v = Some r \<and> stage_ok i r))"

subsection \<open>The stages\<close>

lemma plan_receipt_frame [simp]:
  "plan_receipt (run_payload_update f r) i h v = plan_receipt r i h v"
  "plan_receipt (run_correction_update g r) i h v = plan_receipt r i h v"
  "plan_payload (run_payload_update f r) a b = plan_payload r a b"
  "plan_payload (run_correction_update g r) a b = plan_payload r a b"
  by (simp_all add: plan_receipt_def plan_payload_def)

lemma keeps_reserve_holds:
  fixes s :: "'a proof_page_scheme"
  assumes "at_stage p 0 (proof_own s)" and "set ks \<subseteq> set (fst (snd (snd (snd (fst p)))))"
    and "pf_run s = Some r" and "length (run_holds r) = n"
  shows "keeps_stage p 0 ans
    (\<lambda>_ v. at_stage p 0 v \<and> (\<exists>r. pv_run v = Some r \<and> length (run_holds r) = n + length ks))
    (reserve_holds ks s)"
  using assms
proof (induction ks arbitrary: s r n)
  case Nil
  then show ?case by (simp add: ret_def)
next
  case (Cons k ks)
  have r: "plan_of r = fst p" using Cons.prems(1,3) by (auto elim: at_stage_run)
  then have k: "k \<in> set (plan_keys r)" using Cons.prems(2) by (auto simp: plan_of_def dest: sym)
  let ?f = "\<lambda>h r. r\<lparr>run_holds := run_holds r @ [h]\<rparr>"
  have "keeps_stage p 0 ans
     (\<lambda>_ v. at_stage p 0 v \<and> (\<exists>r. pv_run v = Some r \<and> length (run_holds r) = n + length (k # ks)))
     (seq (update_run (?f h)) (reserve_holds ks) s')" if "proof_own s' = proof_own s"
    for h and s' :: "'a proof_page_scheme"
  proof -
    have "at_stage p 0 (proof_own (s'\<lparr>pf_run := map_option (?f h) (pf_run s')\<rparr>))"
      using Cons.prems(1) that by (intro at_stage_update) (auto simp: touches_def plan_of_def)
    then show ?thesis
      using Cons.IH [of "s'\<lparr>pf_run := map_option (?f h) (pf_run s')\<rparr>" "?f h r" "Suc n"] Cons.prems that
      by (auto simp: update_run_seq proof_own_eq)
  qed
  moreover have "at_stage p 0 (proof_own s) \<and> proof_sends q (proof_own s)"
    if "for_request (plan_request r k) q" for q
    using that k Cons.prems(1,3)
    by (auto simp: for_request_def proof_sends_def plan_request_def reserve_request_def)
  ultimately show ?case using Cons.prems(1,3)
    by (auto simp: the_run_bind intro!: keeps_bindI [where m = "bind (request _) (shaped _)"]
        keeps_shaped [OF page_frame_proof])
qed

lemma keeps_stage_reserve:
  fixes s :: "'a proof_page_scheme"
  assumes "at_stage p 0 (proof_own s)"
  shows "keeps_stage p 0 ans (\<lambda>_. finished_stage p 0) (stage_reserve s)"
proof -
  obtain r where r: "pf_run s = Some r" "run_ok r" "plan_of r = fst p" using assms by (rule at_stage_run)
  let ?s1 = "s\<lparr>pf_run := Some (r\<lparr>run_holds := []\<rparr>)\<rparr>"
  have s1: "at_stage p 0 (proof_own ?s1)"
    using at_stage_update [OF assms, of "\<lambda>r. r\<lparr>run_holds := []\<rparr>"] r(1)
    by (simp add: touches_def plan_of_def)
  have ks: "plan_keys r = fst (snd (snd (snd (fst p))))" "length (plan_keys r) = 2"
    using r(2) by (simp_all add: run_ok_def plan_of_def flip: r(3))
  have built: "at_stage p 0 (proof_own (s'\<lparr>pf_run := Some (r'\<lparr>run_payload := plan_payload r' a b,
        run_correction := Some (plan_receipt r' 3 b 1)\<rparr>)\<rparr>))"
    if "at_stage p 0 (proof_own s')" "pf_run s' = Some r'" for s' :: "'a proof_page_scheme" and r' a b
    using at_stage_update [OF that(1), of "\<lambda>r'. r'\<lparr>run_payload := plan_payload r' a b,
        run_correction := Some (plan_receipt r' 3 b 1)\<rparr>"] that(2)
    by (simp add: touches_def plan_of_def)
  have "keeps_stage p 0 ans (\<lambda>_. finished_stage p 0)
     (seq (reserve_holds (plan_keys r))
      (bind the_run (\<lambda>r.
       bind (defined (array_at (run_holds r) 0)) (\<lambda>a.
       bind (defined (array_at (run_holds r) 1)) (\<lambda>b.
         update_run (\<lambda>r. r\<lparr>run_payload := plan_payload r a b,
           run_correction := Some (plan_receipt r 3 b 1)\<rparr>))))) ?s1)"
  proof (rule keeps_seq, rule keeps_reserve_holds [OF s1, where n = 0])
    fix u and s' :: "'a proof_page_scheme"
    assume "at_stage p 0 (proof_own s') \<and> (\<exists>r'. pv_run (proof_own s') = Some r' \<and>
      length (run_holds r') = 0 + length (plan_keys r))"
    then obtain r' where s': "at_stage p 0 (proof_own s')" "pf_run s' = Some r'" "length (run_holds r') = 2"
      using ks(2) by auto
    then obtain a b where ab: "run_holds r' = [a, b]"
      by (auto simp: numeral_2_eq_2 length_Suc_conv)
    with s' built [OF s'(1,2), where a = a and b = b] show "keeps_stage p 0 ans (\<lambda>_. finished_stage p 0)
      (bind the_run (\<lambda>r.
       bind (defined (array_at (run_holds r) 0)) (\<lambda>a.
       bind (defined (array_at (run_holds r) 1)) (\<lambda>b.
         update_run (\<lambda>r. r\<lparr>run_payload := plan_payload r a b,
           run_correction := Some (plan_receipt r 3 b 1)\<rparr>)))) s')"
      by (simp add: stage_simps stage_ok_def)
  qed (use ks in auto)
  then show ?thesis using r(1) by (simp add: stage_reserve_def stage_simps)
qed


text \<open>A batch whose outcome is as expected, sent while its payload is the run's.\<close>

lemma keeps_mixed_batch:
  assumes "at_stage p i (proof_own s)" and "pf_run s = Some r" and "is_done r 0"
    and "\<And>b. mixed_ok b \<Longrightarrow> Q b (proof_own s)"
  shows "keeps_stage p i ans Q (mixed_batch (run_payload r) s)"
proof -
  have sent: "at_stage p i (proof_own s) \<and> proof_sends q (proof_own s)"
    if "for_request (batch_request (run_payload r)) q" for q
    using that assms(1-3) by (auto simp: for_request_def proof_sends_def batch_request_def)
  show ?thesis unfolding mixed_batch_def
    by (rule keeps_bindI, rule keeps_send [OF page_frame_proof])
       (use sent assms(1,4) in \<open>auto intro!: keeps_bindI keeps_read_json split: option.split
         simp: stage_simps async_simps(1,2) mixed_ok_def\<close>)
qed

lemma keeps_stage_accept:
  fixes s :: "'a proof_page_scheme"
  assumes "at_stage p 1 (proof_own s)"
  shows "keeps_stage p 1 ans (\<lambda>_. finished_stage p 1) (stage_accept s)"
proof -
  obtain r where r: "pf_run s = Some r" "\<forall>j < 1. is_done r j" using assms by (rule at_stage_run) auto
  have "at_stage p 1 (proof_own (s'\<lparr>pf_run := map_option (\<lambda>r. r\<lparr>run_batch := Some b\<rparr>) (pf_run s')\<rparr>))"
    if "proof_own s' = proof_own s" for b and s' :: "'a proof_page_scheme"
    using assms that by (intro at_stage_update) (auto simp: touches_def plan_of_def stage_ok_def
      plan_payload_def plan_receipt_def)
  then show ?thesis using r assms
    by (auto simp: stage_accept_def stage_simps stage_ok_def proof_own_eq
        intro!: keeps_bindI [where m = "mixed_batch _"] keeps_mixed_batch)
qed

lemma keeps_stage_retry:
  fixes s :: "'a proof_page_scheme"
  assumes "at_stage p 2 (proof_own s)"
  shows "keeps_stage p 2 ans (\<lambda>_. finished_stage p 2) (stage_retry s)"
proof -
  obtain r where r: "pf_run s = Some r" "\<forall>j < 2. is_done r j" using assms by (rule at_stage_run) auto
  have "at_stage p 2 (proof_own (s'\<lparr>pf_run := map_option (\<lambda>r. r\<lparr>run_replay := Some b\<rparr>) (pf_run s')\<rparr>))"
    if "proof_own s' = proof_own s" for b and s' :: "'a proof_page_scheme"
    using assms that by (intro at_stage_update) (auto simp: touches_def plan_of_def stage_ok_def
      plan_payload_def plan_receipt_def)
  then show ?thesis using r assms
    by (auto simp: stage_retry_def stage_simps stage_ok_def proof_own_eq split: option.split
        intro!: keeps_bindI [where m = "mixed_batch _"] keeps_mixed_batch)
qed

lemma keeps_read_rows:
  fixes s :: "'a proof_page_scheme"
  assumes "at_stage p i (proof_own s)" and "\<And>rows. Q rows (proof_own s)"
  shows "keeps_stage p i ans Q (read_rows ids s)"
  using assms
proof (induction ids arbitrary: s Q)
  case Nil
  then show ?case by (simp add: ret_def)
next
  case (Cons x ids)
  have "keeps_stage p i ans Q (bind (read_rows ids) (\<lambda>es. ret (e # es)) s')"
    if "proof_own s' = proof_own s" for e and s' :: "'a proof_page_scheme"
    by (rule keeps_bindI, rule Cons.IH) (use that Cons.prems in \<open>auto simp: ret_def\<close>)
  with Cons.prems show ?case
    by (auto intro!: keeps_bindI [where m = "bind (request _) (shaped _)"] keeps_shaped [OF page_frame_proof])
qed

lemma keeps_observe:
  fixes s :: "'a proof_page_scheme"
  assumes "at_stage p i (proof_own s)" and "\<And>rows. Q rows (proof_own s)"
  shows "keeps_stage p i ans Q (observe ids s)"
proof -
  have "keeps_stage p i ans Q (observe_until n d ids s')" if "proof_own s' = proof_own s"
    for n d and s' :: "'a proof_page_scheme"
    using that
  proof (induction n arbitrary: s')
    case 0
    with assms show ?case by (simp add: throw_def)
  next
    case (Suc n)
    have "keeps_stage p i ans Q (seq (await (Sleep poll_interval)) (observe_until n d ids) s1)"
      if "proof_own s1 = proof_own s" for s1 :: "'a proof_page_scheme"
      using that assms(1) Suc.IH by (auto simp: seq_def await_def)
    with Suc.prems assms show ?case
      by (auto intro!: keeps_bindI [where m = "read_rows _"] keeps_read_rows
          simp: gets_bind ret_def throw_def)
  qed
  then show ?thesis by (simp add: observe_def gets_bind)
qed

lemma keeps_stage_reconcile:
  fixes s :: "'a proof_page_scheme"
  assumes "at_stage p 3 (proof_own s)"
  shows "keeps_stage p 3 ans (\<lambda>_. finished_stage p 3) (stage_reconcile s)"
proof -
  obtain r where r: "pf_run s = Some r" using assms by (rule at_stage_run)
  have "at_stage p 3 (proof_own (s'\<lparr>pf_run := map_option (\<lambda>r. r\<lparr>run_initial := Some b\<rparr>) (pf_run s')\<rparr>))"
    if "proof_own s' = proof_own s" for b and s' :: "'a proof_page_scheme"
    using assms that by (intro at_stage_update) (auto simp: touches_def plan_of_def stage_ok_def
      plan_payload_def plan_receipt_def)
  then show ?thesis using r assms
    by (auto simp: stage_reconcile_def stage_simps stage_ok_def initial_ok_def proof_own_eq split: option.split
        intro!: keeps_bindI [where m = "observe _"] keeps_observe)
qed

lemma keeps_stage_correct:
  fixes s :: "'a proof_page_scheme"
  assumes "at_stage p 4 (proof_own s)"
  shows "keeps_stage p 4 ans (\<lambda>_. finished_stage p 4) (stage_correct s)"
proof -
  obtain r where r: "pf_run s = Some r" "\<forall>j < 4. is_done r j" using assms by (rule at_stage_run) auto
  have "at_stage p 4 (proof_own (s'\<lparr>pf_run := map_option (\<lambda>r. r\<lparr>run_corrected := Some b\<rparr>) (pf_run s')\<rparr>))"
    if "proof_own s' = proof_own s" for b and s' :: "'a proof_page_scheme"
    using assms that by (intro at_stage_update) (auto simp: touches_def plan_of_def stage_ok_def
      plan_payload_def plan_receipt_def)
  moreover have "proof_sends q (proof_own s)"
    if "run_correction r = Some c" "for_request (correction_request c) q" for c q
    using that r by (auto simp: for_request_def proof_sends_def correction_request_def)
  ultimately show ?thesis using r assms
    by (auto simp: stage_correct_def stage_simps stage_ok_def proof_own_eq split: option.split
        intro!: keeps_bindI [where m = "bind (request _) (shaped _)"] keeps_shaped [OF page_frame_proof])
qed

lemma keeps_stage_verify:
  fixes s :: "'a proof_page_scheme"
  assumes "at_stage p 5 (proof_own s)"
  shows "keeps_stage p 5 ans (\<lambda>_. finished_stage p 5) (stage_verify s)"
proof -
  obtain r where r: "pf_run s = Some r" using assms by (rule at_stage_run)
  have upd: "at_stage p 5 (proof_own (s'\<lparr>pf_run := map_option f (pf_run s')\<rparr>))"
    if "at_stage p 5 (proof_own s')" "f \<in> {\<lambda>r. r\<lparr>run_final := Some b\<rparr>, \<lambda>r. r\<lparr>run_completed := Some t\<rparr>}"
    for b t f and s' :: "'a proof_page_scheme"
    using that by (intro at_stage_update) (auto simp: touches_def plan_of_def stage_ok_def
      plan_payload_def plan_receipt_def)
  have both: "at_stage p 5 (proof_own (s'\<lparr>pf_run := Some (r\<lparr>run_final := Some b\<rparr>)\<rparr>))"
    "at_stage p 5 (proof_own (s'\<lparr>pf_run := Some (r\<lparr>run_final := Some b, run_completed := Some t\<rparr>)\<rparr>))"
    if "proof_own s' = proof_own s" for b t and s' :: "'a proof_page_scheme"
    using upd [of s' "\<lambda>r. r\<lparr>run_final := Some b\<rparr>"]
      upd [of "s'\<lparr>pf_run := Some (r\<lparr>run_final := Some b\<rparr>)\<rparr>" "\<lambda>r. r\<lparr>run_completed := Some t\<rparr>"]
      that r assms by (auto simp: proof_own_eq)
  show ?thesis using r assms both
    by (auto simp: stage_verify_def stage_simps stage_ok_def final_ok_def proof_own_eq split: option.split
        intro!: keeps_bindI [where m = "observe _"] keeps_observe)
qed

subsection \<open>The whole run\<close>

abbreviation "keeps_run p ans Q \<equiv>
  keeps proof_own (\<lambda>q v. reached p 0 v \<and> proof_sends q v) ans Q (\<lambda>_. reached p 0)"

lemma at_stage_reached: "at_stage p i v \<Longrightarrow> reached p 0 v"
  by (auto simp: at_stage_def reached_def)

lemma reached_mono: "reached p i v \<Longrightarrow> reached p 0 v"
  by (auto simp: reached_def)

lemma proof_own_save: "proof_own (save s) = proof_own s"
  by (simp add: proof_own_eq)

lemma is_done_mark:
  "length (run_steps r) = 6 \<Longrightarrow> i < 6 \<Longrightarrow>
   is_done (r\<lparr>run_steps := (run_steps r)[i := Some t]\<rparr>) j \<longleftrightarrow> j = i \<or> is_done r j"
  by (auto simp: is_done_def nth_list_update)

lemma stage_ok_mark [simp]: "stage_ok j (run_steps_update f r) = stage_ok j r"
  by (simp add: stage_ok_def plan_payload_def plan_receipt_def)

lemma reached_mark:
  assumes "finished_stage p i (proof_own s)" and "i < 6"
  shows "reached p (Suc i) (proof_own
    (s\<lparr>pf_run := map_option (\<lambda>r. r\<lparr>run_steps := (run_steps r)[i := Some t]\<rparr>) (pf_run s)\<rparr>))"
proof -
  from assms(1) obtain r where r: "pf_run s = Some r" "run_ok r" "plan_of r = fst p" "\<forall>j < i. is_done r j"
    "stage_ok i r" "pf_running s" "\<forall>j < snd p. is_done r j" by (auto simp: at_stage_def reached_def)
  let ?r = "r\<lparr>run_steps := (run_steps r)[i := Some t]\<rparr>"
  have len: "length (run_steps r) = 6" using r(2) by (simp add: run_ok_def)
  note d = is_done_mark [OF len assms(2), of t]
  have "run_ok ?r" unfolding run_ok_def d using r(2,4,5) by (auto simp: run_ok_def)
  moreover have "\<forall>j < Suc i. is_done ?r j" "\<forall>j < snd p. is_done ?r j"
    using r(4,7) d by (auto simp: less_Suc_eq)
  moreover have "plan_of ?r = fst p" using r(3) by (simp add: plan_of_def)
  ultimately show ?thesis using r(1,6) by (auto simp: reached_def)
qed

lemma keeps_step:
  fixes s :: "'a proof_page_scheme"
  assumes "reached p i (proof_own s)" and "i < 6"
    and "\<And>s :: 'a proof_page_scheme. at_stage p i (proof_own s) \<Longrightarrow>
      keeps_stage p i ans (\<lambda>_. finished_stage p i) (fn s)"
  shows "keeps_run p ans (\<lambda>_. reached p (Suc i)) (step i fn s)"
proof -
  obtain r where r: "pf_run s = Some r" "\<forall>j < i. is_done r j" using assms(1) by (auto simp: reached_def)
  show ?thesis
  proof (cases "is_done r i")
    case True
    with assms(1) r show ?thesis
      by (auto simp: step_def the_run_bind ret_def reached_def less_Suc_eq)
  next
    case False
    let ?s1 = "s\<lparr>pf_run := Some (r\<lparr>run_current := i\<rparr>), pf_message := snd (snd (stages ! i))\<rparr>"
    have "at_stage p i (proof_own s)" using False assms(1) r by (auto simp: at_stage_def)
    from at_stage_update [OF this, of "\<lambda>r. r\<lparr>run_current := i\<rparr>"] assms(2) r
    have s1: "at_stage p i (proof_own ?s1)"
      by (simp add: touches_def plan_of_def stage_ok_def plan_payload_def plan_receipt_def proof_own_def)
    have fn: "keeps_run p ans (\<lambda>_. finished_stage p i) (fn ?s1)"
      by (rule keeps_mono [OF assms(3) [OF s1]]) (auto intro: at_stage_reached)
    have "keeps_run p ans (\<lambda>_. reached p (Suc i))
       (seq fn (bind (gets clock) (\<lambda>now.
          seq (update_run (\<lambda>r. r\<lparr>run_steps := (run_steps r)[i := Some now]\<rparr>)) (modify save))) ?s1)"
      by (rule keeps_seq, rule fn)
         (simp add: stage_simps modify_def proof_own_save reached_mark [OF _ assms(2)])
    with False r show ?thesis by (simp add: step_def stage_simps)
  qed
qed

lemma keeps_six_steps:
  fixes s :: "'a proof_page_scheme"
  assumes "reached p 0 (proof_own s)"
  shows "keeps_run p ans (\<lambda>_. reached p 6) (six_steps s)"
proof -
  have *: "keeps_run p ans (\<lambda>_. reached p (Suc i)) (step i fn s)"
    if "reached p i (proof_own s)" "(i, fn) \<in> {(0, stage_reserve), (1, stage_accept), (2, stage_retry),
      (3, stage_reconcile), (4, stage_correct), (5, stage_verify)}"
    for i fn and s :: "'a proof_page_scheme"
    using that
    by (intro keeps_step)
       (auto intro: keeps_stage_reserve keeps_stage_accept [unfolded One_nat_def] keeps_stage_retry keeps_stage_reconcile
         keeps_stage_correct keeps_stage_verify)
  have five: "keeps_run p ans (\<lambda>_. reached p 6) (step 5 stage_verify s)"
    if "reached p 5 (proof_own s)" for s :: "'a proof_page_scheme"
    using * [OF that, of stage_verify] by simp
  have four: "keeps_run p ans (\<lambda>_. reached p 6) (seq (step 4 stage_correct) (step 5 stage_verify) s)"
    if "reached p 4 (proof_own s)" for s :: "'a proof_page_scheme"
    by (rule keeps_seq, rule * [OF that]) (simp_all add: five)
  have three: "keeps_run p ans (\<lambda>_. reached p 6) (seq (step 3 stage_reconcile) (seq (step 4 stage_correct) (step 5 stage_verify)) s)"
    if "reached p 3 (proof_own s)" for s :: "'a proof_page_scheme"
    by (rule keeps_seq, rule * [OF that]) (simp_all add: four)
  have two: "keeps_run p ans (\<lambda>_. reached p 6) (seq (step 2 stage_retry) (seq (step 3 stage_reconcile)
      (seq (step 4 stage_correct) (step 5 stage_verify))) s)"
    if "reached p 2 (proof_own s)" for s :: "'a proof_page_scheme"
    by (rule keeps_seq, rule * [OF that]) (simp_all add: three)
  have one: "keeps_run p ans (\<lambda>_. reached p 6) (seq (step 1 stage_accept) (seq (step 2 stage_retry)
      (seq (step 3 stage_reconcile) (seq (step 4 stage_correct) (step 5 stage_verify)))) s)"
    if "reached p 1 (proof_own s)" for s :: "'a proof_page_scheme"
    by (rule keeps_seq, rule * [OF that]) (use two in \<open>simp_all add: numeral_2_eq_2\<close>)
  show ?thesis unfolding six_steps_def
    by (rule keeps_seq, rule * [OF assms]) (use one in simp_all)
qed

definition runs_ok :: "proof_vars \<Rightarrow> bool" where
  "runs_ok v \<longleftrightarrow> (\<forall>r. pv_run v = Some r \<longrightarrow> run_ok r)"

definition proof_env :: "'a proof_page_scheme \<Rightarrow> 'a proof_page_scheme \<Rightarrow> bool" where
  "proof_env s s' \<longleftrightarrow> proof_own s' = proof_own s"

abbreviation "active_run \<equiv> (\<lambda>v. pv_running v \<and> runs_ok v)"

abbreviation "keeps_active ans Q \<equiv>
  keeps proof_own (\<lambda>q v. active_run v \<and> proof_sends q v) ans Q (\<lambda>_. active_run)"

lemma fresh_uuids_form:
  "\<exists>m us. fresh_uuids n s = Return (s\<lparr>uuid_next := m\<rparr>) us \<and> length us = n"
proof (induction n arbitrary: s)
  case 0
  then show ?case by (auto simp: async_simps intro: exI [of _ "uuid_next s"])
next
  case (Suc n)
  obtain m us where "fresh_uuids n (s\<lparr>uuid_next := Suc (uuid_next s)\<rparr>) =
      Return (s\<lparr>uuid_next := Suc (uuid_next s)\<rparr>\<lparr>uuid_next := m\<rparr>) us" "length us = n"
    using Suc.IH by blast
  then show ?case by (auto simp: async_simps)
qed

lemma run_ok_fresh: "length (plan_keys r) = 2 \<Longrightarrow> run_steps r = replicate 6 None \<Longrightarrow> run_ok r"
  by (auto simp: run_ok_def is_done_def)

lemma keeps_new_run:
  fixes s :: "'a proof_page_scheme"
  assumes "active_run (proof_own s)"
  shows "keeps_active ans (\<lambda>_ v. \<exists>p. reached p 0 v) (new_run campaign s)"
proof -
  have made: "keeps_active ans (\<lambda>_ v. \<exists>p. reached p 0 v)
     (bind random_uuid (\<lambda>i. bind (gets clock) (\<lambda>now. bind (gets runtime) (\<lambda>rt.
      bind (fresh_uuids 2) (\<lambda>ks. bind (fresh_uuids 4) (\<lambda>es.
        modify (\<lambda>s. save (s\<lparr>pf_run := Some
               \<lparr>run_id = i, run_started = now, run_storage = rt_storage rt,
                run_transport = rt_transport rt, plan_campaign = cmp_id c, plan_screen = scr_id scr,
                plan_keys = ks, plan_events = es, run_steps = replicate 6 None, run_current = 0,
                run_holds = [], run_payload = [], run_correction = None, run_batch = None,
                run_replay = None, run_initial = None, run_corrected = None, run_final = None,
                run_completed = None, run_last_error = None\<rparr>\<rparr>))))))) s')"
    if "proof_own s' = proof_own s" for s' :: "'a proof_page_scheme" and c scr
  proof -
    let ?s1 = "s'\<lparr>uuid_next := Suc (uuid_next s')\<rparr>"
    obtain m ks where ks: "fresh_uuids 2 ?s1 = Return (?s1\<lparr>uuid_next := m\<rparr>) ks" "length ks = 2"
      using fresh_uuids_form by blast
    obtain n es where es: "fresh_uuids 4 (?s1\<lparr>uuid_next := m\<rparr>) = Return (?s1\<lparr>uuid_next := m\<rparr>\<lparr>uuid_next := n\<rparr>) es"
      using fresh_uuids_form by blast
    from that assms have "pf_running s'" by (simp add: proof_own_eq)
    with ks es show ?thesis
      by (simp add: bind_def random_uuid_def gets_def modify_def reached_def proof_own_save run_ok_fresh plan_of_def)
         (rule exI [of _ 0], simp)
  qed
  show ?thesis unfolding new_run_def
    by (rule keeps_bindI, rule keeps_shaped [OF page_frame_proof])
       (use assms made in \<open>auto simp: throw_def split: option.splits list.splits\<close>)
qed

lemma reached_active: "reached p i v \<Longrightarrow> active_run v"
  by (auto simp: reached_def runs_ok_def)

lemma resumable:
  assumes "active_run (proof_own s)" and "\<not> needs_new_run (pf_run s)"
  obtains r where "pf_run s = Some r" and "reached (plan_of r, 0) 0 (proof_own s)"
  using assms by (auto simp: needs_new_run_def reached_def runs_ok_def split: option.splits)

lemma keeps_rest:
  fixes s :: "'a proof_page_scheme"
  assumes "reached p 0 (proof_own s)"
  shows "keeps proof_own (\<lambda>q v. reached p 0 v \<and> proof_sends q v) ans (\<lambda>_. reached p 6) (\<lambda>_. reached p 0)
    (seq six_steps (seq (modify (\<lambda>s. s\<lparr>pf_message := m\<rparr>)) (refresh collate)) s)"
proof (rule keeps_seq, rule keeps_six_steps [OF assms])
  fix u and s' :: "'a proof_page_scheme" assume "reached p 6 (proof_own s')"
  then have "reached p 6 (proof_own (s'\<lparr>pf_message := m\<rparr>))" by (simp add: proof_own_def)
  then show "keeps_run p ans (\<lambda>_. reached p 6)
      (seq (modify (\<lambda>s. s\<lparr>pf_message := m\<rparr>)) (refresh collate) s')"
    by (auto simp: modify_seq intro!: keeps_refresh [OF console_frame_proof] dest: reached_mono)
qed

lemma keeps_execute_body:
  fixes s :: "'a proof_page_scheme"
  assumes "active_run (proof_own s)"
  shows "keeps_active ans (\<lambda>_. active_run) (execute_body collate campaign s)"
proof -
  let ?rest = "seq six_steps (seq (modify (\<lambda>s. s\<lparr>pf_message :=
      ''All six stages verified against persisted receipt and reservation records.''\<rparr>)) (refresh collate))"
  have rest: "keeps_active ans (\<lambda>_. active_run) (?rest s')"
    if "reached p 0 (proof_own s')" for p and s' :: "'a proof_page_scheme"
    by (rule keeps_mono [OF keeps_rest [OF that]]) (auto dest: reached_active)
  show ?thesis
  proof (cases "needs_new_run (pf_run s)")
    case True
    moreover have "keeps_active ans (\<lambda>_. active_run) (seq (new_run campaign) ?rest s)"
      by (rule keeps_seq, rule keeps_new_run [OF assms]) (use rest in blast)
    ultimately show ?thesis by (simp add: execute_body_def gets_bind)
  next
    case False
    then obtain r where "reached (plan_of r, 0) 0 (proof_own s)" using resumable [OF assms] by metis
    from rest [OF this] False show ?thesis
      by (simp add: execute_body_def gets_bind seq_def [of "ret ()"] ret_def)
  qed
qed

lemma run_failed_own:
  "proof_own (run_failed e s) = proof_own s \<lparr>pv_run := map_option
     (\<lambda>r. r\<lparr>run_last_error := Some (err_message e @ '' Resume keeps the same identities; existing work is not discarded.'')\<rparr>)
     (pf_run s)\<rparr>"
  by (simp add: run_failed_def Let_def proof_own_def split: option.split)

lemma run_ok_last_error [simp]: "run_ok (run_last_error_update f r) = run_ok r"
  by (simp add: run_ok_def is_done_def stage_ok_def plan_payload_def plan_receipt_def)

lemma owns_execute:
  fixes s :: "'a proof_page_scheme"
  assumes "\<not> pf_running s" and "runs_ok (proof_own s)"
  shows "owns proof_own pv_running runs_ok proof_sends ans (execute collate campaign s)"
proof (cases "rt_demo (runtime s)")
  case False
  with assms show ?thesis by (simp add: execute_def owns_def)
next
  case True
  have "active_run (proof_own (s\<lparr>pf_running := True\<rparr>))" using assms by (simp add: runs_ok_def)
  then have "owns proof_own pv_running runs_ok proof_sends ans
     (try_finally (try_catch (execute_body collate campaign) (\<lambda>e. modify (run_failed e)))
       (\<lambda>s1. s1\<lparr>pf_running := False\<rparr>) (s\<lparr>pf_running := True\<rparr>))"
    by (intro owns_try [where G = active_run and H = active_run] keeps_execute_body)
       (auto simp: runs_ok_def run_failed_own)
  with True assms show ?thesis by (simp add: execute_def)
qed

lemma opened_own [simp]:
  "pf_running (render c (s\<lparr>overview_proof_open := True\<rparr>)) = pf_running s"
  "proof_own (render c (s\<lparr>overview_proof_open := True\<rparr>)) = proof_own s"
  by (subst render_form, simp add: proof_own_def)+

interpretation proofs: exclusive "proof_handlers collate" proof_env ans proof_own pv_running runs_ok proof_sends
  for collate ans
proof (unfold_locales, goal_cases)
  case (1 h s)
  then show ?case
    by (auto simp: proof_handlers_def execute_def overview_proof_def)
next
  case (2 h s)
  then show ?case by (auto simp: proof_handlers_def overview_proof_def owns_execute, simp add: owns_def)
next
  case (3 s s')
  then show ?case by (simp add: proof_env_def)
qed

subsection \<open>Properties of runs\<close>

lemma status_sorted:
  "join_comma (sort_key (\<lambda>t. t) [status_name a, status_name b]) = ''duplicate,settled'' \<longleftrightarrow>
   {a, b} = {Duplicate, Settled}"
proof -
  have "\<forall>a \<in> set [Accepted, Settled, Duplicate, Quarantined, Failed].
        \<forall>b \<in> set [Accepted, Settled, Duplicate, Quarantined, Failed].
     join_comma (sort_key (\<lambda>t. t) [status_name a, status_name b]) = ''duplicate,settled'' \<longleftrightarrow>
     {a, b} = {Duplicate, Settled}" by code_simp
  moreover have "x \<in> set [Accepted, Settled, Duplicate, Quarantined, Failed]" for x by (cases x) simp_all
  ultimately show ?thesis by blast
qed

lemma play_outcome_iff:
  "play_outcome rows = ''duplicate,settled'' \<longleftrightarrow> (\<exists>a b rest. rows = a # b # rest \<and>
     {dlv_status (evd_delivery a), dlv_status (evd_delivery b)} = {Duplicate, Settled})"
proof (cases rows)
  case (Cons a as)
  show ?thesis
  proof (cases as)
    case Nil
    then show ?thesis using Cons by (cases "dlv_status (evd_delivery a)") (auto simp: play_outcome_def)
  next
    case (Cons b rest)
    with \<open>rows = a # as\<close> show ?thesis using status_sorted by (simp add: play_outcome_def numeral_2_eq_2)
  qed
qed (simp add: play_outcome_def)


text \<open>Two reservations occur in the rows, and each is read as settled at one cent.\<close>

definition settled_pair :: "evidence list \<Rightarrow> bool" where
  "settled_pair rows \<longleftrightarrow>
     (let ids = (\<lambda>e. map_option rsv_id (evd_reservation e)) ` set rows in
      card ids = 2 \<and> (\<forall>k \<in> ids. \<exists>e \<in> set rows. \<exists>h. evd_reservation e = Some h \<and>
        k = Some (rsv_id h) \<and> rsv_state h = RSettled \<and> rsv_cost h = 10000))"

lemma two_settled_pair:
  assumes "two_settled rows"
  shows "settled_pair rows"
proof -
  let ?keys = "(\<lambda>e. map_option rsv_id (evd_reservation e)) ` set rows"
  define es where "es = map (\<lambda>e. (map_option rsv_id (evd_reservation e), evd_reservation e)) rows"
  have m: "reservation_map rows = map (\<lambda>k. (k, the (map_of (rev es) k))) (remdups (map fst es))"
    by (simp add: reservation_map_def es_def Let_def)
  have fst_es: "set (map fst es) = ?keys" by (force simp: es_def)
  from assms m have "length (remdups (map fst es)) = 2" by (simp add: two_settled_def)
  then have "card ?keys = 2" using fst_es by (metis length_remdups_card_conv)
  moreover have "\<exists>e \<in> set rows. \<exists>h. evd_reservation e = Some h \<and>
    k = Some (rsv_id h) \<and> rsv_state h = RSettled \<and> rsv_cost h = 10000" if k: "k \<in> ?keys" for k
  proof -
    from k fst_es have "k \<in> fst ` set (rev es)" by simp
    then have "map_of (rev es) k \<noteq> None" by (simp add: map_of_eq_None_iff)
    then obtain x where x: "map_of (rev es) k = Some x" by blast
    then have "(k, x) \<in> set es" using map_of_SomeD by fastforce
    then obtain e where e: "e \<in> set rows" "k = map_option rsv_id x" "x = evd_reservation e"
      by (auto simp: es_def)
    have "(k, x) \<in> set (reservation_map rows)" using k x fst_es m by auto
    then have "one_cent_settled x" using assms by (auto simp: two_settled_def list_all_iff)
    then show ?thesis
      using e by (intro bexI [of _ e]) (auto simp: one_cent_settled_def split: option.splits)
  qed
  ultimately show ?thesis by (simp add: settled_pair_def Let_def)
qed

lemma finished_rows:
  assumes "run_ok r" and "all_done r"
  shows "\<exists>a b c d rest. run_final r = Some (a # b # c # d # rest) \<and>
    {dlv_status (evd_delivery a), dlv_status (evd_delivery b)} = {Duplicate, Settled} \<and>
    dlv_status (evd_delivery c) = Quarantined \<and> rcp_version (dlv_receipt (evd_delivery c)) = 99 \<and>
    dlv_status (evd_delivery d) = Settled \<and> settled_pair (a # b # c # d # rest)"
proof -
  have "is_done r 5" using assms
    by (simp add: is_done_def all_done_def list_all_length run_ok_def)
  with assms(1) have "stage_ok 5 r" by (auto simp: run_ok_def)
  then obtain rows where rows: "run_final r = Some rows" "final_ok rows" by (auto simp: stage_ok_def)
  then obtain a b rest' where ab: "rows = a # b # rest'"
    "{dlv_status (evd_delivery a), dlv_status (evd_delivery b)} = {Duplicate, Settled}"
    by (auto simp: final_ok_def play_outcome_iff)
  with rows(2) obtain c d rest where cd: "rest' = c # d # rest" "kept_quarantine c"
    "dlv_status (evd_delivery d) = Settled"
    by (cases rest'; cases "tl rest'") (auto simp: final_ok_def numeral_eq_Suc)
  have "settled_pair (a # b # c # d # rest)"
    using rows(2) ab(1) cd(1) by (intro two_settled_pair) (simp add: final_ok_def)
  with rows(1) ab cd show ?thesis by (auto simp: kept_quarantine_def)
qed

text \<open>
  C1. A finished proof run has its evidence: in every order of clicks, replies and changes of
  other pages, a run whose six stages are all marked as verified holds a final reading in which
  the two events of play A are one settlement and one duplicate, the schema 99 receipt is still
  quarantined, the correction is settled, and exactly two reservations occur, both settled at one
  cent.
\<close>

theorem finished_run_evidence:
  assumes "\<not> pf_running s0" and "\<forall>r0. pf_run s0 = Some r0 \<longrightarrow> run_ok r0"
    and "reaches (proof_handlers collate) proof_env ans s0 (s, ts)"
    and "pf_run s = Some r" and "all_done r"
  shows "\<exists>a b c d rest. run_final r = Some (a # b # c # d # rest) \<and>
    {dlv_status (evd_delivery a), dlv_status (evd_delivery b)} = {Duplicate, Settled} \<and>
    dlv_status (evd_delivery c) = Quarantined \<and> rcp_version (dlv_receipt (evd_delivery c)) = 99 \<and>
    dlv_status (evd_delivery d) = Settled \<and> settled_pair (a # b # c # d # rest)"
proof -
  have "run_ok r" using proofs.one_in_flight [OF _ _ assms(3)] assms(1,2,4)
    by (auto simp: runs_ok_def)
  then show ?thesis using assms(5) by (rule finished_rows)
qed


text \<open>
  C8. Every write in flight for the live proof belongs to the run's plan: a reservation carries
  one of its two keys and its campaign, screen and price; a batch is the saved payload and is only
  sent once the holds are verified; the correction is only sent once the first decisions are.
\<close>

theorem proof_writes_planned:
  assumes "\<not> pf_running s0" and "\<forall>r0. pf_run s0 = Some r0 \<longrightarrow> run_ok r0"
    and "reaches (proof_handlers collate) proof_env ans s0 (s, ts)"
    and "(Fetch rq, k) \<in> set ts" and "rq_post rq"
  shows "pf_running s \<and> (\<exists>r. pf_run s = Some r \<and>
    (rq_path rq = ''/api/v1/reservations'' \<and> rq_body rq = P_reservation_input (plan_input r) \<and>
       (\<exists>k \<in> set (plan_keys r). rq_key rq = Some k) \<or>
     rq_path rq = ''/api/v1/receipts/batch'' \<and> rq_body rq = P_batch (run_payload r) \<and> is_done r 0 \<or>
     rq_path rq = ''/api/v1/receipts'' \<and> is_done r 3 \<and>
       (\<exists>c. run_correction r = Some c \<and> rq_body rq = P_receipt c)))"
proof -
  have "proof_sends (Fetch rq) (proof_own s)" and "pf_running s"
    using proofs.one_in_flight [OF _ _ assms(3)] assms(1,2,4)
    by (fastforce simp: runs_ok_def split: if_splits)+
  with assms(5) show ?thesis by (auto simp: proof_sends_def)
qed

lemma done_prefix:
  assumes "run_ok r" and "\<not> all_done r"
  obtains n where "\<forall>j < n. is_done r j" and "\<And>i. is_done r i \<Longrightarrow> i < n"
proof
  have len: "length (run_steps r) = 6" using assms(1) by (simp add: run_ok_def)
  obtain i where "\<not> is_done r i"
    using assms(2) by (auto simp: all_done_def list_all_length is_done_def)
  define n where "n = (LEAST i. \<not> is_done r i)"
  show "\<forall>j < n. is_done r j" using not_less_Least unfolding n_def by blast
  fix j assume j: "is_done r j"
  have "\<not> is_done r n" unfolding n_def by (rule LeastI) fact
  moreover have "j < 6" using j len by (simp add: is_done_def)
  ultimately show "j < n" using j assms(1) by (metis linorder_neqE_nat run_ok_def)
qed

text \<open>
  C7. Resuming keeps the run: executing an unfinished run, whatever the replies, ends with the
  flag clear and the same run identifier, campaign, screen, reservation keys and event
  identifiers; no verified stage is lost, and the invariant of runs holds.
\<close>

theorem resume_keeps_identities:
  assumes "\<not> pf_running s" and "pf_run s = Some r" and "run_ok r" and "\<not> all_done r"
    and "rt_demo (runtime s)"
    and "\<And>w q s r s' w'. env w q s = (r, s', w') \<Longrightarrow> proof_own s' = proof_own s"
    and "drive (execute collate campaign s) env w = (res, s', w')"
  shows "res = Inr () \<and> \<not> pf_running s' \<and> (\<exists>r'. pf_run s' = Some r' \<and> run_ok r' \<and>
    plan_of r' = plan_of r \<and> (\<forall>i. is_done r i \<longrightarrow> is_done r' i))"
proof -
  obtain n where n: "\<forall>j < n. is_done r j" "\<And>i. is_done r i \<Longrightarrow> i < n" using done_prefix assms(3,4) by blast
  let ?s1 = "s\<lparr>pf_running := True\<rparr>" and ?p = "(plan_of r, n)"
  have "reached ?p 0 (proof_own ?s1)" using assms(2,3) n(1) by (simp add: reached_def)
  then have "keeps_run ?p (\<lambda>_ _. True) (\<lambda>_. reached ?p 0)
      (seq six_steps (seq (modify (\<lambda>s. s\<lparr>pf_message := m\<rparr>)) (refresh collate)) ?s1)" for m
    by (intro keeps_mono [OF keeps_rest]) (auto dest: reached_mono)
  then have body: "keeps_run ?p (\<lambda>_ _. True) (\<lambda>_. reached ?p 0)
      (execute_body collate campaign ?s1)"
    using assms(2,4) by (auto simp: execute_body_def gets_bind needs_new_run_def seq_def [of "ret ()"]
        ret_def)
  have failed: "reached ?p 0 (proof_own (run_failed e s2))" if "reached ?p 0 (proof_own s2)"
    for e and s2 :: "'a proof_page_scheme"
    using that by (auto simp: reached_def run_failed_own is_done_def plan_of_def)
  have "keeps proof_own (\<lambda>_ _. True) (\<lambda>_ _. True) (\<lambda>_ v. \<not> pv_running v \<and> reached ?p 0 (v\<lparr>pv_running := True\<rparr>))
      (\<lambda>_ _. False) (afinally (acatch (execute_body collate campaign ?s1) (\<lambda>e. modify (run_failed e)))
        (\<lambda>s1. s1\<lparr>pf_running := False\<rparr>))"
  proof (rule keeps_afinally, rule keeps_acatch)
    show "keeps proof_own (\<lambda>_ _. True) (\<lambda>_ _. True) (\<lambda>_. reached ?p 0) (\<lambda>_. reached ?p 0)
        (execute_body collate campaign ?s1)"
      using body by (rule keeps_mono) auto
    show "keeps proof_own (\<lambda>_ _. True) (\<lambda>_ _. True) (\<lambda>_. reached ?p 0) (\<lambda>_ _. False) (modify (run_failed e) s2)"
      if "reached ?p 0 (proof_own s2)" for e and s2 :: "'a proof_page_scheme"
      using failed [OF that] by (simp add: modify_def)
  qed (auto simp: reached_def)
  then have "keeps proof_own (\<lambda>_ _. True) (\<lambda>_ _. True) (\<lambda>_ v. \<not> pv_running v \<and> reached ?p 0 (v\<lparr>pv_running := True\<rparr>))
      (\<lambda>_ _. False) (execute collate campaign s)"
    using assms(1,5) by (simp add: execute_def try_finally_def try_catch_def)
  from drive_keeps [OF this, of env w] assms(6,7)
  have "res = Inr ()" "\<not> pf_running s'" "reached ?p 0 ((proof_own s')\<lparr>pv_running := True\<rparr>)"
    by (auto split: sum.splits)
  then show ?thesis using n(2) by (auto simp: reached_def)
qed

subsection \<open>The polling loop ends\<close>

definition not_before :: "'a page_scheme \<Rightarrow> 'a page_scheme \<Rightarrow> bool" where
  "not_before s s' \<longleftrightarrow> clock s \<le> clock s'"

lemma not_before_trans: "transp not_before"
  by (rule transpI) (simp add: not_before_def)

interpretation clocked: session_client not_before "\<lambda>_. True" ans for ans
proof (unfold_locales, goal_cases)
  case (3 s n)
  then show ?case by (simp add: not_before_def remember_def set_item_def)
next
  case (4 s n b)
  then show ?case by (simp add: not_before_def reload_def clear_def remove_item_def set_local_def
      remember_def set_item_def run_keys_def Let_def)
qed (simp_all add: not_before_trans, simp add: not_before_def)

lemma clock_read_rows: "obeys not_before (\<lambda>_. True) ans (read_rows ids)"
  by (induction ids) (simp_all, (intro clocked.obeys_intros | assumption)+)

text \<open>A responder under which time passes: it never goes back, and a timer takes its time.\<close>

definition time_passes :: "('w \<Rightarrow> awaiting \<Rightarrow> 'a page_scheme \<Rightarrow> reply \<times> 'a page_scheme \<times> 'w) \<Rightarrow> bool" where
  "time_passes env \<longleftrightarrow> (\<forall>w q s r s' w'. env w q s = (r, s', w') \<longrightarrow>
     clock s + (case q of Sleep n \<Rightarrow> max n 0 | _ \<Rightarrow> 0) \<le> clock s')"

lemma time_passes_mono: "time_passes env \<Longrightarrow> env w q s = (r, s', w') \<Longrightarrow> clock s \<le> clock s'"
  by (cases q) (fastforce simp: time_passes_def)+

lemma read_rows_later:
  assumes "time_passes env" and "drive (read_rows ids s) env w = (Inr rows, s', w')"
  shows "clock s \<le> clock s'"
proof -
  have "rg not_before (\<lambda>_. True) (\<lambda>_ _. True) (\<lambda>_ _. True) (\<lambda>_ _. True) s (read_rows ids s)"
    by (rule clock_read_rows [unfolded obeys_def, rule_format]) simp
  from drive_rg [OF not_before_trans this, of env w] time_passes_mono [OF assms(1)] assms(2)
  show ?thesis by (auto simp: not_before_def)
qed

lemma observe_until_fuel:
  assumes "time_passes env" and "deadline < clock s + poll_interval * int m"
  shows "drive (observe_until (Suc m + n) deadline ids s) env w =
    drive (observe_until (Suc m) deadline ids s) env w"
  using assms(2)
proof (induction m arbitrary: s w)
  case (0 s w)
  then show ?case using read_rows_later [OF assms(1), of ids s w]
    by (fastforce simp: bind_def drive_abind gets_def throw_def split: prod.splits sum.splits)
next
  case (Suc m s w)
  have IH: "drive (observe_until (Suc m + n) deadline ids s2) env w2 =
      drive (observe_until (Suc m) deadline ids s2) env w2"
    if "drive (read_rows ids s) env w = (Inr rows, s1, w1)" "env w1 (Sleep poll_interval) s1 = (r, s2, w2)"
    for rows s1 w1 r s2 w2
  proof (rule Suc.IH)
    have "clock s1 + poll_interval \<le> clock s2"
      using assms(1) that(2) by (fastforce simp: time_passes_def poll_interval_def)
    with read_rows_later [OF assms(1) that(1)] Suc.prems show "deadline < clock s2 + poll_interval * int m"
      by (simp add: algebra_simps)
  qed
  have unf: "observe_until (Suc k) deadline ids = bind (read_rows ids) (\<lambda>rows.
       if list_all (\<lambda>e. dlv_status (evd_delivery e) \<noteq> Accepted) rows then ret rows
       else bind (gets clock) (\<lambda>now.
         if deadline < now then throw late_worker
         else seq (await (Sleep poll_interval)) (observe_until k deadline ids)))" for k
    by simp
  have shift: "Suc (Suc m) + n = Suc (Suc m + n)" by simp
  show ?case using IH unfolding shift unf [of "Suc m"] unf [of "Suc m + n"]
    by (auto simp: bind_def seq_def await_def drive_abind gets_def throw_def
        simp del: observe_until.simps(2) split: prod.splits sum.splits)
qed

text \<open>
  C38. The polling loop ends: when time does not go back and each pause of 350 ms takes at least
  that long, \<open>observe\<close> reads its deliveries at most 59 times before the deadline of 20 seconds
  decides. More fuel never changes its outcome.
\<close>

theorem observe_enough_fuel:
  assumes "time_passes env"
  shows "drive (observe ids s) env w = drive (observe_until (poll_fuel + n) (clock s + poll_deadline) ids s) env w"
  using observe_until_fuel [OF assms, of "clock s + poll_deadline" s 58 n ids w]
  by (simp add: observe_def bind_def gets_def poll_fuel_def poll_deadline_def poll_interval_def
      del: observe_until.simps)

subsection \<open>Concrete runs\<close>

definition example_hold :: "string \<Rightarrow> rstate \<Rightarrow> reservation" where
  "example_hold i st = \<lparr>rsv_id = i, rsv_campaign = ''c'', rsv_screen = ''s'', rsv_cost = 10000,
     rsv_state = st, rsv_created = 0, rsv_expires = 900000\<rparr>"

definition example_run :: proof_run where
  "example_run = \<lparr>run_id = ''run'', run_started = 0, run_storage = ''sqlite'', run_transport = ''local'',
     plan_campaign = ''c'', plan_screen = ''s'', plan_keys = [''k1'', ''k2''],
     plan_events = [''e0'', ''e1'', ''e2'', ''e3''], run_steps = replicate 6 None, run_current = 0,
     run_holds = [], run_payload = [], run_correction = None, run_batch = None, run_replay = None,
     run_initial = None, run_corrected = None, run_final = None, run_completed = None,
     run_last_error = None\<rparr>"

definition example_result :: "nat \<Rightarrow> batch_result" where
  "example_result i = (if i = 3
     then \<lparr>brs_index = 3, brs_status = 400, brs_id = None, brs_replayed = False, brs_retryable = False, brs_detail = []\<rparr>
     else \<lparr>brs_index = i, brs_status = 202, brs_id = Some (''d'' @ dec i), brs_replayed = False,
            brs_retryable = False, brs_detail = []\<rparr>)"

definition example_batch :: "int \<Rightarrow> batch_response" where
  "example_batch n = \<lparr>bat_accepted = 3, bat_rejected = 1, bat_replayed = n,
     bat_results = map example_result [0..<4]\<rparr>"

definition example_row :: "nat \<Rightarrow> int \<Rightarrow> dstatus \<Rightarrow> string \<Rightarrow> reservation \<Rightarrow> evidence" where
  "example_row i v st reason h = \<lparr>evd_delivery = \<lparr>dlv_id = ''d'' @ dec i,
       dlv_receipt = \<lparr>rcp_version = v, rcp_event = ''e'' @ dec i, rcp_reservation = rsv_id h,
         rcp_screen = ''s'', rcp_played_at = 1, rcp_duration = 10000\<rparr>,
       dlv_status = st, dlv_reason = reason, dlv_received = 2, dlv_attempts = 1\<rparr>,
     evd_reservation = Some h, evd_outbox = ''done'', evd_attempts = 1, evd_observed = 3\<rparr>"

definition finished_run :: proof_run where
  "finished_run =
     (let a = example_hold ''a'' Held; b = example_hold ''b'' Held in
      example_run\<lparr>run_steps := replicate 6 (Some 9), run_holds := [a, b],
        run_payload := plan_payload example_run a b,
        run_correction := Some (plan_receipt example_run 3 b 1),
        run_batch := Some (example_batch 0), run_replay := Some (example_batch 3),
        run_initial := Some [example_row 0 1 Settled [] (a\<lparr>rsv_state := RSettled\<rparr>),
          example_row 1 1 Duplicate [] (a\<lparr>rsv_state := RSettled\<rparr>),
          example_row 2 99 Quarantined ''unsupported_schema'' b],
        run_corrected := Some ''d3'',
        run_final := Some [example_row 0 1 Settled [] (a\<lparr>rsv_state := RSettled\<rparr>),
          example_row 1 1 Duplicate [] (a\<lparr>rsv_state := RSettled\<rparr>),
          example_row 2 99 Quarantined ''unsupported_schema'' (b\<lparr>rsv_state := RSettled\<rparr>),
          example_row 3 1 Settled [] (b\<lparr>rsv_state := RSettled\<rparr>)],
        run_completed := Some 9\<rparr>)"

lemmas example_simps = finished_run_def example_run_def example_hold_def example_batch_def
  example_result_def example_row_def

lemma example_run_ok: "run_ok example_run"
  by (rule run_ok_fresh) (simp_all add: example_run_def)

lemma finished_initial_ok: "initial_ok (the (run_initial finished_run))"
  by (auto simp: initial_ok_def play_outcome_iff kept_hold_def example_simps Let_def)

lemma finished_final_ok: "final_ok (the (run_final finished_run))"
  by (auto simp: final_ok_def play_outcome_iff kept_quarantine_def two_settled_def reservation_map_def
      one_cent_settled_def example_simps Let_def)

lemma finished_run_ok: "run_ok finished_run"
proof -
  have "stage_ok i finished_run" if "i < 6" for i
  proof -
    from that consider "i = 0" | "i = 1" | "i = 2" | "i = 3" | "i = 4" | "i = 5" by linarith
    then show ?thesis
    proof cases
      case 3
      then show ?thesis
        by (simp add: stage_ok_def finished_run_def Let_def mixed_ok_def same_ids_def array_slice_def
            example_batch_def example_result_def upt_rec)
    next
      case 4
      then show ?thesis using finished_initial_ok by (simp add: stage_ok_def finished_run_def Let_def)
    next
      case 6
      then show ?thesis using finished_final_ok by (simp add: stage_ok_def finished_run_def Let_def)
    qed (simp_all add: stage_ok_def finished_run_def Let_def plan_payload_def plan_receipt_def mixed_ok_def
        example_batch_def example_result_def upt_rec)
  qed
  moreover have "is_done finished_run j" if "j < 6" for j
    using that by (simp add: is_done_def finished_run_def Let_def)
  ultimately show ?thesis
    by (auto simp: run_ok_def) (simp_all add: finished_run_def Let_def example_run_def)
qed

definition demo_proof :: "proof_run option \<Rightarrow> proof_page" where
  "demo_proof r = fresh_proof\<lparr>pf_run := r, runtime := no_runtime\<lparr>rt_demo := True\<rparr>\<rparr>"

lemma demo_proof_sel [simp]:
  "pf_run (demo_proof r) = r" "\<not> pf_running (demo_proof r)" "rt_demo (runtime (demo_proof r))"
  "\<not> invalidated (demo_proof r)" "clock (demo_proof r) = 0"
  by (simp_all add: demo_proof_def fresh_proof_simps)

theorem finished_run_evidence_witness:
  "\<exists>a b c d rest. run_final finished_run = Some (a # b # c # d # rest) \<and>
    {dlv_status (evd_delivery a), dlv_status (evd_delivery b)} = {Duplicate, Settled} \<and>
    dlv_status (evd_delivery c) = Quarantined \<and> rcp_version (dlv_receipt (evd_delivery c)) = 99 \<and>
    dlv_status (evd_delivery d) = Settled \<and> settled_pair (a # b # c # d # rest)"
proof (rule finished_run_evidence)
  show "\<not> pf_running (demo_proof (Some finished_run))" by simp
  show "reaches (proof_handlers flat) proof_env (\<lambda>_ _. True) (demo_proof (Some finished_run))
      (demo_proof (Some finished_run), [])" by (rule reaches_start)
  show "all_done finished_run" by (simp add: all_done_def finished_run_def Let_def list_all_iff)
qed (simp_all add: finished_run_ok)

theorem proof_writes_planned_witness:
  "\<exists>s rq k. run_events [Begin (execute flat [])] (demo_proof (Some example_run), []) = (s, [(Fetch rq, k)]) \<and>
     rq_post rq \<and> rq_key rq \<in> Some ` set (plan_keys example_run)"
proof -
  let ?s = "demo_proof (Some example_run)"
  have "\<exists>s1 rq k. execute flat [] ?s = Await s1 (Fetch rq) k \<and> rq_post rq"
    by (simp add: execute_def execute_body_def needs_new_run_def all_done_def list_all_iff example_run_def
        six_steps_def step_def stage_reserve_def is_done_def request_def send_def async_simps
        the_run_def update_run_def stamp_def plan_request_def reserve_request_def)
  then obtain s1 rq k where k: "execute flat [] ?s = Await s1 (Fetch rq) k" "rq_post rq" by blast
  have "\<exists>r. pf_run s1 = Some r \<and> plan_keys r = plan_keys example_run" and "rq_path rq = ''/api/v1/reservations''"
    using k(1) by (auto simp: execute_def execute_body_def needs_new_run_def all_done_def list_all_iff example_run_def
        six_steps_def step_def stage_reserve_def is_done_def request_def send_def async_simps
        the_run_def update_run_def stamp_def plan_request_def reserve_request_def)
  moreover have "reaches (proof_handlers flat) proof_env (\<lambda>_ _. True) ?s (run_events [Begin (execute flat [])] (?s, []))"
    by (rule run_events_reaches_start) (simp add: proof_handlers_def)
  moreover have "run_events [Begin (execute flat [])] (?s, []) = (s1, [(Fetch rq, k)])"
    by (simp add: k(1))
  ultimately show ?thesis
    using proof_writes_planned [of ?s flat "\<lambda>_ _. True" s1 "[(Fetch rq, k)]" rq k] k(2)
    by (auto simp: example_run_ok)
qed

theorem resume_keeps_identities_witness:
  "case drive (execute flat [] (demo_proof (Some example_run))) lossy () of
     (res, s', _) \<Rightarrow> res = Inr () \<and> (\<exists>r'. pf_run s' = Some r' \<and> plan_of r' = plan_of example_run)"
proof -
  obtain res s' where run: "drive (execute flat [] (demo_proof (Some example_run))) lossy () = (res, s', ())"
    by (cases "drive (execute flat [] (demo_proof (Some example_run))) lossy ()") auto
  have "\<not> all_done example_run" by (simp add: all_done_def example_run_def list_all_iff)
  then show ?thesis
    using resume_keeps_identities [OF _ _ example_run_ok _ _ _ run] run by (auto simp: lossy_def)
qed

text \<open>A worker that never decides.\<close>

definition stuck_worker :: "unit \<Rightarrow> awaiting \<Rightarrow> page \<Rightarrow> reply \<times> page \<times> unit" where
  "stuck_worker w q s = (case q of
     Fetch _ \<Rightarrow> (Responded \<lparr>rs_status = 200, rs_generation = None, rs_retry_after = None\<rparr>, s, w)
   | ReadBody _ \<Rightarrow> (Body (P_evidence (example_row 0 1 Accepted [] (example_hold ''a'' Held))), s, w)
   | Sleep n \<Rightarrow> (Woken, s\<lparr>clock := clock s + max n 0\<rparr>, w))"

theorem observe_enough_fuel_witness:
  "drive (observe [''d0''] fresh_page) stuck_worker () =
   drive (observe_until 159 20000 [''d0''] fresh_page) stuck_worker ()"
proof -
  have "time_passes stuck_worker"
    by (auto simp: time_passes_def stuck_worker_def split: awaiting.splits)
  from observe_enough_fuel [OF this, of "[''d0'']" fresh_page "()" 100] show ?thesis
    by (simp add: poll_fuel_def poll_deadline_def fresh_page_def del: observe_until.simps)
qed

subsection \<open>The runs and the session\<close>

lemma save_session:
  "retired s \<Longrightarrow> same_session s (save s) \<and> retired (save s)"
  by (simp add: save_def same_session_def retired_def)

lemma obeys_small:
  "obeys same_session retired ans (update_run f)" "obeys same_session retired ans the_run"
  "obeys same_session retired ans (assert b m)" "obeys same_session retired ans (defined x)"
proof -
  show "obeys same_session retired ans (update_run f)"
    unfolding update_run_def by (intro doc.obeys_intros beside_sessionD) (auto simp: beside_session_def)
  show "obeys same_session retired ans the_run"
    by (intro obeysI) (auto simp: the_run_def split: option.split)
  show "obeys same_session retired ans (assert b m)"
    unfolding assert_def by (intro doc.obeys_intros)
  show "obeys same_session retired ans (defined x)"
    unfolding defined_def by (intro doc.obeys_intros)
qed

lemma obeys_mixed_batch: "obeys same_session retired ans (mixed_batch items)"
  unfolding mixed_batch_def by (intro doc.obeys_intros obeys_small(3,4))

lemma obeys_read_rows: "obeys same_session retired ans (read_rows ids)"
  by (induction ids) (simp_all, (intro doc.obeys_intros | assumption)+)

lemma obeys_observe: "obeys same_session retired ans (observe ids)"
proof -
  have "obeys same_session retired ans (observe_until n d ids)" for n d
    by (induction n) (simp_all, (intro doc.obeys_intros obeys_read_rows | assumption)+)
  then show ?thesis unfolding observe_def by (intro doc.obeys_intros)
qed

lemma obeys_reserve_holds: "obeys same_session retired ans (reserve_holds ks)"
  by (induction ks) (simp_all, (intro doc.obeys_intros obeys_small | assumption)+)

lemma obeys_stages:
  "obeys same_session retired ans stage_reserve" "obeys same_session retired ans stage_accept"
  "obeys same_session retired ans stage_retry" "obeys same_session retired ans stage_reconcile"
  "obeys same_session retired ans stage_correct" "obeys same_session retired ans stage_verify"
  unfolding stage_reserve_def stage_accept_def stage_retry_def stage_reconcile_def stage_correct_def
    stage_verify_def
  by (intro doc.obeys_intros obeys_small obeys_reserve_holds obeys_mixed_batch obeys_observe)+

lemma obeys_step: "obeys same_session retired ans fn \<Longrightarrow> obeys same_session retired ans (step i fn)"
  unfolding step_def
  by (intro doc.obeys_intros obeys_small save_session beside_sessionD) (auto simp: beside_session_def)

lemma obeys_fresh_uuids: "obeys same_session retired ans (fresh_uuids n)"
  by (induction n) (simp_all, (intro doc.obeys_intros obeys_uuid | assumption)+)

lemma obeys_new_run: "obeys same_session retired ans (new_run campaign)"
proof -
  have "retired s \<Longrightarrow> same_session s (save (s\<lparr>pf_run := r\<rparr>)) \<and> retired (save (s\<lparr>pf_run := r\<rparr>))"
    for s :: "'a proof_page_scheme" and r
    using save_session [of "s\<lparr>pf_run := r\<rparr>"] by (simp add: same_session_def retired_def)
  then show ?thesis unfolding new_run_def
    by (intro doc.obeys_intros(1), intro doc.obeys_intros)
       (auto intro!: doc.obeys_intros obeys_uuid obeys_fresh_uuids split: option.split list.split)
qed

lemma run_failed_session:
  "retired s \<Longrightarrow> same_session s (run_failed e s) \<and> retired (run_failed e s)"
  using save_session [of "s\<lparr>pf_message := m, pf_run := r\<rparr>" for m r]
  by (auto simp: run_failed_def Let_def same_session_def retired_def split: option.split)

lemma obeys_execute: "obeys same_session retired ans (execute collate campaign)"
  unfolding execute_def [abs_def] execute_body_def six_steps_def
  by (intro obeys_guard doc.obeys_intros obeys_new_run obeys_step obeys_stages obeys_refresh
        same_session_trans same_session_refl run_failed_session beside_sessionD)
     (auto simp: beside_session_def)

lemma obeys_proof_handlers: "h \<in> proof_handlers collate \<Longrightarrow> obeys same_session retired ans h"
proof -
  have "obeys same_session retired ans (overview_proof collate :: ('a proof_page_scheme, unit) prog)"
    using obeys_entered [OF obeys_execute, where f = "\<lambda>s :: 'a proof_page_scheme. render collate (s\<lparr>overview_proof_open := True\<rparr>)"]
    by (intro obeysI) (auto simp: overview_proof_def beside_session_def)
  moreover assume "h \<in> proof_handlers collate"
  ultimately show ?thesis by (auto simp: proof_handlers_def obeys_execute)
qed

end
