(* ===== verification/FootTraffic.thy ===== *)
theory FootTraffic
  imports ProofRuns
begin

text \<open>
  \<open>internal/console/web/foottraffic.js\<close>: the foot-traffic page. A sample feed is selected; its
  example batch is fetched, kept as an attempt, sent, and marked as confirmed when the server
  answered; a report is read for the selection. Three flags keep the operations apart. The HTML
  of the page is in theory \<open>PageViews\<close>.
\<close>

subsection \<open>State\<close>

record traffic_page = proof_page +
  tr_selected :: string
  tr_attempts :: "string \<rightharpoonup> traffic_attempt"
  tr_report :: "payload option"
  tr_loading :: bool
  tr_importing :: bool
  tr_emptying :: bool
  tr_error :: string
  tr_notice :: string
  tr_generation :: nat

definition samples :: "(string \<times> string \<times> string) list" where
  "samples = [
     (''baseline'', ''Balanced activity'', ''Four zones with a mix of reportable and small counts. Compare matched hours across two days.''),
     (''busy'', ''High activity'', ''All 24 current windows are reportable. Explore larger counts without treating activity as campaign lift.''),
     (''gaps'', ''Missing coverage'', ''The transit feed and alternate retail hours are missing. Missing observations must not become zeros.''),
     (''quiet'', ''Low counts'', ''Three zones fall below the reporting threshold. Only the downtown counts are released.''),
     (''commuter'', ''Commuter peaks'', ''Transit activity rises around illustrative morning and evening UTC peaks. Inspect how zone patterns differ.''),
     (''retail'', ''Retail activity'', ''The retail district has the largest counts. Compare zones without interpreting activity as verified ad exposure.''),
     (''threshold'', ''Reporting threshold'', ''Counts alternate between 19 and 20. Values below 20 stay hidden; values at 20 are reportable.''),
     (''interruption'', ''Feed interruption'', ''Two hours out of each six-hour period are absent across every zone. A gap in delivery is not zero activity.''),
     (''random'', ''Random mix'', ''Generate a fresh mix of activity, missing hours and small counts. Each new generation replaces only this random sample.'')]"

definition sample_ids :: "string list" where "sample_ids = map fst samples"

definition sample_name :: "string \<Rightarrow> string" where
  "sample_name i = (case map_of samples i of None \<Rightarrow> ''undefined'' | Some (n, _) \<Rightarrow> n)"

subsection \<open>Saved attempts\<close>

definition safe_integer :: "int \<Rightarrow> bool" where
  "safe_integer n \<longleftrightarrow> - (2 ^ 53 - 1) \<le> n \<and> n \<le> 2 ^ 53 - 1"

text \<open>The JSON of a kept attempt. A body that is no batch has none of the fields that loading asks for.\<close>

definition window_json :: "traffic_window \<Rightarrow> json" where
  "window_json w = JObject [(''zone_id'', JText (win_zone w)), (''window_start'', JNumber (win_start w)),
     (''observations'', JNumber (win_count w))]"

fun batch_json :: "payload \<Rightarrow> json" where
  "batch_json (P_traffic_batch b) = JObject [(''batch_id'', JText (tba_id b)), (''source'', JText (tba_source b)),
     (''windows'', JArray (map window_json (tba_windows b)))]"
| "batch_json (P_object fs) = JObject fs"
| "batch_json _ = JObject []"

definition attempt_json :: "traffic_attempt \<Rightarrow> json" where
  "attempt_json a = JObject [(''batch'', batch_json (att_batch a)), (''confirmed'', JBool (att_confirmed a))]"

definition save_json :: "string \<Rightarrow> (string \<rightharpoonup> traffic_attempt) \<Rightarrow> json" where
  "save_json sel m = JObject [(''selected'', JText sel),
     (''attempts'', JObject (List.map_filter (\<lambda>i. map_option (\<lambda>a. (i, attempt_json a)) (m i)) sample_ids))]"

definition traffic_remember :: "'a traffic_page_scheme \<Rightarrow> 'a traffic_page_scheme" where
  "traffic_remember s = (if invalidated s then s
     else set_item traffic_key (SavedTraffic (save_json (tr_selected s) (tr_attempts s))) s)"

text \<open>
  Reading it back: \<open>value?.field\<close>, and the object that a batch is, with its type if it is a batch of the API.
\<close>

fun property :: "string \<Rightarrow> json \<Rightarrow> json option" where
  "property f (JObject fs) = map_of fs f"
| "property f _ = None"

definition json_window :: "json \<Rightarrow> traffic_window option" where
  "json_window j = (case j of
     JObject [(a, JText z), (b, JNumber t), (c, JNumber n)] \<Rightarrow>
       if a = ''zone_id'' \<and> b = ''window_start'' \<and> c = ''observations''
       then Some \<lparr>win_zone = z, win_start = t, win_count = n\<rparr> else None
   | _ \<Rightarrow> None)"

definition json_batch :: "json \<Rightarrow> payload" where
  "json_batch j = (case j of
     JObject fs \<Rightarrow> (case fs of
       [(a, JText i), (b, JText src), (c, JArray ws)] \<Rightarrow>
         (case those (map json_window ws) of
            Some wins \<Rightarrow> if a = ''batch_id'' \<and> b = ''source'' \<and> c = ''windows''
              then P_traffic_batch \<lparr>tba_id = i, tba_source = src, tba_windows = wins\<rparr> else P_object fs
          | None \<Rightarrow> P_object fs)
     | _ \<Rightarrow> P_object fs)
   | _ \<Rightarrow> P_object [])"

text \<open>
  \<open>b.windows.every(...)\<close>, \<open>None\<close> for the exception that a window \<open>null\<close> raises, and the whole condition on a batch.
\<close>

fun every_young :: "int \<Rightarrow> json list \<Rightarrow> bool option" where
  "every_young now [] = Some True"
| "every_young now (w # ws) =
     (if w = JNull then None
      else case property ''window_start'' w of
        Some (JNumber n) \<Rightarrow> if safe_integer n \<and> now - 7 * 86400000 \<le> n then every_young now ws else Some False
      | _ \<Rightarrow> Some False)"

definition good_batch :: "int \<Rightarrow> json \<Rightarrow> bool option" where
  "good_batch now b =
     (if property ''source'' b \<noteq> Some (JText ''synthetic-partner-v1'') then Some False
      else case (property ''batch_id'' b, property ''windows'' b) of
        (Some (JText _), Some (JArray ws)) \<Rightarrow> if ws \<noteq> [] \<and> length ws \<le> 96 then every_young now ws else Some False
      | _ \<Rightarrow> Some False)"

text \<open>The loop over the samples; an exception ends it with the attempts read so far.\<close>

fun load_attempts :: "int \<Rightarrow> json option \<Rightarrow> string list \<Rightarrow> (string \<rightharpoonup> traffic_attempt) \<Rightarrow> (string \<rightharpoonup> traffic_attempt)" where
  "load_attempts now saved [] m = m"
| "load_attempts now saved (i # is) m =
     (let attempt = Option.bind saved (property i) in
      case Option.bind attempt (property ''batch'') of
        None \<Rightarrow> load_attempts now saved is m
      | Some b \<Rightarrow> (case good_batch now b of
          None \<Rightarrow> m
        | Some good \<Rightarrow> load_attempts now saved is
            (if good then m(i \<mapsto> \<lparr>att_batch = json_batch b,
                att_confirmed = (Option.bind attempt (property ''confirmed'') = Some (JBool True))\<rparr>)
             else m)))"

definition saved_traffic :: "'a traffic_page_scheme \<Rightarrow> json option" where
  "saved_traffic s = (if storage_ok s then
     (case session_store s traffic_key of Some (SavedTraffic v) \<Rightarrow> Some v | _ \<Rightarrow> None) else None)"

definition traffic_load :: "'a traffic_page_scheme \<Rightarrow> 'a traffic_page_scheme" where
  "traffic_load s = (let saved = saved_traffic s in
     s\<lparr>tr_selected := (case Option.bind saved (property ''selected'') of
           Some (JText v) \<Rightarrow> if v \<in> set sample_ids then v else ''baseline''
         | _ \<Rightarrow> ''baseline''),
       tr_attempts := load_attempts (clock s) (Option.bind saved (property ''attempts'')) sample_ids Map.empty\<rparr>)"

subsection \<open>Operations\<close>

definition traffic_path :: "string \<Rightarrow> string \<Rightarrow> string" where
  "traffic_path rt sel = ''/api/v1/foot-traffic/'' @ rt @ ''?scenario='' @ encode_uri sel"

definition report_request :: "string \<Rightarrow> http_request" where
  "report_request sel = get_request (traffic_path ''report'' sel)"

definition example_request :: "string \<Rightarrow> http_request" where
  "example_request sel = get_request (traffic_path ''example'' sel)"

definition import_request :: "string \<Rightarrow> payload \<Rightarrow> http_request" where
  "import_request sel b = post_request
     (traffic_path (if sel = ''random'' then ''random-batches'' else ''batches'') sel) b"

definition empty_request :: "string \<Rightarrow> http_request" where
  "empty_request sel = post_request (traffic_path ''empty'' sel) P_empty"

definition if_current ::
  "nat \<Rightarrow> ('a traffic_page_scheme \<Rightarrow> 'a traffic_page_scheme) \<Rightarrow> 'a traffic_page_scheme \<Rightarrow> 'a traffic_page_scheme"
  where "if_current ticket f s = (if ticket = tr_generation s then f s else s)"

definition traffic_refresh :: "bool \<Rightarrow> ('a traffic_page_scheme, unit) prog" where
  "traffic_refresh manual s =
     (if tr_loading s then Return s ()
      else let ticket = Suc (tr_generation s) in
        try_finally
          (try_catch
            (bind (request (report_request (tr_selected s))) (\<lambda>data.
               modify (if_current ticket (\<lambda>s1. s1\<lparr>tr_report := Some data, tr_notice :=
                 (if manual then ''Report refreshed. This reads saved observations; use Load sample feed to import data.''
                  else tr_notice s1)\<rparr>))))
            (\<lambda>e. modify (if_current ticket (\<lambda>s1. s1\<lparr>tr_error := err_message e\<rparr>))))
          (if_current ticket (\<lambda>s1. s1\<lparr>tr_loading := False\<rparr>))
          (s\<lparr>tr_generation := ticket, tr_loading := True, tr_error := []\<rparr>))"

definition traffic_busy :: "'a traffic_page_scheme \<Rightarrow> bool" where
  "traffic_busy s \<longleftrightarrow> tr_loading s \<or> tr_importing s \<or> tr_emptying s"

definition keep_attempt :: "traffic_attempt \<Rightarrow> 'a traffic_page_scheme \<Rightarrow> 'a traffic_page_scheme" where
  "keep_attempt a s = traffic_remember (s\<lparr>tr_attempts := (tr_attempts s)(tr_selected s \<mapsto> a)\<rparr>)"

fun import_notice :: "payload \<Rightarrow> string" where
  "import_notice (P_traffic_result n True) =
     ''Replay verified: the original batch result was returned. No counts were added.''"
| "import_notice (P_traffic_result n False) = ''Batch committed: '' @ dec n @
     '' new windows. Overlapping identical windows were retained once.''"
| "import_notice _ = ''Batch committed: undefined new windows. Overlapping identical windows were retained once.''"

text \<open>Whatever object the service answers is taken as the batch.\<close>

definition chosen_batch :: "bool \<Rightarrow> ('a traffic_page_scheme, payload) prog" where
  "chosen_batch replay s =
     (if replay
      then (case tr_attempts s (tr_selected s) of None \<Rightarrow> Throw s type_error | Some a \<Rightarrow> Return s (att_batch a))
      else request (example_request (tr_selected s)) s)"

definition ingest_body :: "bool \<Rightarrow> ('a traffic_page_scheme, unit) prog" where
  "ingest_body replay =
     bind (chosen_batch replay) (\<lambda>b.
     seq (modify (keep_attempt \<lparr>att_batch = b, att_confirmed = False\<rparr>))
     (bind (gets tr_selected) (\<lambda>sel.
      bind (request (import_request sel b)) (\<lambda>result.
      seq (modify (keep_attempt \<lparr>att_batch = b, att_confirmed = True\<rparr>))
      (seq (modify (\<lambda>s. s\<lparr>tr_notice := import_notice result\<rparr>))
           (traffic_refresh False))))))"

definition unconfirmed :: "'a traffic_page_scheme \<Rightarrow> bool" where
  "unconfirmed s \<longleftrightarrow> (case tr_attempts s (tr_selected s) of None \<Rightarrow> False | Some a \<Rightarrow> \<not> att_confirmed a)"

definition ingest_failed :: "js_error \<Rightarrow> 'a traffic_page_scheme \<Rightarrow> 'a traffic_page_scheme" where
  "ingest_failed e s = s\<lparr>tr_notice := err_message e @
     (if unconfirmed s then '' Use Retry last batch to resend the same input safely.'' else [])\<rparr>"

definition ingest :: "bool \<Rightarrow> ('a traffic_page_scheme, unit) prog" where
  "ingest replay s =
     (if traffic_busy s then Return s ()
      else if replay \<and> tr_attempts s (tr_selected s) = None
      then Return (s\<lparr>tr_notice := ''Load a sample feed before replaying it.''\<rparr>) ()
      else try_finally
        (try_catch (ingest_body replay) (\<lambda>e. modify (ingest_failed e)))
        (\<lambda>s1. s1\<lparr>tr_importing := False\<rparr>)
        (s\<lparr>tr_importing := True, tr_notice :=
           (if replay then ''Checking the previous batch again...'' else ''Importing synthetic aggregate windows...'')\<rparr>))"

definition emptied :: "'a traffic_page_scheme \<Rightarrow> 'a traffic_page_scheme" where
  "emptied s = (traffic_remember (s\<lparr>tr_attempts := (tr_attempts s)(tr_selected s := None)\<rparr>))
     \<lparr>tr_report := None, tr_error := [], tr_notice := sample_name (tr_selected s) @
        '' emptied. Load a feed when you are ready to start again.''\<rparr>"

definition empty_body :: "('a traffic_page_scheme, unit) prog" where
  "empty_body =
     bind (gets tr_selected) (\<lambda>sel.
     bind (request (empty_request sel)) (\<lambda>_.
     seq (modify emptied) (traffic_refresh False)))"

definition empty_batch :: "('a traffic_page_scheme, unit) prog" where
  "empty_batch s =
     (if traffic_busy s then Return s ()
      else try_finally
        (try_catch empty_body
          (\<lambda>e. modify (\<lambda>s1. s1\<lparr>tr_notice := ''Could not confirm the sample was emptied. '' @ err_message e @
             '' You can retry Empty batch safely.''\<rparr>)))
        (\<lambda>s1. s1\<lparr>tr_emptying := False\<rparr>)
        (s\<lparr>tr_emptying := True, tr_notice := ''Emptying this sample...''\<rparr>))"

definition random_feed :: "('a traffic_page_scheme, unit) prog" where
  "random_feed s =
     (if traffic_busy s then Return s ()
      else ingest False (traffic_remember (s\<lparr>tr_report :=
             (if tr_selected s \<noteq> ''random'' then None else tr_report s),
           tr_selected := ''random'', tr_error := []\<rparr>)))"

text \<open>
  The refresh button, the console's refresh button, the microtask of \<open>render\<close>, the selection. The other
  branch of the microtask is \<open>update()\<close>, which changes no variable: it writes the labels, disabled buttons and
  report of the current state (\<open>traffic_update\<close> and \<open>traffic_label\<close> of theory \<open>Controls\<close>) over what \<open>render\<close> returned.
\<close>

definition traffic_refresh_click :: "('a traffic_page_scheme, unit) prog" where
  "traffic_refresh_click s = (if traffic_busy s then Return s () else traffic_refresh True s)"

definition traffic_public_refresh :: "('a traffic_page_scheme, unit) prog" where
  "traffic_public_refresh s =
     (if \<not> tr_importing s \<and> \<not> tr_emptying s then traffic_refresh True s else Return s ())"

definition traffic_render :: "('a traffic_page_scheme, unit) prog" where
  "traffic_render s =
     (if tr_report s = None \<and> \<not> tr_loading s \<and> tr_error s = [] \<and> \<not> tr_importing s \<and> \<not> tr_emptying s
      then traffic_refresh False s else Return s ())"

definition sample_change :: "string \<Rightarrow> ('a traffic_page_scheme, unit) prog" where
  "sample_change v s =
     (if traffic_busy s \<or> v \<notin> set sample_ids then Return s ()
      else traffic_refresh False (traffic_remember
        (s\<lparr>tr_selected := v, tr_report := None, tr_error := [], tr_notice := []\<rparr>)))"

definition traffic_handlers :: "('a traffic_page_scheme, unit) prog set" where
  "traffic_handlers = {empty_batch, random_feed, traffic_refresh_click, traffic_public_refresh,
     traffic_render} \<union> range ingest \<union> range sample_change"

subsection \<open>What the page shows\<close>

definition replay_label :: "'a traffic_page_scheme \<Rightarrow> string" where
  "replay_label s = (if unconfirmed s then ''Retry last batch'' else ''Replay last batch'')"

definition replay_disabled :: "'a traffic_page_scheme \<Rightarrow> bool" where
  "replay_disabled s \<longleftrightarrow> traffic_busy s \<or> tr_attempts s (tr_selected s) = None"

definition cell_value :: "traffic_cell \<Rightarrow> string" where
  "cell_value c = (case cel_status c of Reported \<Rightarrow> num (case cel_observations c of None \<Rightarrow> 0 | Some n \<Rightarrow> n)
     | Suppressed \<Rightarrow> ''Suppressed'' | Missing \<Rightarrow> ''No data'')"

definition report_empty :: "traffic_report \<Rightarrow> bool" where
  "report_empty r \<longleftrightarrow> list_all (\<lambda>z. list_all (\<lambda>c. cel_status c = Missing) (zon_current z @ zon_previous z))
     (trp_zones r)"

definition fresh_traffic :: traffic_page where
  "fresh_traffic = proof_page.extend fresh_proof \<lparr>tr_selected = ''baseline'', tr_attempts = Map.empty,
     tr_report = None, tr_loading = False, tr_importing = False, tr_emptying = False, tr_error = [],
     tr_notice = [], tr_generation = 0\<rparr>"

lemmas fresh_traffic_simps = fresh_traffic_def proof_page.defs fresh_proof_simps

subsection \<open>One operation at a time\<close>

record traffic_vars =
  tv_loading :: bool
  tv_importing :: bool
  tv_emptying :: bool
  tv_selected :: string
  tv_attempts :: "string \<rightharpoonup> traffic_attempt"
  tv_report :: "payload option"
  tv_generation :: nat

definition traffic_own :: "'a traffic_page_scheme \<Rightarrow> traffic_vars" where
  "traffic_own s = \<lparr>tv_loading = tr_loading s, tv_importing = tr_importing s,
     tv_emptying = tr_emptying s, tv_selected = tr_selected s, tv_attempts = tr_attempts s,
     tv_report = tr_report s, tv_generation = tr_generation s\<rparr>"

definition tv_busy :: "traffic_vars \<Rightarrow> bool" where
  "tv_busy v \<longleftrightarrow> tv_loading v \<or> tv_importing v \<or> tv_emptying v"

text \<open>The selection is a sample, and the report on the page answers the request for it.\<close>

definition traffic_ok :: "(awaiting \<Rightarrow> reply \<Rightarrow> bool) \<Rightarrow> traffic_vars \<Rightarrow> bool" where
  "traffic_ok ans v \<longleftrightarrow> tv_selected v \<in> set sample_ids \<and>
     (\<forall>p. tv_report v = Some p \<longrightarrow> ans (ReadBody (report_request (tv_selected v))) (Body p))"

text \<open>What is posted empties the selected sample, or is its attempt, not yet confirmed.\<close>

definition traffic_sends :: "awaiting \<Rightarrow> traffic_vars \<Rightarrow> bool" where
  "traffic_sends q v \<longleftrightarrow> (case q of
     Fetch rq \<Rightarrow> rq_post rq \<longrightarrow>
       rq_path rq = rq_path (empty_request (tv_selected v)) \<and> rq_body rq = P_empty \<or>
       rq_path rq = rq_path (import_request (tv_selected v) (rq_body rq)) \<and>
       tv_attempts v (tv_selected v) = Some \<lparr>att_batch = rq_body rq, att_confirmed = False\<rparr>
   | _ \<Rightarrow> True)"

definition traffic_env :: "'a traffic_page_scheme \<Rightarrow> 'a traffic_page_scheme \<Rightarrow> bool" where
  "traffic_env s s' \<longleftrightarrow> traffic_own s' = traffic_own s"

lemma page_frame_traffic: "page_frame traffic_own"
  by (simp add: page_frame_def traffic_own_def remember_def set_item_def reload_def clear_def
      remove_item_def set_local_def run_keys_def Let_def)

lemma traffic_own_sel [simp]:
  "tv_loading (traffic_own s) = tr_loading s" "tv_importing (traffic_own s) = tr_importing s"
  "tv_emptying (traffic_own s) = tr_emptying s" "tv_selected (traffic_own s) = tr_selected s"
  "tv_attempts (traffic_own s) = tr_attempts s" "tv_report (traffic_own s) = tr_report s"
  "tv_generation (traffic_own s) = tr_generation s"
  by (simp_all add: traffic_own_def)

lemma traffic_remember_sel [simp]:
  "tr_loading (traffic_remember s) = tr_loading s" "tr_importing (traffic_remember s) = tr_importing s"
  "tr_emptying (traffic_remember s) = tr_emptying s" "tr_selected (traffic_remember s) = tr_selected s"
  "tr_attempts (traffic_remember s) = tr_attempts s" "tr_report (traffic_remember s) = tr_report s"
  "tr_generation (traffic_remember s) = tr_generation s" "tr_error (traffic_remember s) = tr_error s"
  by (simp_all add: traffic_remember_def set_item_def)

lemma traffic_sends_reads [simp]:
  "for_request (report_request c) q \<Longrightarrow> traffic_sends q v"
  "for_request (example_request c) q \<Longrightarrow> traffic_sends q v"
  "for_request (empty_request (tv_selected v)) q \<Longrightarrow> traffic_sends q v"
  by (auto simp: for_request_def traffic_sends_def report_request_def example_request_def empty_request_def)

lemma traffic_sends_import:
  "for_request (import_request (tv_selected v) b) q \<Longrightarrow>
   tv_attempts v (tv_selected v) = Some \<lparr>att_batch = b, att_confirmed = False\<rparr> \<Longrightarrow> traffic_sends q v"
  by (auto simp: for_request_def traffic_sends_def import_request_def)

text \<open>The two outer flags and the selection are as given, whatever a refresh does meanwhile.\<close>

definition during :: "(awaiting \<Rightarrow> reply \<Rightarrow> bool) \<Rightarrow> bool \<Rightarrow> bool \<Rightarrow> traffic_vars \<Rightarrow> bool" where
  "during ans i e v \<longleftrightarrow> tv_importing v = i \<and> tv_emptying v = e \<and> traffic_ok ans v"

abbreviation "calm ans i e \<equiv> (\<lambda>v. during ans i e v \<and> \<not> tv_loading v)"

lemma keeps_traffic_refresh:
  fixes s :: "'a traffic_page_scheme"
  assumes "calm ans i e (traffic_own s)"
  shows "keeps traffic_own (\<lambda>q v. during ans i e v \<and> tv_loading v \<and> traffic_sends q v) ans
    (\<lambda>_. calm ans i e) (\<lambda>_ _. False) (traffic_refresh manual s)"
proof -
  let ?t = "Suc (tr_generation s)"
  let ?s1 = "s\<lparr>tr_generation := ?t, tr_loading := True, tr_error := []\<rparr>"
  let ?G = "\<lambda>v. during ans i e v \<and> tv_loading v \<and> tv_generation v = ?t"
  have s1: "?G (traffic_own ?s1)" and sel: "tr_selected ?s1 = tr_selected s"
    using assms by (simp_all add: during_def traffic_ok_def)
  have got: "?G (traffic_own (if_current ?t (\<lambda>s1. s1\<lparr>tr_report := Some data, tr_notice := m s1\<rparr>) s'))"
    if "ans (ReadBody (report_request (tr_selected s))) (Body data)" "traffic_own s' = traffic_own ?s1"
    for data m and s' :: "'a traffic_page_scheme"
  proof -
    have "tr_selected s' = tr_selected s" "tr_generation s' = ?t"
      using arg_cong [OF that(2), of tv_selected] arg_cong [OF that(2), of tv_generation] by simp_all
    moreover have "?G (traffic_own s')" using s1 that(2) by simp
    ultimately show ?thesis using that(1) by (simp add: if_current_def during_def traffic_ok_def)
  qed
  have body: "keeps traffic_own (\<lambda>q v. ?G v \<and> traffic_sends q v) ans (\<lambda>_. ?G) (\<lambda>_. ?G)
     (bind (request (report_request (tr_selected s))) (\<lambda>data.
        modify (if_current ?t (\<lambda>s1. s1\<lparr>tr_report := Some data, tr_notice :=
          (if manual then ''Report refreshed. This reads saved observations; use Load sample feed to import data.''
           else tr_notice s1)\<rparr>))) ?s1)"
    by (rule keeps_bindI, rule keeps_request [OF page_frame_traffic])
       (use s1 got in \<open>auto simp: modify_def\<close>)
  have "keeps traffic_own (\<lambda>q v. ?G v \<and> traffic_sends q v) ans (\<lambda>_. calm ans i e) (\<lambda>_ _. False)
     (afinally (acatch (bind (request (report_request (tr_selected s))) (\<lambda>data.
        modify (if_current ?t (\<lambda>s1. s1\<lparr>tr_report := Some data, tr_notice :=
          (if manual then ''Report refreshed. This reads saved observations; use Load sample feed to import data.''
           else tr_notice s1)\<rparr>))) ?s1)
        (\<lambda>e. modify (if_current ?t (\<lambda>s1. s1\<lparr>tr_error := err_message e\<rparr>))))
       (if_current ?t (\<lambda>s1. s1\<lparr>tr_loading := False\<rparr>)))"
    by (rule keeps_afinally, rule keeps_acatch, rule keeps_mono [OF body, where E' = "\<lambda>_. ?G" and Q' = "\<lambda>_. ?G"])
       (auto simp: modify_def if_current_def during_def traffic_ok_def)
  then show ?thesis using assms
    by (auto simp: traffic_refresh_def Let_def try_finally_def try_catch_def elim!: keeps_mono)
qed

lemma keeps_nested_refresh:
  fixes s :: "'a traffic_page_scheme"
  assumes "calm ans i e (traffic_own s)"
  shows "keeps traffic_own (\<lambda>q v. during ans i e v \<and> traffic_sends q v) ans
    (\<lambda>_. calm ans i e) (\<lambda>_. calm ans i e) (traffic_refresh manual s)"
  by (rule keeps_mono [OF keeps_traffic_refresh [OF assms]]) auto

lemma calm_keep_attempt:
  "calm ans i e (traffic_own s) \<Longrightarrow> calm ans i e (traffic_own (keep_attempt a s))"
  by (simp add: keep_attempt_def during_def traffic_ok_def)

lemma keep_attempt_sel [simp]:
  "tr_attempts (keep_attempt a s) = (tr_attempts s)(tr_selected s \<mapsto> a)"
  "tr_selected (keep_attempt a s) = tr_selected s"
  by (simp_all add: keep_attempt_def)

lemma keeps_import:
  fixes s :: "'a traffic_page_scheme"
  assumes "calm ans True False (traffic_own s)"
    and "tr_attempts s (tr_selected s) = Some \<lparr>att_batch = b, att_confirmed = False\<rparr>"
  shows "keeps traffic_own (\<lambda>q v. during ans True False v \<and> traffic_sends q v) ans
    (\<lambda>_. calm ans True False) (\<lambda>_. calm ans True False)
    (bind (request (import_request (tr_selected s) b)) (\<lambda>result.
      seq (modify (keep_attempt \<lparr>att_batch = b, att_confirmed = True\<rparr>))
      (seq (modify (\<lambda>s. s\<lparr>tr_notice := import_notice result\<rparr>)) (traffic_refresh False))) s)"
proof (rule keeps_bindI, rule keeps_request [OF page_frame_traffic])
  show "during ans True False (traffic_own s) \<and> traffic_sends q (traffic_own s)"
    if "for_request (import_request (tr_selected s) b) q" for q
    using assms that by (auto intro: traffic_sends_import)
  have "keeps traffic_own (\<lambda>q v. during ans True False v \<and> traffic_sends q v) ans
      (\<lambda>_. calm ans True False) (\<lambda>_. calm ans True False)
      (seq (modify (keep_attempt \<lparr>att_batch = b, att_confirmed = True\<rparr>))
        (seq (modify (\<lambda>s. s\<lparr>tr_notice := import_notice result\<rparr>)) (traffic_refresh False)) s')"
    if "traffic_own s' = traffic_own s" for result and s' :: "'a traffic_page_scheme"
  proof -
    have "calm ans True False (traffic_own (keep_attempt \<lparr>att_batch = b, att_confirmed = True\<rparr> s'))"
      using assms(1) that by (intro calm_keep_attempt) simp
    then have "calm ans True False (traffic_own ((keep_attempt \<lparr>att_batch = b, att_confirmed = True\<rparr> s')
        \<lparr>tr_notice := import_notice result\<rparr>))"
      by (simp add: during_def traffic_ok_def)
    then show ?thesis by (simp add: modify_seq keeps_nested_refresh)
  qed
  then show "\<forall>s' :: 'a traffic_page_scheme. traffic_own s' = traffic_own s \<longrightarrow>
      keeps traffic_own (\<lambda>q v. during ans True False v \<and> traffic_sends q v) ans
        (\<lambda>_. calm ans True False) (\<lambda>_. calm ans True False)
        (seq (modify (keep_attempt \<lparr>att_batch = b, att_confirmed = True\<rparr>))
          (seq (modify (\<lambda>s. s\<lparr>tr_notice := import_notice result\<rparr>)) (traffic_refresh False)) s')" for result
    by blast
qed (use assms in auto)

lemma keeps_ingest_body:
  fixes s :: "'a traffic_page_scheme"
  assumes "calm ans True False (traffic_own s)"
  shows "keeps traffic_own (\<lambda>q v. during ans True False v \<and> traffic_sends q v) ans
    (\<lambda>_. calm ans True False) (\<lambda>_. calm ans True False) (ingest_body replay s)"
  unfolding ingest_body_def
proof (rule keeps_bind)
  show "keeps traffic_own (\<lambda>q v. during ans True False v \<and> traffic_sends q v) ans
      (\<lambda>_. calm ans True False) (\<lambda>_. calm ans True False) (chosen_batch replay s)"
    using assms
    by (auto simp: chosen_batch_def split: option.split intro!: keeps_request [OF page_frame_traffic])
  fix b and s' :: "'a traffic_page_scheme" assume "calm ans True False (traffic_own s')"
  then have "calm ans True False (traffic_own (keep_attempt \<lparr>att_batch = b, att_confirmed = False\<rparr> s'))"
    by (rule calm_keep_attempt)
  from keeps_import [OF this, of b]
  show "keeps traffic_own (\<lambda>q v. during ans True False v \<and> traffic_sends q v) ans
      (\<lambda>_. calm ans True False) (\<lambda>_. calm ans True False)
      (seq (modify (keep_attempt \<lparr>att_batch = b, att_confirmed = False\<rparr>))
        (bind (gets tr_selected) (\<lambda>sel.
         bind (request (import_request sel b)) (\<lambda>result.
         seq (modify (keep_attempt \<lparr>att_batch = b, att_confirmed = True\<rparr>))
         (seq (modify (\<lambda>s. s\<lparr>tr_notice := import_notice result\<rparr>)) (traffic_refresh False))))) s')"
    by (simp add: modify_seq gets_bind)
qed

lemma keeps_empty_body:
  fixes s :: "'a traffic_page_scheme"
  assumes "calm ans False True (traffic_own s)"
  shows "keeps traffic_own (\<lambda>q v. during ans False True v \<and> traffic_sends q v) ans
    (\<lambda>_. calm ans False True) (\<lambda>_. calm ans False True) (empty_body s)"
proof -
  have "calm ans False True (traffic_own (emptied s'))" if "traffic_own s' = traffic_own s"
    for s' :: "'a traffic_page_scheme"
  proof -
    have "calm ans False True (traffic_own s')" using assms that by simp
    then show ?thesis by (simp add: emptied_def during_def traffic_ok_def)
  qed
  then show ?thesis using assms
    by (auto simp: empty_body_def gets_bind modify_seq intro!: keeps_bindI [where m = "request _"]
        keeps_request [OF page_frame_traffic] keeps_nested_refresh)
qed

abbreviation "owns_traffic ans \<equiv> owns traffic_own tv_busy (traffic_ok ans) traffic_sends ans"

lemma owns_traffic_refresh:
  fixes s :: "'a traffic_page_scheme"
  assumes "\<not> traffic_busy s" and "traffic_ok ans (traffic_own s)"
  shows "owns_traffic ans (traffic_refresh manual s)"
  unfolding owns_def
  by (rule keeps_mono [OF keeps_traffic_refresh [of ans False False s]])
     (use assms in \<open>auto simp: during_def tv_busy_def traffic_busy_def\<close>)

lemma owns_ingest:
  fixes s :: "'a traffic_page_scheme"
  assumes "\<not> traffic_busy s" and "traffic_ok ans (traffic_own s)"
  shows "owns_traffic ans (ingest replay s)"
proof -
  have "owns_traffic ans (try_finally (try_catch (ingest_body replay) (\<lambda>e. modify (ingest_failed e)))
      (\<lambda>s1. s1\<lparr>tr_importing := False\<rparr>) s1)"
    if "calm ans True False (traffic_own s1)" for s1 :: "'a traffic_page_scheme"
    by (rule owns_try [where G = "during ans True False"], rule keeps_ingest_body [OF that])
       (auto simp: during_def tv_busy_def ingest_failed_def traffic_ok_def)
  with assms show ?thesis
    by (auto simp: ingest_def during_def traffic_busy_def traffic_ok_def owns_def tv_busy_def)
qed

lemma owns_empty_batch:
  fixes s :: "'a traffic_page_scheme"
  assumes "\<not> traffic_busy s" and "traffic_ok ans (traffic_own s)"
  shows "owns_traffic ans (empty_batch s)"
proof -
  have "owns_traffic ans (try_finally (try_catch empty_body (\<lambda>e. modify (\<lambda>s1. s1\<lparr>tr_notice :=
        ''Could not confirm the sample was emptied. '' @ err_message e @ '' You can retry Empty batch safely.''\<rparr>)))
      (\<lambda>s1. s1\<lparr>tr_emptying := False\<rparr>) s1)"
    if "calm ans False True (traffic_own s1)" for s1 :: "'a traffic_page_scheme"
    by (rule owns_try [where G = "during ans False True"], rule keeps_empty_body [OF that])
       (auto simp: during_def tv_busy_def traffic_ok_def)
  with assms show ?thesis
    by (auto simp: empty_batch_def during_def traffic_busy_def traffic_ok_def)
qed

lemma sample_ids_facts [simp]: "''random'' \<in> set sample_ids" "''baseline'' \<in> set sample_ids"
  by (simp_all add: sample_ids_def samples_def)

lemma owns_random_feed:
  assumes "\<not> traffic_busy s" and "traffic_ok ans (traffic_own s)"
  shows "owns_traffic ans (random_feed s)"
  using assms by (auto simp: random_feed_def traffic_busy_def traffic_ok_def intro!: owns_ingest)

lemma owns_sample_change:
  assumes "\<not> traffic_busy s" and "traffic_ok ans (traffic_own s)"
  shows "owns_traffic ans (sample_change v s)"
  using assms by (auto simp: sample_change_def intro!: owns_traffic_refresh)
     (auto simp: traffic_busy_def traffic_ok_def owns_def tv_busy_def)

lemma owns_traffic_handlers:
  assumes "h \<in> traffic_handlers" and "\<not> traffic_busy s" and "traffic_ok ans (traffic_own s)"
  shows "owns_traffic ans (h s)"
  using assms owns_traffic_refresh [OF assms(2,3)]
  by (auto simp: traffic_handlers_def owns_ingest owns_empty_batch owns_random_feed owns_sample_change
      traffic_refresh_click_def traffic_public_refresh_def traffic_render_def)
     (auto simp: owns_def tv_busy_def traffic_busy_def)

interpretation traffic: exclusive traffic_handlers traffic_env ans traffic_own tv_busy "traffic_ok ans" traffic_sends
  for ans
proof (unfold_locales, goal_cases)
  case (1 h s)
  then show ?case
    by (auto simp: traffic_handlers_def tv_busy_def traffic_busy_def ingest_def empty_batch_def random_feed_def
        traffic_refresh_click_def traffic_public_refresh_def traffic_refresh_def traffic_render_def sample_change_def)
next
  case (2 h s)
  then show ?case by (intro owns_traffic_handlers) (auto simp: tv_busy_def traffic_busy_def)
next
  case (3 s s')
  then show ?case by (simp add: traffic_env_def)
qed

subsection \<open>Properties of the foot-traffic page\<close>

text \<open>
  C37. The report on the page is the selected sample's: in every order of clicks, selections and
  replies, at most one operation is in flight, exactly while one of the three flags is set, the
  selection is one of the samples, and a report that is shown is the service's answer for it.
\<close>

theorem traffic_report_matches_selection:
  assumes "\<not> traffic_busy s0" and "tr_selected s0 \<in> set sample_ids" and "tr_report s0 = None"
    and "reaches traffic_handlers traffic_env ans s0 (s, ts)"
  shows "length ts = (if traffic_busy s then 1 else 0) \<and> tr_selected s \<in> set sample_ids \<and>
    (\<forall>p. tr_report s = Some p \<longrightarrow> ans (ReadBody (report_request (tr_selected s))) (Body p))"
  using traffic.one_in_flight [OF _ _ assms(4)] assms(1-3)
  by (auto simp: traffic_busy_def tv_busy_def traffic_ok_def)

definition example_traffic :: "string \<Rightarrow> traffic_report" where
  "example_traffic c = \<lparr>trp_zones = [], trp_source = ''synthetic-partner-v1'',
     trp_synthetic = True, trp_published = 0, trp_released = 0, trp_suppressed = 0, trp_missing = 24,
     trp_as_of = 0, trp_start = 0, trp_end = 0, trp_minimum = 20, trp_scope = c\<rparr>"

lemma report_request_inj [simp]: "report_request a = report_request b \<longleftrightarrow> a = b"
  by (simp add: report_request_def get_request_def traffic_path_def)

definition honest_traffic :: "awaiting \<Rightarrow> reply \<Rightarrow> bool" where
  "honest_traffic q r \<longleftrightarrow> (\<forall>rq p. q = ReadBody rq \<and> r = Body p \<longrightarrow>
     (\<exists>c. rq = report_request c \<and> p = P_traffic_report (example_traffic c)))"

definition select_and_read :: "traffic_page event list" where
  "select_and_read = [Begin (sample_change ''gaps''), Begin (ingest False), Deliver 0 (Responded plain_ok),
     Deliver 0 (Body (P_traffic_report (example_traffic ''gaps'')))]"

lemma gaps_sample: "''gaps'' \<in> set sample_ids"
  by (simp add: sample_ids_def samples_def)

lemmas traffic_run_simps = traffic_refresh_def if_current_def request_def
  send_def receive_def read_or_null_def read_json_def async_simps Let_def plain_ok_def ok_def
  traffic_busy_def traffic_remember_def set_item_def

lemma select_and_read_run:
  "events_ok traffic_handlers honest_traffic select_and_read (fresh_traffic, [])"
  "tr_report (fst (run_events select_and_read (fresh_traffic, []))) = Some (P_traffic_report (example_traffic ''gaps''))"
  by (simp_all add: select_and_read_def sample_change_def ingest_def gaps_sample traffic_run_simps
      fresh_traffic_simps traffic_handlers_def honest_traffic_def)

theorem traffic_report_matches_selection_witness:
  "tr_report (fst (run_events select_and_read (fresh_traffic, []))) = Some (P_traffic_report (example_traffic ''gaps'')) \<and>
   tr_selected (fst (run_events select_and_read (fresh_traffic, []))) = ''gaps''"
proof -
  obtain s ts where run: "run_events select_and_read (fresh_traffic, []) = (s, ts)" by fastforce
  have "reaches traffic_handlers traffic_env honest_traffic fresh_traffic (s, ts)"
    using run_events_reaches_start [OF select_and_read_run(1)] run by metis
  then have "\<forall>p. tr_report s = Some p \<longrightarrow> honest_traffic (ReadBody (report_request (tr_selected s))) (Body p)"
    using traffic_report_matches_selection [of fresh_traffic honest_traffic s ts]
    by (simp add: fresh_traffic_simps traffic_busy_def sample_ids_def samples_def)
  with run select_and_read_run(2) show ?thesis by (simp add: honest_traffic_def example_traffic_def)
qed

text \<open>
  C12. A batch is kept before it is sent: whenever a write of the page is in flight, it is either the emptying of the
  selected sample or an import for it, and the body of an import, whatever the service gave as an example, is the
  selected sample's attempt, marked as not confirmed.
\<close>

theorem batch_kept_before_sending:
  assumes "\<not> traffic_busy s0" and "tr_selected s0 \<in> set sample_ids" and "tr_report s0 = None"
    and "reaches traffic_handlers traffic_env ans s0 (s, ts)"
    and "(Fetch rq, k) \<in> set ts" and "rq_post rq"
  shows "rq_path rq = rq_path (empty_request (tr_selected s)) \<and> rq_body rq = P_empty \<or>
    rq_path rq = rq_path (import_request (tr_selected s) (rq_body rq)) \<and>
    tr_attempts s (tr_selected s) = Some \<lparr>att_batch = rq_body rq, att_confirmed = False\<rparr>"
proof -
  have "traffic_sends (Fetch rq) (traffic_own s)"
    using traffic.one_in_flight [OF _ _ assms(4)] assms(1-3,5)
    by (fastforce simp: traffic_busy_def tv_busy_def traffic_ok_def)
  with assms(6) show ?thesis by (simp add: traffic_sends_def)
qed

definition example_feed :: traffic_batch where
  "example_feed = \<lparr>tba_id = ''batch'', tba_source = ''synthetic-partner-v1'',
     tba_windows = [\<lparr>win_zone = ''downtown'', win_start = 0, win_count = 40\<rparr>]\<rparr>"

definition loaded_traffic :: traffic_page where
  "loaded_traffic = fresh_traffic\<lparr>tr_attempts := [''baseline'' \<mapsto> \<lparr>att_batch = P_traffic_batch example_feed, att_confirmed = True\<rparr>]\<rparr>"

lemma loaded_traffic_sel [simp]:
  "tr_attempts loaded_traffic = [''baseline'' \<mapsto> \<lparr>att_batch = P_traffic_batch example_feed, att_confirmed = True\<rparr>]"
  "tr_selected loaded_traffic = ''baseline''" "\<not> traffic_busy loaded_traffic" "tr_report loaded_traffic = None"
  "\<not> invalidated loaded_traffic" "storage_ok loaded_traffic" "clock loaded_traffic = 0"
  by (simp_all add: loaded_traffic_def fresh_traffic_simps traffic_busy_def)

text \<open>The first thing a replay waits for, and what the session's storage holds by then.\<close>

lemma replay_sends:
  assumes "\<not> traffic_busy s" and "tr_attempts s (tr_selected s) = Some a" and "\<not> invalidated s" and "storage_ok s"
  shows "\<exists>s1 k. ingest True s = Await s1 (Fetch (stamp s1 (import_request (tr_selected s) (att_batch a)))) k \<and>
    tr_selected s1 = tr_selected s \<and>
    session_store s1 traffic_key = Some (SavedTraffic (save_json (tr_selected s)
      ((tr_attempts s)(tr_selected s \<mapsto> \<lparr>att_batch = att_batch a, att_confirmed = False\<rparr>))))"
  using assms
  by (simp add: ingest_def ingest_body_def chosen_batch_def keep_attempt_def traffic_remember_def set_item_def
      request_def send_def async_simps)

text \<open>
  A replay sends the saved batch unchanged: it asks the service with the same identity and the
  same windows as the attempt it repeats, and before the request leaves, the session's storage
  holds that attempt as not confirmed, so that a reload can repeat it too.
\<close>

theorem replay_resends_saved_batch:
  assumes "\<not> traffic_busy s" and "tr_attempts s (tr_selected s) = Some a" and "\<not> invalidated s" and "storage_ok s"
  shows "\<exists>g s1 k. ingest True s =
      Await s1 (Fetch ((import_request (tr_selected s) (att_batch a))\<lparr>rq_generation := g\<rparr>)) k \<and>
    saved_traffic s1 = Some (save_json (tr_selected s)
      ((tr_attempts s)(tr_selected s \<mapsto> \<lparr>att_batch = att_batch a, att_confirmed = False\<rparr>)))"
proof -
  obtain s1 k where k: "ingest True s = Await s1 (Fetch (stamp s1 (import_request (tr_selected s) (att_batch a)))) k"
    "session_store s1 traffic_key = Some (SavedTraffic (save_json (tr_selected s)
      ((tr_attempts s)(tr_selected s \<mapsto> \<lparr>att_batch = att_batch a, att_confirmed = False\<rparr>))))"
    using replay_sends [OF assms] by blast
  have "storage_ok s1" using k(1) assms
    by (auto simp: ingest_def ingest_body_def chosen_batch_def keep_attempt_def traffic_remember_def
      request_def send_def async_simps)
  moreover have "\<exists>g. stamp s1 rq = rq\<lparr>rq_generation := g\<rparr>" for rq
    by (auto simp: stamp_def intro: exI [of _ "rq_generation rq"])
  ultimately show ?thesis using k by (auto simp: saved_traffic_def)
qed

theorem replay_resends_saved_batch_witness:
  "\<exists>g s1 k. ingest True loaded_traffic =
      Await s1 (Fetch ((import_request ''baseline'' (P_traffic_batch example_feed))\<lparr>rq_generation := g\<rparr>)) k"
  using replay_resends_saved_batch [of loaded_traffic "\<lparr>att_batch = P_traffic_batch example_feed, att_confirmed = True\<rparr>"]
  by auto

theorem batch_kept_before_sending_witness:
  "\<exists>s rq k. run_events [Begin (ingest True)] (loaded_traffic, []) = (s, [(Fetch rq, k)]) \<and>
     tr_attempts s ''baseline'' = Some \<lparr>att_batch = P_traffic_batch example_feed, att_confirmed = False\<rparr>"
proof -
  obtain s k where k: "ingest True loaded_traffic =
      Await s (Fetch (stamp s (import_request ''baseline'' (P_traffic_batch example_feed)))) k" "tr_selected s = ''baseline''"
    using replay_sends [of loaded_traffic "\<lparr>att_batch = P_traffic_batch example_feed, att_confirmed = True\<rparr>"] by auto
  have run: "run_events [Begin (ingest True)] (loaded_traffic, []) =
      (s, [(Fetch (stamp s (import_request ''baseline'' (P_traffic_batch example_feed))), k)])" by (simp add: k)
  have "reaches traffic_handlers traffic_env (\<lambda>_ _. True) loaded_traffic
      (run_events [Begin (ingest True)] (loaded_traffic, []))"
    by (rule run_events_reaches_start) (simp add: traffic_handlers_def)
  with run have "tr_attempts s ''baseline'' = Some \<lparr>att_batch = P_traffic_batch example_feed, att_confirmed = False\<rparr>"
    using batch_kept_before_sending [of loaded_traffic "\<lambda>_ _. True" s
      "[(Fetch (stamp s (import_request ''baseline'' (P_traffic_batch example_feed))), k)]"
      "stamp s (import_request ''baseline'' (P_traffic_batch example_feed))" k] k(2)
    by (simp add: import_request_def empty_request_def traffic_path_def)
  with run show ?thesis by blast
qed

subsection \<open>The page and the session\<close>

lemma traffic_remember_session:
  "retired s \<Longrightarrow> same_session s (traffic_remember s) \<and> retired (traffic_remember s)"
  using guarded_save [of s traffic_key] by (simp add: traffic_remember_def run_keys_def)

lemma remember_after:
  assumes "beside_session f" and "retired s"
  shows "same_session s (traffic_remember (f s)) \<and> retired (traffic_remember (f s))"
  using traffic_remember_session [of "f s"] beside_sessionD [OF assms] transpD [OF same_session_trans] by blast

lemma keep_attempt_session:
  "retired s \<Longrightarrow> same_session s (keep_attempt a s) \<and> retired (keep_attempt a s)"
  unfolding keep_attempt_def by (rule remember_after) (simp_all add: beside_session_def)

lemma emptied_session: "retired s \<Longrightarrow> same_session s (emptied s) \<and> retired (emptied s)"
  using remember_after [of "\<lambda>s. s\<lparr>tr_attempts := (tr_attempts s)(tr_selected s := None)\<rparr>" s]
  by (simp add: emptied_def beside_session_def same_session_def retired_def)

lemma obeys_traffic_refresh:
  "obeys same_session retired ans (traffic_refresh manual :: ('a traffic_page_scheme, unit) prog)"
proof -
  have "obeys same_session retired ans
    (try_finally
      (try_catch
        (bind (request (report_request c)) (\<lambda>data.
           modify (if_current n (\<lambda>s1 :: 'a traffic_page_scheme. s1\<lparr>tr_report := Some data, tr_notice :=
             (if manual then ''Report refreshed. This reads saved observations; use Load sample feed to import data.''
              else tr_notice s1)\<rparr>))))
        (\<lambda>e. modify (if_current n (\<lambda>s1. s1\<lparr>tr_error := err_message e\<rparr>))))
      (if_current n (\<lambda>s1. s1\<lparr>tr_loading := False\<rparr>)))" for c n
    by (intro doc.obeys_intros beside_sessionD) (auto simp: beside_session_def if_current_def)
  from obeys_at [OF same_session_trans this]
  show ?thesis
    by (intro obeysI) (auto simp: traffic_refresh_def Let_def same_session_def retired_def)
qed

lemma obeys_chosen_batch: "obeys same_session retired ans (chosen_batch replay)"
proof -
  have "obeys same_session retired ans (request rq)" for rq by (intro doc.obeys_intros)
  then show ?thesis by (auto simp: chosen_batch_def obeys_def split: option.split)
qed

lemma obeys_ingest: "obeys same_session retired ans (ingest replay :: ('a traffic_page_scheme, unit) prog)"
proof -
  have "obeys same_session retired ans
    (try_finally (try_catch (ingest_body replay) (\<lambda>e. modify (ingest_failed e)))
      (\<lambda>s1 :: 'a traffic_page_scheme. s1\<lparr>tr_importing := False\<rparr>))"
    unfolding ingest_body_def
    by (intro doc.obeys_intros obeys_chosen_batch obeys_traffic_refresh keep_attempt_session beside_sessionD)
       (auto simp: beside_session_def ingest_failed_def)
  from obeys_entered [OF this, where f = "\<lambda>s. s\<lparr>tr_importing := True, tr_notice :=
           (if replay then ''Checking the previous batch again...'' else ''Importing synthetic aggregate windows...'')\<rparr>"]
  show ?thesis
    by (intro obeysI) (auto simp: ingest_def beside_session_def, auto simp: same_session_def retired_def)
qed

lemma obeys_empty_batch: "obeys same_session retired ans empty_batch"
  unfolding empty_batch_def [abs_def] empty_body_def
  by (intro obeys_guard doc.obeys_intros obeys_traffic_refresh emptied_session same_session_trans
        same_session_refl beside_sessionD) (auto simp: beside_session_def)

lemma obeys_after_remember:
  assumes "obeys same_session retired ans m" and "beside_session f" and "retired s"
  shows "rg same_session retired ans (\<lambda>_ _. True) (\<lambda>_ _. True) s (m (traffic_remember (f s)))"
  using obeys_at [OF same_session_trans assms(1)] remember_after [OF assms(2,3)] by blast

lemma obeys_traffic_handlers: "h \<in> traffic_handlers \<Longrightarrow> obeys same_session retired ans h"
proof -
  have "obeys same_session retired ans (random_feed :: ('a traffic_page_scheme, unit) prog)"
    using obeys_after_remember [OF obeys_ingest, where f = "\<lambda>s :: 'a traffic_page_scheme. s\<lparr>tr_report :=
             (if tr_selected s \<noteq> ''random'' then None else tr_report s),
           tr_selected := ''random'', tr_error := []\<rparr>"]
    by (intro obeysI) (auto simp: random_feed_def beside_session_def)
  moreover have "obeys same_session retired ans (sample_change v :: ('a traffic_page_scheme, unit) prog)" for v
    using obeys_after_remember [OF obeys_traffic_refresh, where f = "\<lambda>s :: 'a traffic_page_scheme.
        s\<lparr>tr_selected := v, tr_report := None, tr_error := [], tr_notice := []\<rparr>"]
    by (intro obeysI) (auto simp: sample_change_def beside_session_def)
  moreover have "obeys same_session retired ans (traffic_refresh_click :: ('a traffic_page_scheme, unit) prog)"
    "obeys same_session retired ans (traffic_public_refresh :: ('a traffic_page_scheme, unit) prog)"
    "obeys same_session retired ans (traffic_render :: ('a traffic_page_scheme, unit) prog)"
    by (auto intro!: obeysI obeys_at [OF same_session_trans obeys_traffic_refresh] simp: traffic_refresh_click_def traffic_public_refresh_def traffic_render_def)
  moreover assume "h \<in> traffic_handlers"
  ultimately show ?thesis by (auto simp: traffic_handlers_def obeys_ingest obeys_empty_batch)
qed

end
