(* ===== verification/Document.thy ===== *)
theory Document
  imports FootTraffic
begin

text \<open>
  The whole document: all handlers of all scripts in one event loop, sharing the demo session of
  \<open>demo-reset.js\<close>. The session's purpose is that work of a tab never reaches a newer dataset; here
  every request is shown to carry the generation the document had when it was sent, for each
  handler of each script, and a locale turns that and the promise of \<open>same_session\<close> into facts about
  every interleaving.
\<close>

subsection \<open>Requests carry the generation\<close>

text \<open>A request leaves only while the document is valid, with its generation or, before one is known, none.\<close>

definition header_ok :: "'a page_scheme \<Rightarrow> awaiting \<Rightarrow> bool" where
  "header_ok s q \<longleftrightarrow> (\<forall>rq. q = Fetch rq \<longrightarrow> \<not> invalidated s \<and>
     rq_generation rq = (if truthy (generation s) then generation s else None))"

primrec stamped :: "('a page_scheme, 'b) async \<Rightarrow> bool" where
  "stamped (Return s a) = True"
| "stamped (Throw s e) = True"
| "stamped (Await s q k) = (header_ok s q \<and> (\<forall>r s'. stamped (k r s')))"

definition stamps :: "('a page_scheme, 'b) prog \<Rightarrow> bool" where
  "stamps m \<longleftrightarrow> (\<forall>s. stamped (m s))"

lemma stamped_abind: "stamped m \<Longrightarrow> (\<And>a. stamps (f a)) \<Longrightarrow> stamped (abind m f)"
  by (induction m) (auto simp: stamps_def)

lemma stamped_acatch: "stamped m \<Longrightarrow> (\<And>e. stamps (h e)) \<Longrightarrow> stamped (acatch m h)"
  by (induction m) (auto simp: stamps_def)

lemma stamped_afinally: "stamped m \<Longrightarrow> stamped (afinally m f)"
  by (induction m) auto

lemma stamps_combine:
  "stamps m \<Longrightarrow> (\<And>a. stamps (f a)) \<Longrightarrow> stamps (bind m f)"
  "stamps m \<Longrightarrow> stamps n \<Longrightarrow> stamps (seq m n)"
  "stamps m \<Longrightarrow> (\<And>e. stamps (h e)) \<Longrightarrow> stamps (try_catch m h)"
  "stamps m \<Longrightarrow> stamps (try_finally m g)"
  by (auto simp: stamps_def bind_def seq_def try_catch_def try_finally_def
      intro!: stamped_acatch stamped_afinally stamped_abind [unfolded stamps_def])

lemma stamps_pure:
  "stamps (ret a)" "stamps (throw e)" "stamps (gets g)" "stamps (modify f)" "stamps (await (Sleep n))"
  "stamps random_uuid" "stamps (shaped sh p)" "stamps (assert b t)" "stamps (defined x)"
  by (auto simp: stamps_def async_simps header_ok_def shaped_def assert_def defined_def split: option.split)

lemma stamps_run: "stamps the_run" "stamps (update_run f)"
  by (auto simp: stamps_def the_run_def update_run_def async_simps split: option.split)

lemma stamps_cases:
  "(b \<Longrightarrow> stamps m) \<Longrightarrow> (\<not> b \<Longrightarrow> stamps n) \<Longrightarrow> stamps (if b then m else n)"
  "(x = None \<Longrightarrow> stamps m) \<Longrightarrow> (\<And>a. x = Some a \<Longrightarrow> stamps (f a)) \<Longrightarrow>
   stamps (case x of None \<Rightarrow> m | Some a \<Rightarrow> f a)"
  "(\<And>a. y = Inl a \<Longrightarrow> stamps (g a)) \<Longrightarrow> (\<And>b. y = Inr b \<Longrightarrow> stamps (h b)) \<Longrightarrow>
   stamps (case y of Inl a \<Rightarrow> g a | Inr b \<Rightarrow> h b)"
  by (auto split: option.split sum.split)

text \<open>A handler that refuses, or goes on after a synchronous change.\<close>

lemma stamps_guard: "stamps m \<Longrightarrow> stamps (\<lambda>s. if b s then Return (g s) () else m (f s))"
  by (simp add: stamps_def)

lemma stampsD [simp]: "stamps m \<Longrightarrow> stamped (m s)"
  by (simp add: stamps_def)

lemma stamps_send: "rq_generation rq = None \<Longrightarrow> stamps (send rq b)"
  by (auto simp: stamps_def send_def receive_def header_ok_def stamp_def Let_def split: reply.split)

lemma stamps_read_json: "stamps (read_json rq)"
  by (auto simp: stamps_def read_json_def header_ok_def split: reply.split)

lemma stamps_request: "rq_generation rq = None \<Longrightarrow> stamps (request rq)"
  unfolding request_def read_or_null_def
  by (intro stamps_combine stamps_send stamps_read_json stamps_pure stamps_cases)

lemmas stamps_intros =
  stamps_combine stamps_pure stamps_run stamps_cases stamps_guard stamps_send stamps_read_json stamps_request

lemma requests_unstamped [simp]:
  "rq_generation snapshot_request = None" "rq_generation runtime_request = None"
  "rq_generation (reserve_request p k) = None" "rq_generation reset_request = None"
  "rq_generation (assurance_request c) = None" "rq_generation (hold_request pl) = None"
  "rq_generation (batch_request items) = None" "rq_generation (delivery_request i) = None"
  "rq_generation (plan_request r k) = None" "rq_generation (correction_request c2) = None"
  "rq_generation (report_request sel) = None" "rq_generation (example_request sel) = None"
  "rq_generation (import_request sel b) = None" "rq_generation (empty_request sel) = None"
  by (simp_all add: snapshot_request_def runtime_request_def reserve_request_def reset_request_def
      assurance_request_def hold_request_def batch_request_def delivery_request_def plan_request_def
      correction_request_def report_request_def example_request_def import_request_def empty_request_def)

subsection \<open>Every handler of every script\<close>

lemma stamps_refresh: "stamps (refresh collate)"
  unfolding refresh_def [abs_def] by (intro stamps_intros) simp_all

lemma stamps_confirm_reset: "stamps confirm_reset"
  unfolding confirm_reset_def [abs_def] by (intro stamps_intros) simp_all

lemma stamps_session_handlers: "h \<in> session_handlers \<Longrightarrow> stamps h"
  by (auto simp: session_handlers_def storage_handlers_def stamps_confirm_reset)
     (auto simp: stamps_def open_reset_def cancel_reset_def on_storage_def)

lemma stamps_scenario: "stamps (scenario collate kind)"
  unfolding scenario_def [abs_def] scenario_body_def by (intro stamps_intros stamps_refresh) simp_all

lemma stamps_replay_click: "stamps (replay_click collate i)"
  unfolding replay_click_def by (intro stamps_intros stamps_refresh) simp_all

lemma stamps_record_playback: "stamps (record_playback collate i)"
  unfolding record_playback_def by (intro stamps_intros stamps_refresh) simp_all

lemma stamps_form_request_key: "stamps (form_request_key payload)"
  by (auto simp: stamps_def form_request_key_def async_simps split: option.split)

lemma stamps_submit_body: "stamps (submit_body collate c scr p n)"
  unfolding submit_body_def Let_def
  by (intro stamps_intros stamps_refresh stamps_form_request_key) simp_all

lemma stamps_submit_reserve: "stamps (submit_reserve collate c scr p)"
  by (simp add: stamps_def [of "submit_reserve _ _ _ _"] submit_reserve_def stamps_submit_body)

lemma stamps_console_handlers: "h \<in> console_handlers collate \<Longrightarrow> stamps h"
  by (auto simp: console_handlers_def stamps_refresh stamps_scenario stamps_replay_click
      stamps_record_playback stamps_submit_reserve stamps_pure)
     (auto simp: stamps_def [of "poll _ _"] stamps_def [of "live_toggle _"] stamps_def [of "screen_click _"]
        poll_def live_toggle_def screen_click_def Let_def stamps_refresh split: option.split)

lemma stamps_one_request:
  "rq_generation rq = None \<Longrightarrow>
   stamps (try_finally (try_catch (bind (request rq) (\<lambda>data. modify (f data))) (\<lambda>e. modify (g e))) h)"
  by (intro stamps_intros)

lemma stamps_fetch_report: "stamps fetch_report"
  by (simp add: stamps_def [of fetch_report] fetch_report_def Let_def stamps_one_request)

lemma stamps_assurance_handlers: "h \<in> assurance_handlers \<Longrightarrow> stamps h"
  by (auto simp: assurance_handlers_def stamps_fetch_report)
     (auto simp: stamps_def [of "campaign_change _"] stamps_def [of assurance_render]
        campaign_change_def assurance_render_def stamps_fetch_report)

lemma stamps_fresh_events: "stamps (fresh_events n r)"
  by (induction n) (simp_all, (intro stamps_intros | assumption)+)

lemma stamps_example_items: "stamps (example_items kind r)"
  unfolding example_items_def Let_def
  by (cases kind; simp only: example_kind.case; intro stamps_intros stamps_fresh_events)

lemma stamps_load_body: "stamps (load_body c)"
proof -
  have "stamps (use_hold r :: ('a intake_page_scheme, unit) prog)" for r
    by (simp add: stamps_def [of "use_hold _"] use_hold_def stamps_combine stamps_pure stamps_example_items)
  moreover have "stamps (make_plan cost :: ('a intake_page_scheme, unit) prog)" for cost
    unfolding make_plan_def by (intro stamps_combine) (auto intro!: stamps_intros split: option.split list.split)
  moreover have "stamps (obtain_hold :: ('a intake_page_scheme, reservation) prog)"
    unfolding obtain_hold_def by (intro stamps_intros) (simp_all add: stamps_def [of "take_hold _ _"] take_hold_def split: option.split)
  ultimately have "stamps (load_body c :: ('a intake_page_scheme, unit) prog)"
    unfolding load_body_def by (intro stamps_combine) (auto simp: stamps_def)
  then show ?thesis .
qed

lemma stamps_load_example: "stamps load_example"
  by (auto simp: stamps_def [of load_example] load_example_def split: sum.split
      intro!: stampsD stamps_intros stamps_load_body)

lemma stamps_send_body: "stamps (send_body collate items)"
  unfolding send_body_def by (intro stamps_intros stamps_refresh) simp_all

lemma stamps_send_batch: "stamps (send_batch collate)"
  by (auto simp: stamps_def [of "send_batch _"] send_batch_def split: sum.split
      intro!: stampsD stamps_intros stamps_send_body)

lemma stamps_intake_handlers: "h \<in> intake_handlers collate \<Longrightarrow> stamps h"
  by (auto simp: intake_handlers_def stamps_load_example stamps_send_batch)
     (auto simp: stamps_def price_input_def kind_change_def draft_input_def)

lemma stamps_mixed_batch: "stamps (mixed_batch items)"
  unfolding mixed_batch_def by (intro stamps_intros) simp_all

lemma stamps_read_rows: "stamps (read_rows ids)"
  by (induction ids) (simp_all, (intro stamps_intros | assumption | simp)+)

lemma stamps_observe_until: "stamps (observe_until n deadline ids)"
  by (induction n) (simp_all, (intro stamps_intros stamps_read_rows | assumption)+)

lemma stamps_observe: "stamps (observe ids)"
  unfolding observe_def by (intro stamps_intros stamps_observe_until)

lemma stamps_reserve_holds: "stamps (reserve_holds ks)"
  by (induction ks) (simp_all, (intro stamps_intros | assumption | simp)+)

lemma stamps_stages:
  "stamps stage_reserve" "stamps stage_accept" "stamps stage_retry" "stamps stage_reconcile"
  "stamps stage_correct" "stamps stage_verify"
  unfolding stage_reserve_def stage_accept_def stage_retry_def stage_reconcile_def stage_correct_def
    stage_verify_def
  by (intro stamps_intros stamps_mixed_batch stamps_observe stamps_reserve_holds; simp)+

lemma stamps_step: "stamps fn \<Longrightarrow> stamps (step i fn)"
  unfolding step_def by (intro stamps_intros)

lemma stamps_fresh_uuids: "stamps (fresh_uuids n)"
  by (induction n) (simp_all, (intro stamps_intros | assumption)+)

lemma stamps_new_run: "stamps (new_run campaign)"
  unfolding new_run_def
  by (intro stamps_combine) (auto intro!: stamps_intros stamps_fresh_uuids split: option.split list.split)

lemma stamps_execute: "stamps (execute collate campaign)"
  unfolding execute_def [abs_def] execute_body_def six_steps_def
  by (intro stamps_intros stamps_refresh stamps_new_run stamps_step stamps_stages)

lemma stamps_proof_handlers: "h \<in> proof_handlers collate \<Longrightarrow> stamps h"
  by (auto simp: proof_handlers_def stamps_execute)
     (simp add: stamps_def [of "overview_proof _"] overview_proof_def stamps_execute)

lemma stamps_traffic_refresh: "stamps (traffic_refresh manual)"
  by (simp add: stamps_def [of "traffic_refresh _"] traffic_refresh_def Let_def stamps_one_request)

lemma stamps_chosen_batch: "stamps (chosen_batch replay)"
  by (simp add: stamps_def [of "chosen_batch _"] chosen_batch_def stamps_combine stamps_pure
      stamps_request split: option.split)

lemma stamps_ingest: "stamps (ingest replay)"
proof -
  have "stamps (ingest_body replay :: ('a traffic_page_scheme, unit) prog)"
    unfolding ingest_body_def by (intro stamps_intros stamps_chosen_batch stamps_traffic_refresh) simp
  then have "stamps (ingest replay :: ('a traffic_page_scheme, unit) prog)"
    by (auto simp: stamps_def [of "ingest _"] ingest_def intro!: stampsD stamps_intros)
  then show ?thesis .
qed

lemma stamps_empty_batch: "stamps empty_batch"
  unfolding empty_batch_def [abs_def] empty_body_def
  by (intro stamps_intros stamps_traffic_refresh) simp

lemma stamps_traffic_handlers: "h \<in> traffic_handlers \<Longrightarrow> stamps h"
  by (auto simp: traffic_handlers_def stamps_ingest stamps_empty_batch)
     (auto simp: stamps_def [of random_feed] stamps_def [of traffic_refresh_click] stamps_def [of traffic_public_refresh]
        stamps_def [of traffic_render] stamps_def [of "sample_change _"] random_feed_def traffic_refresh_click_def
        traffic_public_refresh_def traffic_render_def sample_change_def stamps_ingest stamps_traffic_refresh)

subsection \<open>The tab as a whole\<close>

definition nav_handlers :: "string comparator \<Rightarrow> ('a nav_page_scheme, unit) prog set" where
  "nav_handlers collate = modify ` ({open_navigation, close_navigation, nav_enter collate} \<union>
     range nav_type \<union> range (nav_follow collate) \<union> range nav_arrow \<union> {nav_shortcut m k | m k. True})"

definition document_handlers :: "string comparator \<Rightarrow> ('a traffic_page_scheme, unit) prog set" where
  "document_handlers collate = session_handlers \<union> console_handlers collate \<union> nav_handlers collate \<union>
     assurance_handlers \<union> intake_handlers collate \<union> proof_handlers collate \<union> traffic_handlers"

text \<open>What happens outside of the scripts: time, the focus, another document's work; never the session.\<close>

definition document_env :: "'a page_scheme \<Rightarrow> 'a page_scheme \<Rightarrow> bool" where
  "document_env s s' \<longleftrightarrow> storage_ok s' = storage_ok s \<and> invalidated s' = invalidated s \<and>
     generation s' = generation s \<and> reloads s' = reloads s \<and> session_store s' = session_store s"

lemma beside_session_nav [simp]:
  "beside_session open_navigation" "beside_session close_navigation" "beside_session (nav_type v)"
  "beside_session (nav_follow collate i)" "beside_session (nav_arrow down)"
  "beside_session (nav_enter collate)" "beside_session (nav_shortcut m k)"
  by (auto simp: beside_session_def open_navigation_def close_navigation_def nav_type_def nav_follow_def
      nav_arrow_def nav_enter_def nav_shortcut_def hash_change_def Let_def split: option.split nav_focus.split)

lemma obeys_nav_handlers: "h \<in> nav_handlers collate \<Longrightarrow> obeys same_session retired ans h"
  by (auto simp: nav_handlers_def intro!: obeys_beside)

lemma stamps_nav_handlers: "h \<in> nav_handlers collate \<Longrightarrow> stamps h"
  by (auto simp: nav_handlers_def stamps_pure)

lemma obeys_document:
  "h \<in> document_handlers collate \<Longrightarrow> obeys same_session retired ans h"
  unfolding document_handlers_def
  by (elim UnE) (rule obeys_session_handlers obeys_console_handlers obeys_nav_handlers
      obeys_assurance_handlers obeys_intake_handlers obeys_proof_handlers obeys_traffic_handlers; assumption)+

lemma stamps_document: "h \<in> document_handlers collate \<Longrightarrow> stamps h"
  unfolding document_handlers_def
  by (elim UnE) (rule stamps_session_handlers stamps_console_handlers stamps_nav_handlers
      stamps_assurance_handlers stamps_intake_handlers stamps_proof_handlers stamps_traffic_handlers; assumption)+

definition in_flight :: "'s task list \<Rightarrow> http_request list" where
  "in_flight ts = concat (map (\<lambda>t. case fst t of Fetch rq \<Rightarrow> [rq] | _ \<Rightarrow> []) ts)"

lemma in_flight_simps [simp]:
  "in_flight [] = []" "in_flight (us @ vs) = in_flight us @ in_flight vs"
  "in_flight ((Fetch rq, k) # ts) = rq # in_flight ts" "in_flight ((ReadBody rq, k) # ts) = in_flight ts"
  "in_flight ((Sleep n, k) # ts) = in_flight ts"
  by (simp_all add: in_flight_def)

lemma in_flight_mem: "rq \<in> set (in_flight ts) \<longleftrightarrow> (\<exists>k. (Fetch rq, k) \<in> set ts)"
  by (induction ts) (auto simp: in_flight_def split: awaiting.splits)

text \<open>
  Handlers that keep the session's promise and stamp their requests. A request in flight was sent
  by an earlier, valid state of the same session; a retired document sends nothing.
\<close>

locale one_dataset = cooperative handlers env ans same_session retired
  for handlers :: "('a page_scheme, unit) prog set" and env and ans +
  assumes stamping: "h \<in> handlers \<Longrightarrow> stamps h"
begin

definition sent_here :: "'a page_scheme \<Rightarrow> http_request \<Rightarrow> bool" where
  "sent_here s rq \<longleftrightarrow> (\<exists>s0. same_session s0 s \<and> header_ok s0 (Fetch rq))"

definition tracked :: "'a page_scheme config \<Rightarrow> bool" where
  "tracked c \<longleftrightarrow> (\<forall>t \<in> set (snd c). \<forall>r s. stamped (snd t r s)) \<and>
     (\<forall>rq \<in> set (in_flight (snd c)). sent_here (fst c) rq)"

lemma sent_here_mono: "sent_here s rq \<Longrightarrow> same_session s s' \<Longrightarrow> sent_here s' rq"
  unfolding sent_here_def using transpD [OF same_session_trans] by blast

lemma absorb_tracked:
  assumes "stamped m" and "tracked (p, ts)" and "same_session p (fst (absorb m ts))"
  shows "tracked (absorb m ts)"
proof (cases m)
  case (Await s q k)
  with assms(1) have "q = Fetch rq \<Longrightarrow> sent_here s rq" for rq
    unfolding sent_here_def by (auto intro!: exI [of _ s])
  with Await assms show ?thesis
    by (auto simp: tracked_def in_flight_mem dest: sent_here_mono)
qed (use assms in \<open>auto simp: tracked_def dest: sent_here_mono\<close>)

lemma step_tracked:
  assumes "loop_step handlers env ans c c'" and "sound c" and "tracked c"
  shows "tracked c'"
proof -
  have R: "same_session (fst c) (fst c')" using step_sound [OF assms(1,2)] by blast
  from assms(1) show ?thesis
  proof (cases rule: loop_step.cases)
    case (start h s ts)
    with assms(3) R stamping show ?thesis by (auto intro!: absorb_tracked [of _ s])
  next
    case (resume q r s us k vs)
    with assms(3) have "tracked (s, us @ vs)" and "stamped (k r s)"
      by (auto simp: tracked_def in_flight_mem)
    with resume R show ?thesis by (auto intro!: absorb_tracked [of _ s])
  next
    case (outside s s' ts)
    with assms(3) R show ?thesis by (auto simp: tracked_def dest: sent_here_mono)
  qed
qed

lemma reaches_tracked:
  assumes "retired s0" and "reaches handlers env ans s0 c"
  shows "sound c \<and> tracked c \<and> same_session s0 (fst c)"
  using assms(2)
proof (induction rule: reaches_induct)
  case init
  show ?case using assms(1) by (simp add: sound_def tracked_def)
next
  case (step c c')
  then show ?case using step_sound step_tracked transpD [OF same_session_trans] by blast
qed

text \<open>A request in flight that names a generation names the document's own.\<close>

lemma in_flight_generation:
  assumes "retired s0" and "reaches handlers env ans s0 (s, ts)"
    and "(Fetch rq, k) \<in> set ts" and "rq_generation rq = Some g" and "\<not> invalidated s"
  shows "generation s = Some g"
proof -
  have "rq \<in> set (in_flight ts)" using assms(3) by (auto simp: in_flight_mem)
  with reaches_tracked [OF assms(1,2)] obtain p where "same_session p s" and "header_ok p (Fetch rq)"
    by (auto simp: tracked_def sent_here_def)
  with assms(4,5) show ?thesis
    by (auto simp: header_ok_def same_session_def split: if_splits)
qed

lemma absorb_silent:
  assumes "stamped m" and "same_session p (fst (absorb m ts))" and "invalidated p"
  shows "in_flight (snd (absorb m ts)) = in_flight ts"
proof (cases m)
  case (Await s q k)
  with assms have "invalidated s" and "header_ok s q" by (auto simp: same_session_def)
  then have "q \<noteq> Fetch rq" for rq by (auto simp: header_ok_def)
  with Await show ?thesis by (cases q) auto
qed simp_all

text \<open>Nothing more is sent once the document is invalidated.\<close>

lemma silent_step:
  assumes "retired s0" and "reaches handlers env ans s0 (s, ts)" and "invalidated s"
    and "loop_step handlers env ans (s, ts) (s', ts')"
  shows "invalidated s' \<and> generation s' = generation s \<and> mset (in_flight ts') \<subseteq># mset (in_flight ts)"
proof -
  have tr: "sound (s, ts)" "tracked (s, ts)" using reaches_tracked [OF assms(1,2)] by auto
  have R: "same_session s s'" using step_sound [OF assms(4) tr(1)] by simp
  have "mset (in_flight ts') \<subseteq># mset (in_flight ts)"
    using assms(4)
  proof (cases rule: loop_step.cases)
    case (start h)
    with absorb_silent [of "h s" s ts] stamping [of h] R assms(3) show ?thesis
      by (metis fst_conv prod.inject snd_conv stampsD subset_mset.order_refl)
  next
    case (resume q r us k vs)
    then have "stamped (k r s)" using tr(2) by (auto simp: tracked_def)
    with absorb_silent [of "k r s" s "us @ vs"] resume R assms(3)
    have "in_flight ts' = in_flight (us @ vs)" by (metis fst_conv prod.inject snd_conv)
    with resume show ?thesis by (cases q) auto
  qed auto
  with R assms(3) show ?thesis by (simp add: same_session_def)
qed

end

end
