(* ===== verification/PageViews.thy ===== *)
theory PageViews
  imports Views Document
begin

text \<open>
  The pages of \<open>proof.js\<close>, \<open>intake.js\<close>, \<open>assurance.js\<close> and \<open>foottraffic.js\<close>, the overview and the
  list of the page finder, template by template, and the table by which \<open>render\<close> of \<open>app.js\<close> chooses
  a view. A page that reads a report of another shape than the API's throws: it is \<open>None\<close>. At the end
  every text that becomes HTML is collected, and each is shown to be a whole fragment in which no
  value acts as markup.
\<close>

text \<open>What else the browser prints by its own rules on these pages.\<close>

record page_browser = browser +
  br_hour :: "int \<Rightarrow> string"
  br_date :: "int \<Rightarrow> string"
  br_clock :: "int \<Rightarrow> string"
  br_fixed :: "rat \<Rightarrow> string"
  br_height :: "int \<Rightarrow> int \<Rightarrow> string"
  br_ring :: "nat \<Rightarrow> string"
  br_row :: "evidence \<Rightarrow> string"
  br_draft :: "draft \<Rightarrow> string"

text \<open>An integer as a template prints it.\<close>

definition int_text :: "int \<Rightarrow> string" where
  "int_text n = (if n < 0 then ''-'' else []) @ dec (nat \<bar>n\<bar>)"

text \<open>\<open>String(n).padStart(2, "0")\<close>.\<close>

definition pad_two :: "nat \<Rightarrow> string" where
  "pad_two n = (if n < 10 then ''0'' else []) @ dec n"

subsection \<open>The live integration proof (\<open>proof.js\<close>)\<close>

definition proof_card :: "'a proof_page_scheme \<Rightarrow> nat \<times> string \<times> string \<times> string \<Rightarrow> html" where
  \<open>proof_card s x =
     (let (i, name, summary, detail) = x; c = card_state s i in
     [Lit ''<li class="proof-step '',
      Lit (case c of Verified \<Rightarrow> ''complete'' | Running \<Rightarrow> ''executing'' | Pending \<Rightarrow> []),
      Lit ''"><span class="proof-step-number">''] @
     (if c = Verified then [Glyph 0x2713] else [Val (pad_two (i + 1))]) @
     [Lit ''</span><div><strong>'', Val name, Lit ''</strong><small>'', Val summary,
      Lit ''</small></div><span class="proof-step-state">'',
      Lit (case c of Verified \<Rightarrow> ''Verified'' | Running \<Rightarrow> ''Running'' | Pending \<Rightarrow> ''Pending''),
      Lit ''</span></li>''])\<close>

definition proof_cards :: "'a proof_page_scheme \<Rightarrow> html" where
  \<open>proof_cards s =
     concat (map (proof_card s) (enumerate 0 stages))\<close>

definition event_label :: "nat \<Rightarrow> html" where
  \<open>event_label i =
     (case array_at [[Lit ''Play A''], [Lit ''Play A '', Glyph 0xB7, Lit '' second event''], [Lit ''Play B '', Glyph 0xB7, Lit '' schema v99''], [Lit ''Play B '', Glyph 0xB7, Lit '' corrected'']] i of
       None \<Rightarrow> [Lit ''undefined''] | Some h \<Rightarrow> h)\<close>

definition evidence_tr :: "nat \<times> evidence \<Rightarrow> html" where
  \<open>evidence_tr x =
     (let (i, e) = x; d = evd_delivery e in
     [Lit ''<tr><td><strong>''] @
     event_label i @
     [Lit ''</strong><small class="proof-id">'', Val (esc (Some (take 12 (rcp_event (dlv_receipt d))))),
      Glyph 0x2026, Lit ''</small></td><td>''] @
     badge (status_name (dlv_status d)) @
     [Lit ''</td><td>'', Val (esc (Some (title (dlv_reason d)))),
      Lit ''</td><td><button class="button small" data-proof-evidence="'', Val (dec i), Lit ''">Inspect '',
      Glyph 0x2197, Lit ''</button></td></tr>''])\<close>

definition proof_evidence :: "page_browser \<Rightarrow> 'a proof_page_scheme \<Rightarrow> html" where
  \<open>proof_evidence br s =
     (let rows = evidence_rows (pf_run s) in
     if rows = [] then [Lit ''<div class="proof-empty"><span>'', Glyph 0x25CE,
      Lit ''</span><h3>Evidence, not a canned animation.</h3><p>'',
      Lit ''The run will create real receipts and read their decisions back from the Go API. Every '',
      Lit ''status below comes from persisted state.</p></div>'']
     else [Lit ''<div class="table-wrap"><table><thead><tr><th>EVENT</th><th>DECISION</th><th>REASON</th>'',
      Lit ''<th>EVIDENCE</th></tr></thead><tbody>''] @
     concat (map evidence_tr (enumerate 0 rows)) @
     [Lit ''</tbody></table></div><p class="proof-footnote">Observed '',
      Val (esc (Some (br_local br (evd_observed (last rows))))),
      Lit ''. Reservation state is current at that observation; receipt payloads remain '',
      Lit ''unchanged.</p>''])\<close>

definition completed :: "'a proof_page_scheme \<Rightarrow> nat" where
  \<open>completed s =
     (case pf_run s of None \<Rightarrow> 0 | Some r \<Rightarrow> stages_done r)\<close>

definition storage_note :: "'a proof_page_scheme \<Rightarrow> html" where
  \<open>storage_note s =
     (if pf_storage_warning s \<noteq> [] then [Lit ''<br>'', Val (esc (Some (pf_storage_warning s)))] else [])\<close>

definition proof_contents :: "page_browser \<Rightarrow> 'a proof_page_scheme \<Rightarrow> html" where
  \<open>proof_contents br s =
     (let n = completed s; fin = (n = 6); none = (pf_run s = None) in
     [Lit ''<section class="proof-hero"><div><div class="eyebrow">'',
      Lit ''LIVE INTEGRATION PROOF / GO + EVENT-DRIVEN SYSTEMS</div><h1>Trust is earned<br>'',
      Lit ''at the failure boundary.</h1><p>'',
      Lit ''Watch a partner batch become durable evidence, survive a retry, and settle each play '',
      Lit ''once. Then correct bad evidence without rewriting history.</p>'',
      Lit ''<div class="proof-actions"><button class="button primary" data-proof-run '',
      Lit (if pf_running s \<or> \<not> rt_demo (runtime s) then ''disabled'' else []), Lit ''>''] @
     (if pf_running s then [Lit ''Verifying live'', Glyph 0x2026]
      else if fin then [Lit ''Run again '', Glyph 0xB7, Lit '' $0.02 demo spend'']
      else if \<not> none then [Lit ''Resume this run'']
      else [Lit ''Start live proof '', Glyph 0xB7, Lit '' $0.02 demo spend'']) @
     [Lit ''</button><button class="button" data-proof-export '', Lit (if none then ''disabled'' else []),
      Lit ''>Export evidence '', Glyph 0x2193, Lit ''</button></div><p class="proof-disclosure">'',
      Lit ''Uses synthetic inventory and your local database. No real advertising purchase. No '',
      Lit ''Vistar connection. A run creates two $0.01 reservations.</p></div>'',
      Lit ''<div class="proof-orbit" aria-label="'', Val (dec n),
      Lit '' of 6 stages verified"><div class="proof-ring" style="--progress:'', Val (br_ring br n),
      Lit ''%"><div><strong>'', Val (pad_two n), Lit ''<span>/06</span></strong><small>'',
      Lit (if fin then ''ALL CHECKS VERIFIED'' else if pf_running s then ''READING REAL OUTCOMES'' else ''VERIFIABLE STAGES''),
      Lit ''</small></div></div><span class="proof-transport">'', Val (esc (Some (rt_storage (runtime s)))),
      Lit '' '', Glyph 0xB7, Lit '' '', Val (esc (Some (rt_transport (runtime s)))),
      Lit '' transport</span></div></section><div class="proof-status" role="status">'',
      Val (esc (Some (if pf_message s \<noteq> [] then pf_message s
          else if fin then ''Run verified. Export the evidence or inspect a receipt below.''
          else if \<not> none then ''Saved run loaded. Resume preserves its event IDs and reservation keys.''
          else ''Ready. Run one scenario at a time for a clear result.'')))] @
     storage_note s @
     [Lit ''</div><div class="proof-layout"><section class="panel proof-journey">'',
      Lit ''<div class="panel-header"><div><h2>The verification path</h2><p>'',
      Lit ''Each stage checks an actual API result</p></div></div><ol>''] @
     proof_cards s @
     [Lit ''</ol></section><section class="panel proof-explainer"><div class="eyebrow">'',
      Lit (if fin then ''VERIFIED OUTCOME'' else ''WHAT THIS DEMONSTRATES''), Lit ''</div><h2>''] @
     (if fin then [Lit ''Four events. Two plays.<br>Two cents settled.'']
      else [Lit ''Transport identity '', Glyph 0x2260, Lit ''<br>business identity.'']) @
     [Lit ''</h2><p>An event ID prevents an unchanged retry from becoming new work. A reservation '',
      Lit ''guard prevents different events for the same play from moving money twice.</p>'',
      Lit ''<div class="proof-facts"><div><strong>''] @
     (if Option.bind (pf_run s) run_batch \<noteq> None then [Lit ''207''] else [Glyph 0x2014]) @
     [Lit ''</strong><span>Mixed batch HTTP status</span></div><div><strong>''] @
     (case Option.bind (pf_run s) run_replay of None \<Rightarrow> [Glyph 0x2014] | Some b \<Rightarrow> [Val (num (bat_replayed b))]) @
     [Lit ''</strong><span>Existing receipts replayed</span></div><div><strong>''] @
     (if fin then [Lit ''$0.02''] else [Glyph 0x2014]) @
     [Lit ''</strong><span>Verified reservation total</span></div></div>'',
      Lit ''<a class="text-link" href="#architecture">Explore the system design '', Glyph 0x2197,
      Lit ''</a></section></div><section class="panel proof-evidence"><div class="panel-header">'',
      Lit ''<div><h2>Evidence from the ledger</h2><p>Exact receipt reads '', Glyph 0xB7,
      Lit '' tenant-scoped '', Glyph 0xB7,
      Lit '' independent of recent traffic</p></div><a class="text-link" href="#recovery">'',
      Lit ''Recovery queue '', Glyph 0x2197, Lit ''</a></div>''] @
     proof_evidence br s @
     [Lit ''</section><div class="decision-grid"><article class="panel decision"><h3>'',
      Lit ''Why it matters for ad tech</h3><p>'',
      Lit ''Partner feeds can repeat, arrive late, or change schema. Separate acceptance from '',
      Lit ''reconciliation so a bad item does not silently discard good plays or charge a campaign '',
      Lit ''twice.</p></article><article class="panel decision"><h3>What this run proves</h3><p>'',
      Lit ''These particular requests passed the listed checks on the displayed transport. It is '',
      Lit ''not a throughput benchmark, an availability guarantee, or managed Pub/Sub '',
      Lit ''certification.</p></article></div>''])\<close>

definition proof_view :: "page_browser \<Rightarrow> 'a proof_page_scheme \<Rightarrow> html" where
  \<open>proof_view br s =
     [Lit ''<div id="integration-proof">''] @
     proof_contents br s @
     [Lit ''</div>'']\<close>

definition inline_contents :: "page_browser \<Rightarrow> string \<Rightarrow> 'a proof_page_scheme \<Rightarrow> html" where
  \<open>inline_contents br camp s =
     [Lit ''<div class="panel-header"><div><h2>Live proof, right here</h2><p>'',
      Lit (if camp \<noteq> [] then ''New runs use the selected campaign.'' else ''New runs use an available demo campaign.''),
      Lit '' An unfinished run resumes its original identities.</p></div>'',
      Lit ''<button class="button primary" data-proof-run data-proof-campaign="'', Val (esc (Some camp)),
      Lit ''" '', Lit (if pf_running s \<or> \<not> rt_demo (runtime s) then ''disabled'' else []), Lit ''>''] @
     (if pf_running s then [Lit ''Verifying'', Glyph 0x2026]
      else if (case pf_run s of None \<Rightarrow> False | Some r \<Rightarrow> \<not> all_done r) then [Lit ''Resume existing run'']
      else [Lit ''Run live proof '', Glyph 0xB7, Lit '' $0.02'']) @
     [Lit ''</button></div><div class="inline-proof-body"><p class="proof-status" role="status">'',
      Val (esc (Some (if pf_message s \<noteq> [] then pf_message s else ''Run all six checks without leaving this page.'')))] @
     (case pf_run s of None \<Rightarrow> []
      | Some r \<Rightarrow> [Lit ''<br>Evidence campaign: '', Val (esc (Some (plan_campaign r))), Lit '' '', Glyph 0xB7, Lit '' '',
      Val (dec (stages_done r)), Lit ''/6 stages verified'']) @
     storage_note s @
     [Lit ''</p><p class="assurance-scope">'',
      Lit ''Creates two $0.01 synthetic reservations. No real purchase. The page data refreshes '',
      Lit ''after completion.</p>''] @
     (if pf_run s = None then []
      else [Lit ''<ol class="inline-proof-steps">''] @
     proof_cards s @
     [Lit ''</ol><div class="inline-proof-evidence">''] @
     proof_evidence br s @
     [Lit ''</div><button class="button" data-proof-export>Export proof evidence '', Glyph 0x2193,
      Lit ''</button>'']) @
     [Lit ''</div>'']\<close>

definition render_inline :: "page_browser \<Rightarrow> string \<Rightarrow> 'a proof_page_scheme \<Rightarrow> html" where
  \<open>render_inline br camp s =
     [Lit ''<section class="panel inline-proof" id="inline-proof" data-campaign="'', Val (esc (Some camp)),
      Lit ''">''] @
     inline_contents br camp s @
     [Lit ''</section>'']\<close>

definition evidence_dialog :: "page_browser \<Rightarrow> evidence \<Rightarrow> html" where
  \<open>evidence_dialog br row =
     (let d = evd_delivery row in
     [Lit ''<div class="dialog-eyebrow">PERSISTED EVIDENCE / '', Val (esc (Some (dlv_id d))),
      Lit ''</div><h2>'', Val (esc (Some (title (status_name (dlv_status d))))), Lit ''</h2><p>'',
      Val (esc (Some (title (dlv_reason d)))),
      Lit ''</p><dl class="detail-grid"><div><dt>RESERVATION STATE</dt><dd>'',
      Val (esc (Some (case evd_reservation row of None \<Rightarrow> ''Missing'' | Some r \<Rightarrow> rstate_name (rsv_state r)))),
      Lit ''</dd></div><div><dt>SERVER PRICE</dt><dd>'',
      Val (money (case evd_reservation row of None \<Rightarrow> 0 | Some r \<Rightarrow> rsv_cost r)),
      Lit ''</dd></div><div><dt>OUTBOX STATE</dt><dd>'', Val (esc (Some (evd_outbox row))),
      Lit ''</dd></div><div><dt>PROCESSING ATTEMPTS</dt><dd>'', Val (num (int (dlv_attempts d))),
      Lit ''</dd></div></dl><p>Observed '', Val (esc (Some (br_local br (evd_observed row)))),
      Lit ''. Dispatch acknowledgement can lag the committed decision.</p><div class="code-block">'',
      Val (esc (Some (br_row br row))), Lit ''</div>''])\<close>

subsection \<open>Partner intake (\<open>intake.js\<close>)\<close>

definition intake_result :: "batch_result \<Rightarrow> html" where
  \<open>intake_result r =
     [Lit ''<div class="intake-result"><strong>Item '', Val (dec (brs_index r + 1)), Lit '' '', Glyph 0xB7,
      Lit '' '', Val (int_text (brs_status r))] @
     (if brs_replayed r then [Lit '' '', Glyph 0xB7, Lit '' replayed''] else []) @
     [Lit ''</strong><small>'', Val (esc (Some (brs_detail r))), Lit ''</small>''] @
     (if truthy (brs_id r) then [Lit ''<small>Receipt: '', Val (esc (brs_id r)), Lit ''</small>''] else []) @
     [Lit ''<small>'',
      Lit (if brs_retryable r then ''Transient failure: retry unchanged after backoff.''
        else if brs_status r = 202 then ''Durably accepted. Check the ledger for the processing decision.''
        else ''Resolve the input problem before retrying this item.''),
      Lit ''</small></div>'']\<close>

definition intake_results :: "'a intake_page_scheme \<Rightarrow> html" where
  \<open>intake_results s =
     (case in_result s of
       None \<Rightarrow> [Lit ''<div class="empty">Send a batch to see the real API response.</div>'']
     | Some b \<Rightarrow> [Lit ''<p><strong>HTTP '', Val (int_text (in_http s)), Lit ''</strong> '', Glyph 0xB7, Lit '' '',
      Val (num (bat_accepted b)), Lit '' accepted '', Glyph 0xB7, Lit '' '', Val (num (bat_rejected b)),
      Lit '' rejected '', Glyph 0xB7, Lit '' '', Val (num (bat_replayed b)), Lit '' replayed</p>''] @
     concat (map intake_result (bat_results b)))\<close>

definition intake_option :: "example_kind \<Rightarrow> example_kind \<Rightarrow> html" where
  \<open>intake_option kind x =
     (let (key, label, expl) = example_of x in
     [Lit ''<option value="'', Val key, Lit ''" '', Lit (if x = kind then ''selected'' else []), Lit ''>'',
      Val label, Lit ''</option>''])\<close>

definition intake_view :: "page_browser \<Rightarrow> 'a intake_page_scheme \<Rightarrow> html" where
  \<open>intake_view br s =
     heading [Lit ''Every receipt. An explicit outcome.'']
       [Lit ''Inspect the contract between a partner feed and the reconciliation engine.'']
       ([Lit ''<a class="button" href="#ledger">Open delivery ledger '', Glyph 0x2197, Lit ''</a>''])
       [Lit ''PARTNER INTEGRATION''] @
     [Lit ''<div id="partner-intake"><div class="view-intro"><span class="big">'', Glyph 0x21C4,
      Lit ''</span><div>Synthetic partner contract '', Glyph 0xB7,
      Lit '' Real Go API. Accepted receipts change the local demo database. This is not a connected '',
      Lit ''or certified Vistar integration.</div></div><div class="intake-grid">'',
      Lit ''<section class="panel intake-card"><h2>1. Prepare a playback batch</h2><p>'',
      Lit ''Choose a scenario and load its request. Loading reserves your chosen amount of '',
      Lit ''synthetic budget when needed; playback is sent only when you click Send batch. Repeated '',
      Lit ''loads at the same price reuse the unsent hold. Changing the price creates a new hold; '',
      Lit ''earlier holds remain reserved until settled or expired.</p><label for="intake-example">'',
      Lit ''Example scenario</label><select id="intake-example" '',
      Lit (if in_pending s then ''disabled'' else []), Lit ''>''] @
     concat (map (intake_option (in_kind s)) examples) @
     [Lit ''</select><p id="example-explanation">'', Val (explanation (in_kind s)),
      Lit ''</p><label for="intake-price">Reservation price '', Glyph 0xB7,
      Lit '' USD</label><input id="intake-price" type="text" inputmode="decimal" value="'',
      Val (esc (Some (in_price s))),
      Lit ''" aria-describedby="intake-price-help intake-price-error" aria-invalid="'',
      Lit (if in_price_error s \<noteq> [] then ''true'' else ''false''), Lit ''" '',
      Lit (if price_disabled s then ''disabled'' else []),
      Lit ''><p id="intake-price-error" class="form-error" role="status">'',
      Val (esc (Some (in_price_error s))), Lit ''</p><p id="intake-price-help">$0.01'', Glyph 0x2013,
      Lit ''$10.00, up to two decimal places. Applies when you load a new example. Existing '',
      Lit ''reservations are unchanged.</p><div class="actions">'',
      Lit ''<button class="button" data-intake="example" '',
      Lit (if in_pending s \<or> \<not> rt_demo (runtime s) then ''disabled'' else []),
      Lit ''>Load example</button></div><label for="intake-payload">Request body '', Glyph 0xB7,
      Lit '' up to 50 receipts</label><textarea id="intake-payload" spellcheck="false" '',
      Lit (if in_pending s then ''disabled'' else []),
      Lit '' placeholder='{"receipts": [...]}' aria-describedby="intake-status">'',
      Val (esc (Some (br_draft br (in_draft s)))), Lit ''</textarea><div class="actions">'',
      Lit ''<button id="intake-submit" class="button primary" data-intake="send" '',
      Lit (if in_pending s \<or> \<not> rt_demo (runtime s) then ''disabled'' else []), Lit ''>''] @
     (if in_pending s \<and> \<not> in_preparing s then [Lit ''Sending'', Glyph 0x2026] else [Lit ''Send batch '', Glyph 0x2192]) @
     [Lit ''</button></div><p id="intake-status" class="intake-status" role="status">'',
      Val (esc (Some (in_notice s))),
      Lit ''</p></section><section class="panel intake-card"><h2>2. Inspect durable acceptance</h2>'',
      Lit ''<p>A 202 item means the receipt and outbox committed together. A 207 batch contains '',
      Lit ''mixed results. Settlement happens asynchronously; acceptance alone is not a charge.</p>'',
      Lit ''<div id="intake-results" aria-live="polite">''] @
     intake_results s @
     [Lit ''</div></section></div><div class="decision-grid"><article class="panel decision"><h3>'',
      Lit ''Event identity</h3><p>An unchanged event ID and payload return the original receipt. '',
      Lit ''Changing content under the same ID produces a conflict.</p></article>'',
      Lit ''<article class="panel decision"><h3>Business identity</h3><p>'',
      Lit ''Two different events can report one play. The reservation transition prevents a second '',
      Lit ''financial effect.</p></article><article class="panel decision"><h3>'',
      Lit ''Recoverable failures</h3><p>On a timeout, the outcome may be unknown. Keep IDs and '',
      Lit ''content unchanged. Honor Retry-After on 429; inspect quarantined evidence in Recovery '',
      Lit ''queue.</p></article><article class="panel decision"><h3>Transport boundary</h3><p>'',
      Lit ''Current transport: '', Val (esc (Some (rt_transport (runtime s)))),
      Lit ''. The SQL outbox separates API acceptance from delivery. The managed Pub/Sub path '',
      Lit ''requires separate staging verification.</p></article></div></div>'']\<close>

subsection \<open>Campaign assurance (\<open>assurance.js\<close>)\<close>

definition assurance_action :: "string \<times> string \<times> string \<Rightarrow> html" where
  \<open>assurance_action x =
     (let (h, t, v) = x in
     [Lit ''<article class="assurance-action"><div><h3>'', Val h, Lit ''</h3><p>'', Val t,
      Lit ''</p></div><a class="button small" href="#'', Val v, Lit ''">Inspect '', Glyph 0x2197,
      Lit ''</a></article>''])\<close>

definition assurance_tr :: "screen_assurance \<Rightarrow> html" where
  \<open>assurance_tr v =
     [Lit ''<tr><td><strong>'', Val (esc (Some (sas_name v))), Lit ''</strong><small class="proof-id">'',
      Val (esc (Some (sas_market v))), Lit '' '', Glyph 0xB7, Lit '' '', Val (esc (Some (sas_format v))),
      Lit '' '', Glyph 0xB7, Lit '' '', Val (esc (Some (sas_screen v))), Lit ''</small></td><td>'',
      Val (num (sas_settled_plays v)), Lit ''</td><td>'', Val (money (sas_settled_micros v)),
      Lit ''</td><td>'', Val (money (sas_held_micros v)), Lit ''</td><td>''] @
     (if screen_exceptions v \<noteq> 0 then [Lit ''<span class="badge quarantined">'', Val (num (screen_exceptions v)), Lit '' receipts</span>'']
      else [Lit ''<span class="muted">None</span>'']) @
     [Lit ''</td></tr>'']\<close>

definition assurance_report :: "page_browser \<Rightarrow> assurance \<Rightarrow> html" where
  \<open>assurance_report br r =
     (let c = asr_campaign r in
     [Lit ''<div class="assurance-verdict '', Lit (if asr_budget_consistent r then [] else ''mismatch''),
      Lit ''"><span>''] @
     (if asr_budget_consistent r then [Glyph 0x2713] else [Lit ''!'']) @
     [Lit ''</span><div><strong>'',
      Lit (if asr_budget_consistent r then ''Budget reconciles to the reservation ledger'' else ''Budget reconciliation needs investigation''),
      Lit ''</strong><small>One consistent database snapshot '', Glyph 0xB7,
      Lit '' all retained campaign history '', Glyph 0xB7, Lit '' observed '',
      Val (esc (Some (br_local br (asr_observed r)))), Lit ''</small></div></div><div class="metrics">''] @
     metric [Lit ''Settled spend''] [Val (money (cmp_spent c))]
       [Val (num (asr_settled_plays r)), Lit '' distinct plays settled''] [Glyph 0x2197] False @
     metric [Lit ''Held budget''] [Val (money (cmp_reserved c))]
       [Val (num (asr_held_plays r)), Lit '' plays awaiting settlement''] [Glyph 0x25F7] False @
     metric [Lit ''Available budget''] [Val (money (available c))]
       [Lit ''Of '', Val (money (cmp_budget c)), Lit '' total budget''] [Glyph 0x25EB] False @
     metric [Lit ''Duplicate reports''] [Val (num (asr_decisions r Duplicate))]
       [Lit ''Repeated plays did not add another charge''] [Glyph 0x29C9] False @
     [Lit ''</div><section class="panel"><div class="panel-header"><div><h2>Delivery by screen</h2>'',
      Lit ''<p>Spend comes from reservations. Receipt counts are aggregated separately.</p></div>'',
      Lit ''<span class="panel-tag">FULL RETAINED HISTORY</span></div>''] @
     (if asr_screens r \<noteq> [] then [Lit ''<div class="table-wrap"><table><thead><tr><th>SCREEN / MARKET</th><th>SETTLED PLAYS</th>'',
      Lit ''<th>SETTLED SPEND</th><th>HELD BUDGET</th><th>EXCEPTIONS</th></tr></thead><tbody>''] @
     concat (map assurance_tr (asr_screens r)) @
     [Lit ''</tbody></table></div>'']
      else [Lit ''<div class="empty">No reservations for this campaign yet. Reserve a play in Campaigns '',
      Lit ''to begin.</div>'']) @
     [Lit ''</section><section class="panel assurance-actions"><div class="panel-header"><div><h2>'',
      Lit ''Recommended operational follow-up</h2><p>'',
      Lit ''Explainable rules from observed evidence. These links open workspace-wide investigation '',
      Lit ''views.</p></div></div>''] @
     concat (map assurance_action (recommendations r)) @
     [Lit ''</section><p class="assurance-scope">'', Val (esc (Some (asr_scope r))),
      Lit '' Screen attribution uses the reserved inventory. Playback is not a measured audience '',
      Lit ''impression, store visit, conversion, or proof of campaign lift.</p>''])\<close>

definition assurance_content :: "page_browser \<Rightarrow> 'a assure_page_scheme \<Rightarrow> html option" where
  \<open>assurance_content br s =
     (if as_loading s then Some ([Lit ''<div class="empty">Reading the complete campaign ledger'', Glyph 0x2026, Lit ''</div>''])
     else if as_error s \<noteq> [] then Some ([Lit ''<div class="error-banner" role="alert">'', Val (esc (Some (as_error s))),
      Lit '' <button class="button" data-assurance-refresh>Retry report</button></div>''])
     else (case as_report s of
       None \<Rightarrow> Some ([Lit ''<div class="empty">Choose a campaign to inspect its delivery evidence.</div>''])
     | Some p \<Rightarrow> map_option (assurance_report br) (as_assurance p)))\<close>

definition campaign_option :: "string \<Rightarrow> campaign \<Rightarrow> html" where
  \<open>campaign_option sel c =
     [Lit ''<option value="'', Val (esc (Some (cmp_id c))), Lit ''" '',
      Lit (if cmp_id c = sel then ''selected'' else []), Lit ''>'', Val (esc (Some (cmp_name c))),
      Lit ''</option>'']\<close>

definition assurance_shell :: "page_browser \<Rightarrow> 'a proof_page_scheme \<Rightarrow> snapshot \<Rightarrow> string \<Rightarrow> html \<Rightarrow> html" where
  \<open>assurance_shell br s sn sel content =
     heading [Lit ''Delivery you can stand behind.'']
       [Lit ''Connect campaign budgets to verified plays, screen-level delivery and operational follow-up.'']
       ([Lit ''<button class="button" data-assurance-export '',
      Lit (if \<not> export_enabled s then ''disabled'' else []), Lit ''>Export report '', Glyph 0x2193,
      Lit ''</button><button class="button primary" data-assurance-refresh>Refresh report '', Glyph 0x21BB,
      Lit ''</button>''])
       [Lit ''CAMPAIGN ASSURANCE''] @
     [Lit ''<div id="campaign-assurance"><div class="assurance-selector">'',
      Lit ''<label for="assurance-campaign">Campaign</label><select id="assurance-campaign">''] @
     concat (map (campaign_option sel) (snp_campaigns sn)) @
     [Lit ''</select><span>Snapshot report '', Glyph 0xB7, Lit '' refresh to update</span></div>''] @
     render_inline br sel s @
     [Lit ''<div id="assurance-report">''] @
     content @
     [Lit ''</div></div>'']\<close>

definition assurance_view :: "page_browser \<Rightarrow> 'a proof_page_scheme \<Rightarrow> snapshot \<Rightarrow> html option" where
  \<open>assurance_view br s sn =
     (let sel = (if as_selected s = [] then (case snp_campaigns sn of c # _ \<Rightarrow> cmp_id c | [] \<Rightarrow> []) else as_selected s) in
     map_option (assurance_shell br s sn sel) (assurance_content br s))\<close>

subsection \<open>Foot traffic (\<open>foottraffic.js\<close>)\<close>

primrec cell_status_name :: "cell_status \<Rightarrow> string" where
  "cell_status_name Reported = ''reported''"
| "cell_status_name Suppressed = ''suppressed''"
| "cell_status_name Missing = ''missing''"

definition cell_count :: "traffic_cell \<Rightarrow> int" where
  \<open>cell_count c =
     (case cel_observations c of None \<Rightarrow> 0 | Some n \<Rightarrow> n)\<close>

definition traffic_top :: "traffic_zone \<Rightarrow> int" where
  \<open>traffic_top z =
     foldl max 1 (map cell_count (zon_current z @ zon_previous z))\<close>

definition traffic_bar :: "page_browser \<Rightarrow> int \<Rightarrow> traffic_cell \<times> traffic_cell \<Rightarrow> html" where
  \<open>traffic_bar br peak x =
     (let (c, p) = x in
     [Lit ''<div class="traffic-hour"><div class="traffic-pair"><span class="traffic-bar previous '',
      Val (cell_status_name (cel_status p)), Lit ''" style="height:'', Val (br_height br (cell_count p) peak),
      Lit ''%"></span><span class="traffic-bar '', Val (cell_status_name (cel_status c)),
      Lit ''" style="height:'', Val (br_height br (cell_count c) peak), Lit ''%"></span></div><small>'',
      Val (br_hour br (cel_start c)), Lit ''</small></div>''])\<close>

definition traffic_bars :: "page_browser \<Rightarrow> traffic_zone \<Rightarrow> html" where
  \<open>traffic_bars br z =
     [Lit ''<div class="traffic-chart" role="img" aria-label="'', Val (esc (Some (zon_name z))),
      Lit '' hourly sample counts. Exact values are in the table below.">''] @
     concat (map (traffic_bar br (traffic_top z)) (zip (zon_current z) (zon_previous z))) @
     [Lit ''</div>'']\<close>

definition traffic_tr :: "page_browser \<Rightarrow> traffic_cell \<times> traffic_cell \<Rightarrow> html" where
  \<open>traffic_tr br x =
     (let (c, p) = x in
     [Lit ''<tr><td>'', Val (br_hour br (cel_start c)), Lit ''</td><td>'', Val (cell_value c),
      Lit ''</td><td>'', Val (cell_value p), Lit ''</td></tr>''])\<close>

definition zone_article :: "page_browser \<Rightarrow> traffic_zone \<Rightarrow> html" where
  \<open>zone_article br z =
     [Lit ''<article class="panel traffic-zone" data-traffic-zone="'', Val (esc (Some (zon_id z))),
      Lit ''"><div class="panel-header"><div><h2>'', Val (esc (Some (zon_name z))), Lit ''</h2><p>'',
      Val (esc (Some (zon_context z))), Lit ''</p></div><span class="panel-tag">''] @
     (case zon_change z of None \<Rightarrow> [Lit ''NO COMPARISON'']
      | Some q \<Rightarrow> [Lit (if 0 \<le> q then ''+'' else []), Val (br_fixed br q), Lit ''%'']) @
     [Lit ''</span></div>''] @
     traffic_bars br z @
     [Lit ''<p class="traffic-comparison">'', Val (dec (zon_comparable z)),
      Lit ''/6 paired windows are reportable. Change compares only those pairs; it does not measure '',
      Lit ''campaign lift.</p><details><summary>Inspect hourly counts</summary>'',
      Lit ''<div class="table-wrap"><table><thead><tr><th>HOUR (UTC)</th><th>CURRENT</th><th>'',
      Lit ''PREVIOUS DAY</th></tr></thead><tbody>''] @
     concat (map (traffic_tr br) (zip (zon_current z) (zon_previous z))) @
     [Lit ''</tbody></table></div></details></article>'']\<close>

definition paired_zone :: "traffic_zone \<Rightarrow> bool" where
  \<open>paired_zone z =
     (length (zon_current z) \<le> length (zon_previous z))\<close>

definition traffic_failure :: "'a traffic_page_scheme \<Rightarrow> html" where
  \<open>traffic_failure s =
     (if tr_error s = [] then []
      else [Lit ''<div class="error-banner" role="alert">'', Val (esc (Some (tr_error s))),
      Lit (if tr_report s \<noteq> None then '' Showing the last successful report.'' else []),
      Lit '' <button class="button" data-traffic-refresh>Retry report</button></div>''])\<close>

definition traffic_report_html :: "page_browser \<Rightarrow> 'a traffic_page_scheme \<Rightarrow> traffic_report \<Rightarrow> html" where
  \<open>traffic_report_html br s r =
     traffic_failure s @
     [Lit ''<p class="traffic-freshness" role="status">''] @
     (if tr_loading s then [Lit ''Refreshing report'', Glyph 0x2026]
      else [Lit ''Report checked '', Val (esc (Some (br_clock br (trp_as_of r))))]) @
     (if trp_missing r = 24 then [Lit '' '', Glyph 0xB7, Lit '' No current observations. Load this sample feed to begin.''] else []) @
     [Lit ''</p><div class="metrics">''] @
     metric [Lit ''Reported observations''] [Val (num (trp_published r))]
       [Lit ''Released counts only '', Glyph 0xB7, Lit '' not unique people''] [Glyph 0x25EB] False @
     metric [Lit ''Window coverage''] [Val (int_text (trp_released r + trp_suppressed r)), Lit ''/24'']
       [Lit ''Four zones '', Glyph 0xD7, Lit '' six completed hours''] [Glyph 0x25F7] False @
     metric [Lit ''Suppressed windows''] [Val (num (trp_suppressed r))]
       [Lit ''Counts below '', Val (int_text (trp_minimum r)), Lit '' stay hidden''] [Glyph 0x25C7] False @
     metric [Lit ''Missing windows''] [Val (num (trp_missing r))]
       [Lit ''Missing data is not a count of zero''] [Glyph 0x2197] False @
     [Lit ''</div>'', Lit [CHR 0x0A], Lit ''    <div class="traffic-period"><span>'',
      Val (esc (Some (br_date br (trp_start r)))), Lit '' '', Glyph 0xB7, Lit '' '',
      Val (br_hour br (trp_start r)), Glyph 0x2013, Val (br_hour br (trp_end r)),
      Lit '' UTC</span><span><i class="traffic-key"></i>'',
      Lit '' Current window <i class="traffic-key previous"></i> Same hours, previous day</span>'',
      Lit ''</div>'', Lit [CHR 0x0A], Lit ''    ''] @
     (if report_empty r then [Lit ''<section class="panel empty traffic-empty"><h2>No batch loaded</h2><p>'',
      Lit ''Load a sample feed or generate a random one to fill this report.</p></section>'']
      else [Lit ''<div class="traffic-grid">''] @
     concat (map (zone_article br) (trp_zones r)) @
     [Lit ''</div>'']) @
     [Lit [CHR 0x0A], Lit ''    <section class="panel traffic-method"><div class="panel-header"><div><h2>'',
      Lit ''Understand the measurement</h2><p>'',
      Lit ''Inspect the assumptions before interpreting the chart.</p></div><span class="panel-tag">'',
      Lit ''SYNTHETIC PARTNER FEED</span></div><div class="traffic-method-grid"><div><h3>'',
      Lit ''Coarse observations</h3><p>Fixed zones and hourly counts. The API rejects device '',
      Lit ''identifiers, precise coordinates and other unknown fields.</p></div><div><h3>'',
      Lit ''Safe repeated batches</h3><p>A batch replay returns the original result. Repeated '',
      Lit ''windows do not add twice; changed content for an existing window is a conflict.</p>'',
      Lit ''</div><div><h3>Limited conclusions</h3><p>'',
      Lit ''A change in sample activity can reflect coverage, seasonality or other factors. It is '',
      Lit ''not proof that an advertisement caused visits.</p></div></div><p class="traffic-scope">'',
      Val (esc (Some (trp_scope r))), Lit ''</p></section>'']\<close>

definition traffic_content :: "page_browser \<Rightarrow> 'a traffic_page_scheme \<Rightarrow> html option" where
  \<open>traffic_content br s =
     (case tr_report s of
       None \<Rightarrow> Some (if tr_loading s then [Lit ''<div class="empty" role="status">Reading aggregate observation windows'', Glyph 0x2026,
      Lit ''</div>'']
         else if traffic_failure s \<noteq> [] then traffic_failure s
         else [Lit ''<div class="empty">Load this sample feed to explore its measurement results.</div>''])
     | Some p \<Rightarrow> Option.bind (as_traffic_report p) (\<lambda>r.
         if report_empty r \<or> list_all paired_zone (trp_zones r) then Some (traffic_report_html br s r) else None))\<close>

definition sample_option :: "string \<Rightarrow> string \<times> string \<times> string \<Rightarrow> html" where
  \<open>sample_option sel x =
     (let (i, name, about) = x in
     [Lit ''<option value="'', Val i, Lit ''" '', Lit (if i = sel then ''selected'' else []), Lit ''>'',
      Val (esc (Some name)), Lit ''</option>''])\<close>

definition traffic_shell :: "'a traffic_page_scheme \<Rightarrow> string \<Rightarrow> html \<Rightarrow> html" where
  \<open>traffic_shell s about content =
     heading [Lit ''A clearer view of activity.'']
       [Lit ''Explore coarse foot-traffic observations, data coverage and change over time. All observations are synthetic.'']
       ([Lit ''<button class="button" data-traffic-empty title="Clear this sample'', Glyph 0x2019,
      Lit ''s saved observations and replay history" '', Lit (if traffic_busy s then ''disabled'' else []),
      Lit ''>Empty batch</button><button class="button" data-traffic-replay '',
      Lit (if replay_disabled s then ''disabled'' else []),
      Lit ''>Replay last batch</button><button class="button" data-traffic-refresh '',
      Lit (if traffic_busy s then ''disabled'' else []), Lit ''>Refresh report '', Glyph 0x21BB,
      Lit ''</button><button class="button primary" data-traffic-load '',
      Lit (if traffic_busy s then ''disabled'' else []), Lit ''>'',
      Lit (if tr_selected s = ''random'' then ''Generate another feed'' else ''Load sample feed''),
      Lit ''</button>''])
       [Lit ''FOOT TRAFFIC''] @
     [Lit ''<div id="foot-traffic"><section class="panel traffic-samples"><div>'',
      Lit ''<label for="traffic-sample">Choose a sample feed</label>'',
      Lit ''<select id="traffic-sample" aria-describedby="traffic-sample-description" '',
      Lit (if traffic_busy s then ''disabled'' else []), Lit ''>''] @
     concat (map (sample_option (tr_selected s)) samples) @
     [Lit ''</select></div><div><p id="traffic-sample-description">'', Val (esc (Some about)),
      Lit ''</p><small>Each sample keeps its own observations. Empty batch clears only the selected '',
      Lit ''sample.</small><div class="traffic-generate"><button class="button" data-traffic-random '',
      Lit (if traffic_busy s then ''disabled'' else []), Lit ''>Generate random feed '', Glyph 0x2197,
      Lit ''</button></div></div></section>'',
      Lit ''<p id="traffic-notice" class="traffic-notice" role="status" aria-live="polite">'',
      Val (esc (Some (tr_notice s))), Lit ''</p><div id="traffic-report">''] @
     content @
     [Lit ''</div></div>'']\<close>

definition traffic_view :: "page_browser \<Rightarrow> 'a traffic_page_scheme \<Rightarrow> html option" where
  \<open>traffic_view br s =
     Option.bind (map_of samples (tr_selected s)) (\<lambda>(_, about). map_option (traffic_shell s about) (traffic_content br s))\<close>

subsection \<open>The overview and the choice of the view (\<open>app.js\<close>)\<close>

definition overview :: "page_browser \<Rightarrow> 'a proof_page_scheme \<Rightarrow> snapshot \<Rightarrow> html" where
  \<open>overview br s sn =
     (let rt = runtime s; c = snp_counts sn; wrong = recovery_badge c; b = browser.truncate br in
     heading [Lit ''Every play. Accounted for.'']
       [Lit ''A clear view of campaign delivery, from reservation to reconciliation.'']
       ([Lit ''<a href="#lab" class="button">'', Glyph 0x2318,
      Lit '' Failure lab</a><button class="button primary" data-overview-proof '',
      Lit (if \<not> rt_demo rt then ''disabled'' else []), Lit ''>'', Glyph 0x25CE,
      Lit '' Run live proof</button>''])
       delivery_intelligence @
     (if overview_proof_open s then render_inline br [] s else []) @
     metrics sn @
     [Lit ''<div class="overview-next"><span><strong>''] @
     (if rt_paused rt then [Lit ''Dispatcher paused'']
      else if 0 < c Accepted then [Val (num (c Accepted)), Lit '' receipts awaiting a decision'']
      else [Lit ''Delivery queue is clear'']) @
     [Lit ''</strong> '', Glyph 0xB7, Lit '' ''] @
     (if 0 < wrong then [Val (num wrong), Lit '' exceptions recorded. Inspect the latest evidence and choose the next step.'']
      else [Lit ''Start a partner batch or verify the integration end to end.'']) @
     [Lit ''</span><a href="#'', Val (overview_next rt c), Lit ''">'',
      Lit (if rt_paused rt then ''Open controls'' else if 0 < wrong then ''Review exceptions'' else ''Open intake''),
      Lit '' '', Glyph 0x2197, Lit ''</a></div>''] @
     [Lit ''<div class="network-grid">''] @
     network b sn @
     flow sn rt @
     [Lit ''</div><div class="bottom-grid">''] @
     campaigns_table b sn @
     recent b s sn @
     [Lit ''</div>''])\<close>

definition view_html :: "page_browser \<Rightarrow> string comparator \<Rightarrow> 'a traffic_page_scheme \<Rightarrow> snapshot \<Rightarrow> html option" where
  \<open>view_html br collate s sn =
     (let b = browser.truncate br; v = active s in
     if v = ''foot-traffic'' then traffic_view br s
     else if v = ''assurance'' then assurance_view br s sn
     else if v = ''proof'' then Some (proof_view br s)
     else if v = ''intake'' then Some (intake_view br s)
     else if v = ''overview'' then Some (overview br s sn)
     else if v = ''campaigns'' then Some (campaigns b sn)
     else if v = ''ledger'' \<or> v = ''recovery'' then Some (ledger b collate s sn)
     else if v = ''lab'' then Some (lab b sn (runtime s))
     else if v = ''architecture'' then Some (architecture (runtime s))
     else None)\<close>

subsection \<open>The other texts written as HTML\<close>

definition nav_link :: "string \<Rightarrow> string \<times> string \<times> string \<times> string \<Rightarrow> html" where
  \<open>nav_link act p =
     (let (i, icon, name, about) = p in
     [Lit ''<a href="#'', Val i, Lit ''" '', Lit (if act = i then ''aria-current="page"'' else []),
      Lit ''><span aria-hidden="true">'', Val icon, Lit ''</span><div><strong>'', Val name,
      Lit ''</strong><small>'', Val about, Lit ''</small></div><span aria-hidden="true">''] @
     (if act = i then [Glyph 0x25CF] else [Glyph 0x2197]) @
     [Lit ''</span></a>''])\<close>

definition nav_list :: "'a nav_page_scheme \<Rightarrow> html" where
  \<open>nav_list s =
     (let found = filter (\<lambda>p. text_includes (to_lower (page_text p)) (trim (to_lower (nav_input s)))) pages in
     if found = [] then [Lit ''<p class="empty">No pages match. Try '', Glyph 0x201C, Lit ''receipts'', Glyph 0x201D,
      Lit '' or '', Glyph 0x201C, Lit ''budget'', Glyph 0x201D, Lit ''.</p>'']
     else concat (map (nav_link (active s)) found))\<close>

definition lost_banner :: "js_error \<Rightarrow> html" where
  \<open>lost_banner e =
     [Lit ''<div class="error-banner">'', Val (esc (Some (err_message e))),
      Lit ''. Start the Go service and refresh. Protected mode requires API credentials; this '',
      Lit ''console is intended for local demo mode.</div>'']\<close>

definition toggle_label :: "bool \<Rightarrow> html" where
  \<open>toggle_label paused =
     (if paused then [Glyph 0x25B6, Lit '' <span>Resume updates</span>'']
     else [Glyph 0x2161, Lit '' <span>Pause updates</span>''])\<close>

text \<open>
  Every place of the scripts where a text becomes HTML (an assignment to \<open>innerHTML\<close>), with the
  dialogs that \<open>openDialog\<close> is called with: what is written there, \<open>None\<close> where building it throws or
  nothing is written.
\<close>

datatype place = MainView | MainLost js_error | LiveToggle bool | LedgerResults | DetailDialog string |
  ReserveDialog | ScreenDialog string | EvidenceDialog nat | NavigationResults | AssuranceReport |
  TrafficReport | IntakeResults | InlineProof string | ProofPage

fun inner_html ::
  "page_browser \<Rightarrow> string comparator \<Rightarrow> 'a traffic_page_scheme \<Rightarrow> snapshot \<Rightarrow> place \<Rightarrow> html option" where
  "inner_html br collate s sn MainView = view_html br collate s sn"
| "inner_html br collate s sn (MainLost e) = Some (lost_banner e)"
| "inner_html br collate s sn (LiveToggle paused) = Some (toggle_label paused)"
| "inner_html br collate s sn LedgerResults = Some (ledger_rows (browser.truncate br) collate s)"
| "inner_html br collate s sn (DetailDialog i) = map_option (detail_text (browser.truncate br)) (detail_rows i sn)"
| "inner_html br collate s sn ReserveDialog = Some (reserve_dialog sn)"
| "inner_html br collate s sn (ScreenDialog i) =
     map_option (screen_dialog sn) (array_find (\<lambda>v. scr_id v = i) (snp_screens sn))"
| "inner_html br collate s sn (EvidenceDialog i) =
     map_option (evidence_dialog br) (array_at (evidence_rows (pf_run s)) i)"
| "inner_html br collate s sn NavigationResults = Some (nav_list s)"
| "inner_html br collate s sn AssuranceReport = assurance_content br s"
| "inner_html br collate s sn TrafficReport = traffic_content br s"
| "inner_html br collate s sn IntakeResults = Some (intake_results s)"
| "inner_html br collate s sn (InlineProof camp) = Some (inline_contents br camp s)"
| "inner_html br collate s sn ProofPage = Some (proof_contents br s)"

subsection \<open>Every text written as HTML is whole\<close>

definition plain_page_browser :: "'a page_browser_scheme \<Rightarrow> bool" where
  "plain_page_browser br \<longleftrightarrow> plain_browser (browser.truncate br) \<and> (\<forall>n. inert (br_hour br n)) \<and>
     (\<forall>q. inert (br_fixed br q)) \<and> (\<forall>n m. inert (br_height br n m)) \<and> (\<forall>n. inert (br_ring br n))"

lemma plain_page_browserD [simp]:
  assumes "plain_page_browser br"
  shows "plain_browser (browser.truncate br)" "inert (br_hour br n)" "inert (br_fixed br q)"
    "inert (br_height br n m)" "inert (br_ring br k)"
  using assms by (simp_all add: plain_page_browser_def)

lemma inert_int_text [simp]: "inert (int_text n)"
  by (simp add: int_text_def)

lemma inert_pad_two [simp]: "inert (pad_two n)"
  by (simp add: pad_two_def)

lemma read_option [simp]:
  "read_html g (Outside, els) = Some (Outside, els) \<Longrightarrow>
   (\<And>y. x = Some y \<Longrightarrow> read_html (h y) (Outside, els) = Some (Outside, els)) \<Longrightarrow>
   read_html (case x of None \<Rightarrow> g | Some y \<Rightarrow> h y) (Outside, els) = Some (Outside, els)"
  by (simp split: option.split)

lemma stage_names: "(n, a, b, c) \<in> set (enumerate 0 stages) \<Longrightarrow> inert a \<and> inert b"
  by (auto simp: stages_def)

lemma read_proof_card [simp]:
  "inert (fst (snd x)) \<Longrightarrow> inert (fst (snd (snd x))) \<Longrightarrow> read_html (proof_card s x) (Outside, els) = Some (Outside, els)"
  by (cases x; cases "card_state s (fst x)") (simp_all add: proof_card_def)

lemma read_proof_cards [simp]: "read_html (proof_cards s) (Outside, els) = Some (Outside, els)"
  unfolding proof_cards_def by (rule read_concat_map) (auto dest: stage_names)

lemma read_event_label [simp]: "read_html (event_label i) (Outside, els) = Some (Outside, els)"
  by (auto simp: event_label_def array_at_def less_Suc_eq numeral_eq_Suc)

lemma read_evidence_tr [simp]: "read_html (evidence_tr x) (Outside, els) = Some (Outside, els)"
  by (cases x) (simp add: evidence_tr_def Let_def)

lemma read_proof_evidence [simp]: "read_html (proof_evidence br s) (Outside, els) = Some (Outside, els)"
  by (simp add: proof_evidence_def Let_def)

lemma read_storage_note [simp]: "read_html (storage_note s) (Outside, els) = Some (Outside, els)"
  by (simp add: storage_note_def)

lemma read_proof_contents [simp]:
  "plain_page_browser br \<Longrightarrow> read_html (proof_contents br s) (Outside, els) = Some (Outside, els)"
  unfolding proof_contents_def Let_def by (cases "pf_run s"; cases "completed s = 6") simp_all

lemma read_proof_view [simp]:
  "plain_page_browser br \<Longrightarrow> read_html (proof_view br s) (Outside, els) = Some (Outside, els)"
  by (simp add: proof_view_def)

lemma read_inline_contents [simp]: "read_html (inline_contents br camp s) (Outside, els) = Some (Outside, els)"
  by (cases "pf_run s") (simp_all add: inline_contents_def)

lemma read_render_inline [simp]: "read_html (render_inline br camp s) (Outside, els) = Some (Outside, els)"
  by (simp add: render_inline_def)

lemma read_evidence_dialog [simp]: "read_html (evidence_dialog br row) (Outside, els) = Some (Outside, els)"
  by (simp add: evidence_dialog_def Let_def)

lemma read_intake_result [simp]: "read_html (intake_result r) (Outside, els) = Some (Outside, els)"
  by (simp add: intake_result_def)

lemma read_intake_results [simp]: "read_html (intake_results s) (Outside, els) = Some (Outside, els)"
  by (cases "in_result s") (simp_all add: intake_results_def)

lemma example_texts:
  "inert (fst (example_of k)) \<and> inert (fst (snd (example_of k))) \<and> inert (snd (snd (example_of k)))"
  by (cases k) simp_all

lemma inert_explanation [simp]: "inert (explanation k)"
  by (simp add: explanation_def example_texts)

lemma read_intake_option [simp]: "read_html (intake_option k x) (Outside, els) = Some (Outside, els)"
  using example_texts [of x] by (cases "example_of x") (simp add: intake_option_def)

lemma read_intake_options [simp]:
  "read_html (concat (map (intake_option k) examples)) (Outside, els) = Some (Outside, els)"
  by (rule read_concat_map) simp

lemma read_intake_view [simp]: "read_html (intake_view br s) (Outside, els) = Some (Outside, els)"
  by (simp add: intake_view_def)

lemma recommendation_texts:
  "(a, b, c) \<in> set (recommendations r) \<Longrightarrow> inert a \<and> inert b \<and> inert c"
  by (auto simp: recommendations_def Let_def split: if_splits)

lemma read_assurance_action [simp]:
  "inert (fst x) \<Longrightarrow> inert (fst (snd x)) \<Longrightarrow> inert (snd (snd x)) \<Longrightarrow> read_html (assurance_action x) (Outside, els) = Some (Outside, els)"
  by (cases x) (simp add: assurance_action_def)

lemma read_assurance_actions [simp]:
  "read_html (concat (map assurance_action (recommendations r))) (Outside, els) = Some (Outside, els)"
  by (rule read_concat_map) (auto dest: recommendation_texts)

lemma read_assurance_tr [simp]: "read_html (assurance_tr v) (Outside, els) = Some (Outside, els)"
  by (simp add: assurance_tr_def)

lemma read_assurance_report [simp]: "read_html (assurance_report br r) (Outside, els) = Some (Outside, els)"
  by (simp add: assurance_report_def Let_def)

lemma read_assurance_content:
  "assurance_content br s = Some h \<Longrightarrow> read_html h (Outside, els) = Some (Outside, els)"
  by (auto simp: assurance_content_def split: if_splits option.splits)

lemma read_campaign_option [simp]: "read_html (campaign_option sel c) (Outside, els) = Some (Outside, els)"
  by (simp add: campaign_option_def)

lemma read_assurance_shell [simp]:
  "(\<And>els. read_html h (Outside, els) = Some (Outside, els)) \<Longrightarrow>
   read_html (assurance_shell br s sn sel h) (Outside, els) = Some (Outside, els)"
  by (simp add: assurance_shell_def)

lemma read_assurance_view:
  "assurance_view br s sn = Some h \<Longrightarrow> read_html h (Outside, els) = Some (Outside, els)"
  by (auto simp: assurance_view_def Let_def read_assurance_content)

lemma inert_cell [simp]: "inert (cell_status_name st)" "inert (cell_value c)"
  by (cases st; simp) (simp add: cell_value_def split: cell_status.split)

lemma read_traffic_bar [simp]:
  "plain_page_browser br \<Longrightarrow> read_html (traffic_bar br peak x) (Outside, els) = Some (Outside, els)"
  by (cases x) (simp add: traffic_bar_def)

lemma read_traffic_bars [simp]:
  "plain_page_browser br \<Longrightarrow> read_html (traffic_bars br z) (Outside, els) = Some (Outside, els)"
  by (simp add: traffic_bars_def)

lemma read_traffic_tr [simp]:
  "plain_page_browser br \<Longrightarrow> read_html (traffic_tr br x) (Outside, els) = Some (Outside, els)"
  by (cases x) (simp add: traffic_tr_def)

lemma read_zone_article [simp]:
  "plain_page_browser br \<Longrightarrow> read_html (zone_article br z) (Outside, els) = Some (Outside, els)"
  by (cases "zon_change z") (simp_all add: zone_article_def)

lemma read_traffic_failure [simp]: "read_html (traffic_failure s) (Outside, els) = Some (Outside, els)"
  by (simp add: traffic_failure_def)

lemma read_traffic_report_html [simp]:
  "plain_page_browser br \<Longrightarrow> read_html (traffic_report_html br s r) (Outside, els) = Some (Outside, els)"
  by (simp add: traffic_report_html_def)

lemma read_traffic_content:
  "plain_page_browser br \<Longrightarrow> traffic_content br s = Some h \<Longrightarrow> read_html h (Outside, els) = Some (Outside, els)"
  by (auto simp: traffic_content_def bind_eq_Some_conv split: if_splits option.splits)

lemma sample_keys: "(a, b, c) \<in> set samples \<Longrightarrow> inert a"
  by (auto simp: samples_def)

lemma read_sample_option [simp]:
  "inert (fst x) \<Longrightarrow> read_html (sample_option sel x) (Outside, els) = Some (Outside, els)"
  by (cases x) (simp add: sample_option_def)

lemma read_sample_options [simp]:
  "read_html (concat (map (sample_option sel) samples)) (Outside, els) = Some (Outside, els)"
  by (rule read_concat_map) (auto dest: sample_keys)

lemma read_traffic_shell [simp]:
  "(\<And>els. read_html h (Outside, els) = Some (Outside, els)) \<Longrightarrow>
   read_html (traffic_shell s about h) (Outside, els) = Some (Outside, els)"
  by (simp add: traffic_shell_def)

lemma read_traffic_view:
  "plain_page_browser br \<Longrightarrow> traffic_view br s = Some h \<Longrightarrow> read_html h (Outside, els) = Some (Outside, els)"
  by (auto simp: traffic_view_def bind_eq_Some_conv read_traffic_content)

lemma inert_overview_next [simp]: "inert (overview_next rt c)"
  by (simp add: overview_next_def)

lemma read_overview [simp]:
  "plain_page_browser br \<Longrightarrow> plain_ids sn \<Longrightarrow> read_html (overview br s sn) (Outside, els) = Some (Outside, els)"
  by (simp add: overview_def Let_def delivery_intelligence_def)

lemma read_view:
  "plain_page_browser br \<Longrightarrow> plain_ids sn \<Longrightarrow> snap s = Some sn \<Longrightarrow> view_html br collate s sn = Some h \<Longrightarrow>
   read_html h (Outside, els) = Some (Outside, els)"
  by (auto simp: view_html_def Let_def read_traffic_view read_assurance_view split: if_splits)

lemma page_texts: "(i, icon, name, about) \<in> set pages \<Longrightarrow> inert i \<and> inert icon \<and> inert name \<and> inert about"
proof -
  have "list_all (\<lambda>(i, icon, name, about). inert i \<and> inert icon \<and> inert name \<and> inert about) pages"
    by code_simp
  then show "(i, icon, name, about) \<in> set pages \<Longrightarrow> inert i \<and> inert icon \<and> inert name \<and> inert about"
    by (auto simp: list_all_iff)
qed

lemma read_nav_link [simp]:
  "inert (fst p) \<Longrightarrow> inert (fst (snd p)) \<Longrightarrow> inert (fst (snd (snd p))) \<Longrightarrow> inert (snd (snd (snd p))) \<Longrightarrow>
   read_html (nav_link act p) (Outside, els) = Some (Outside, els)"
  by (cases p) (simp add: nav_link_def)

lemma read_nav_list [simp]: "read_html (nav_list s) (Outside, els) = Some (Outside, els)"
  using page_texts by (auto simp: nav_list_def Let_def intro!: read_concat_map read_nav_link simp del: read_concat_map)

lemma read_lost_banner [simp]: "read_html (lost_banner e) (Outside, els) = Some (Outside, els)"
  by (simp add: lost_banner_def)

lemma read_toggle_label [simp]: "read_html (toggle_label b) (Outside, els) = Some (Outside, els)"
  by (simp add: toggle_label_def)

lemma read_screens:
  "plain_ids sn \<Longrightarrow> array_find p (snp_screens sn) = Some v \<Longrightarrow> inert (scr_id v)"
  by (drule array_find_SomeD) (simp add: plain_idsD(2))

lemma read_details:
  "plain_ids sn \<Longrightarrow> detail_rows i sn = Some (d, r) \<Longrightarrow> inert (dlv_id d)"
  by (auto simp: detail_rows_def dest!: array_find_SomeD dest: plain_idsD(4))

lemma inner_html_whole:
  assumes "plain_page_browser br" and "plain_ids sn" and "snap s = Some sn"
    and "inner_html br collate s sn p = Some h"
  shows "whole h"
proof (rule wholeI)
  fix els
  show "read_html h (Outside, els) = Some (Outside, els)"
    using assms by (cases p)
      (auto simp: read_view read_assurance_content read_traffic_content read_details read_screens)
qed

text \<open>
  C9. Every text that the console turns into HTML, whatever names, reasons, messages and reports it
  shows, is read back to where it started: no tag or quote is left open, no element of the page is
  closed, and the tags and attributes are those of the template with empty values in it. The
  identifiers, which some templates insert as they are, and what the browser prints must have no
  markup characters.
\<close>

theorem inner_html_safe:
  assumes "plain_page_browser br" and "plain_ids sn" and "snap s = Some sn"
    and "inner_html br collate s sn p = Some h"
  shows "reads (html_string h) (Outside, els) = Some (Outside, els) \<and>
    markup (html_string (map blank_piece h)) (Outside, els) = markup (html_string h) (Outside, els)"
  using whole_fragment [OF inner_html_whole [OF assms]] by blast

definition hostile_campaign :: campaign where
  "hostile_campaign = \<lparr>cmp_id = ''c1'', cmp_name = ''</option><script src=x>'', cmp_budget = 5, cmp_reserved = 0, cmp_spent = 0\<rparr>"

definition hostile_snapshot :: snapshot where
  "hostile_snapshot = \<lparr>snp_campaigns = [hostile_campaign], snp_screens = [], snp_reservations = [],
     snp_deliveries = [], snp_audit = [], snp_counts = (\<lambda>_. 0), snp_now = 0\<rparr>"

definition blank_browser :: page_browser where
  "blank_browser = \<lparr>br_time = (\<lambda>_. []), br_local = (\<lambda>_. []), br_percent = (\<lambda>_ _. []), br_outline = [],
     br_dot = (\<lambda>_. []), br_bend = (\<lambda>_ _. ([], [])), br_json = (\<lambda>_. []), br_hour = (\<lambda>_. []),
     br_date = (\<lambda>_. []), br_clock = (\<lambda>_. []), br_fixed = (\<lambda>_. []), br_height = (\<lambda>_ _. []),
     br_ring = (\<lambda>_. []), br_row = (\<lambda>_. []), br_draft = (\<lambda>_. [])\<rparr>"

lemma blank_browser_plain: "plain_page_browser blank_browser" "plain_ids hostile_snapshot"
  by (simp_all add: plain_page_browser_def plain_browser_def blank_browser_def browser.defs plain_ids_def
      hostile_snapshot_def hostile_campaign_def)

theorem inner_html_safe_witness:
  "map cmp_name (snp_campaigns hostile_snapshot) = [''</option><script src=x>''] \<and>
   reads (html_string (reserve_dialog hostile_snapshot)) (Outside, [''div'']) = Some (Outside, [''div'']) \<and>
   markup (html_string (map blank_piece (reserve_dialog hostile_snapshot))) (Outside, [''div'']) =
   markup (html_string (reserve_dialog hostile_snapshot)) (Outside, [''div''])"
proof -
  let ?s = "fresh_traffic\<lparr>snap := Some hostile_snapshot\<rparr>"
  have "map cmp_name (snp_campaigns hostile_snapshot) = [''</option><script src=x>'']"
    by (simp add: hostile_snapshot_def hostile_campaign_def)
  then show ?thesis
    using inner_html_safe [OF blank_browser_plain, of ?s flat ReserveDialog "reserve_dialog hostile_snapshot" "[''div'']"]
    by simp
qed

text \<open>
  The reports that the pages read have the shape of the API's, and the selected sample is one of the
  list: then no page throws while it is built.
\<close>

definition readable :: "'a traffic_page_scheme \<Rightarrow> bool" where
  "readable s \<longleftrightarrow> tr_selected s \<in> set sample_ids \<and>
     (case as_report s of None \<Rightarrow> True | Some p \<Rightarrow> as_assurance p \<noteq> None) \<and>
     (case tr_report s of None \<Rightarrow> True
      | Some p \<Rightarrow> (case as_traffic_report p of None \<Rightarrow> False | Some r \<Rightarrow> list_all paired_zone (trp_zones r)))"

lemma assurance_content_defined: "readable s \<Longrightarrow> \<exists>h. assurance_content br s = Some h"
  by (auto simp: readable_def assurance_content_def split: option.splits)

lemma traffic_content_defined: "readable s \<Longrightarrow> \<exists>h. traffic_content br s = Some h"
  by (auto simp: readable_def traffic_content_def split: option.splits)

lemma traffic_view_defined: "readable s \<Longrightarrow> \<exists>h. traffic_view br s = Some h"
  using traffic_content_defined [of s br]
  by (auto simp: readable_def traffic_view_def sample_ids_def map_of_eq_None_iff bind_eq_Some_conv
      dest!: weak_map_of_SomeI)

lemma view_defined:
  assumes "readable s" and "active s \<in> set views"
  shows "\<exists>h. view_html br collate s sn = Some h"
  using assms traffic_view_defined [OF assms(1), of br] assurance_content_defined [OF assms(1), of br]
  by (auto simp: view_html_def Let_def assurance_view_def views_def)

lemma render_active: "snap s = Some sn \<Longrightarrow> active (render collate s) = route s"
  by (auto simp: render_def Let_def show_ledger_def)

lemma render_readable [simp]: "readable (render collate s) = readable s"
  by (simp add: render_def Let_def show_ledger_def readable_def split: option.split)

lemma route_view: "route s \<in> set views"
  by (simp add: route_def views_def)

text \<open>
  Whatever address the document has, \<open>render\<close> shows one of the ten views; a view of a report of another shape is where
  building one can fail.
\<close>

lemma every_view_drawn:
  assumes "snap s = Some sn" and "readable s"
  shows "active (render collate s) \<in> set views \<and> (\<exists>h. view_html br collate (render collate s) sn = Some h)"
  using view_defined [of "render collate s"] assms by (simp add: render_active route_view)

end
