(* ===== verification/Controls.thy ===== *)
theory Controls
  imports Engine PageViews
begin

text \<open>
  The controls of the console: which handler a click starts, when a button is disabled, what the
  partial updates of the pages write into the document between two full drawings, which files the
  page offers for download, and where the map draws its screens. The scripts delegate: each of them
  listens to every click of the document and looks for its own data attributes; here a click is
  the list of the calls it starts, and the handlers are those of the other theories.
\<close>

subsection \<open>State\<close>

text \<open>
  The files that were offered for download, with their names. The content of a file is the value
  that \<open>JSON.stringify\<close> prints; an instant is a time in milliseconds.
\<close>

record receipts_report =
  rex_scope :: string
  rex_observed :: "int option"
  rex_filter :: string
  rex_search :: string
  rex_receipts :: "delivery list"

datatype content = ReceiptsFile receipts_report | AssuranceFile payload | ProofFile string proof_run

record controls_page = traffic_page +
  downloads :: "(string \<times> content) list"

definition offer :: "string \<Rightarrow> content \<Rightarrow> 'a controls_page_scheme \<Rightarrow> 'a controls_page_scheme" where
  "offer name c s = s\<lparr>downloads := downloads s @ [(name, c)]\<rparr>"

text \<open>
  What a click can meet: an element with the data attribute that a template gave it. \<open>Plain\<close> is
  an element without one.
\<close>

datatype element =
    Action string | Delivery string | FilterBy string | ReplayOf string | ProofOf string | ScreenOf string
  | LedgerPage string | ClearFilters | ExportReceipts | OverviewProof
  | AssuranceRefresh | AssuranceExport
  | ProofRun string | ProofExport | ProofEvidence nat
  | IntakeExample | IntakeSend
  | TrafficLoad | TrafficReplay | TrafficEmpty | TrafficRandom | TrafficRefresh
  | Plain

subsection \<open>The shell (\<open>app.js\<close>)\<close>

text \<open>The banner that tells how fresh the page is, and the tooltip of the refresh button.\<close>

definition freshness_hidden :: "'a console_scheme \<Rightarrow> bool" where
  "freshness_hidden s \<longleftrightarrow> \<not> connection_lost s \<and> \<not> live_paused s"

definition freshness_text :: "'b page_browser_scheme \<Rightarrow> 'a console_scheme \<Rightarrow> string" where
  "freshness_text br s =
     (if connection_lost s then ''Connection interrupted. Showing the last successful snapshot.''
      else if live_paused s
      then ''Automatic updates paused. The engine continues processing; refresh manually or resume updates.''
      else []) @
     (case last_updated s of
        None \<Rightarrow> []
      | Some t \<Rightarrow> if connection_lost s \<or> live_paused s then '' Last updated '' @ br_clock br t @ ''.'' else [])"

definition refresh_title :: "'b page_browser_scheme \<Rightarrow> 'a console_scheme \<Rightarrow> string" where
  "refresh_title br s =
     (case last_updated s of
        None \<Rightarrow> ''Refresh data''
      | Some t \<Rightarrow> ''Refresh data '' @ utf8 [194, 183] @ '' last updated '' @ br_clock br t)"

text \<open>The export of the ledger: what the filters let through, said to be no more than that.\<close>

definition export_receipts :: "string comparator \<Rightarrow> ('a controls_page_scheme, unit) prog" where
  "export_receipts collate s =
     (case snap s of
        None \<Rightarrow> Throw s type_error
      | Some _ \<Rightarrow>
        let rows = deliveries_shown collate s;
            report = \<lparr>rex_scope = ''Matches within the latest 100 receipts, not the full ledger'',
              rex_observed = last_updated s, rex_filter = filt s, rex_search = search s,
              rex_receipts = rows\<rparr>
        in Return (toast (''Exported '' @ dec (length rows) @ '' matching receipts.'') False
             (offer ''afterglow-receipts.json'' (ReceiptsFile report) s)) ())"

fun ledger_listener :: "string comparator \<Rightarrow> element \<Rightarrow> ('a controls_page_scheme, unit) prog" where
  "ledger_listener collate (LedgerPage v) = modify (ledger_page_click collate (v = ''next''))"
| "ledger_listener collate ClearFilters = modify (clear_filters collate)"
| "ledger_listener collate ExportReceipts = export_receipts collate"
| "ledger_listener collate _ = ret ()"

fun overview_listener :: "string comparator \<Rightarrow> element \<Rightarrow> ('a proof_page_scheme, unit) prog" where
  "overview_listener collate OverviewProof = overview_proof collate"
| "overview_listener collate _ = ret ()"

text \<open>
  The requests of the delegated listener: a replay and a playback, each when its attribute has a
  value, and then a refresh.
\<close>

definition replay_part :: "string \<Rightarrow> ('a console_scheme, unit) prog" where
  "replay_part i =
     bind (request (post_request (''/api/v1/deliveries/'' @ i @ ''/replay'') P_empty)) (\<lambda>_.
       modify (\<lambda>s. toast ''Original payload requeued. Validation and charge protection still apply.''
               False (close_dialog s)))"

definition playback_part :: "string \<Rightarrow> ('a console_scheme, unit) prog" where
  "playback_part i =
     bind (gets (\<lambda>s. Option.bind (snap s) (\<lambda>sn. array_find (\<lambda>r. rsv_id r = i) (snp_reservations sn))))
       (\<lambda>found. case found of
          None \<Rightarrow> throw type_error
        | Some r \<Rightarrow>
            bind random_uuid (\<lambda>u.
            bind (gets clock) (\<lambda>now.
            bind (request (post_request ''/api/v1/receipts''
              (P_receipt \<lparr>rcp_version = 1, rcp_event = u, rcp_reservation = rsv_id r,
                 rcp_screen = rsv_screen r, rcp_played_at = now, rcp_duration = 10000\<rparr>))) (\<lambda>_.
            modify (toast ''Playback receipt accepted durably. The worker will reconcile it.'' False)))))"

definition click_requests :: "string comparator \<Rightarrow> string \<Rightarrow> string \<Rightarrow> ('a console_scheme, unit) prog" where
  "click_requests collate again played =
     try_catch
       (seq (only_if (again \<noteq> []) (replay_part again))
         (seq (only_if (played \<noteq> []) (playback_part played)) (refresh collate)))
       (\<lambda>e. modify (toast (err_message e) True))"

fun app_listener :: "string comparator \<Rightarrow> element \<Rightarrow> ('a console_scheme, unit) prog" where
  "app_listener collate (Action v) = (if v \<noteq> [] then scenario collate v else click_requests collate [] [])"
| "app_listener collate (Delivery v) = (if v \<noteq> [] then modify (details v) else click_requests collate [] [])"
| "app_listener collate (FilterBy v) = (if v \<noteq> [] then modify (filter_click collate v) else click_requests collate [] [])"
| "app_listener collate (ScreenOf v) = (if v \<noteq> [] then screen_click v else click_requests collate [] [])"
| "app_listener collate (ReplayOf v) = click_requests collate v []"
| "app_listener collate (ProofOf v) = click_requests collate [] v"
| "app_listener collate _ = ret ()"

text \<open>The keyboard on a dot of the map: Enter and the space bar send it a click.\<close>

fun screen_key :: "string comparator \<Rightarrow> string \<Rightarrow> element \<Rightarrow> ('a console_scheme, unit) prog" where
  "screen_key collate k (ScreenOf v) =
     (if k = ''Enter'' \<or> k = '' '' then app_listener collate (ScreenOf v) else ret ())"
| "screen_key collate k _ = ret ()"

text \<open>The refresh button of the shell: two calls, neither of which waits for the other.\<close>

definition refresh_button :: "string comparator \<Rightarrow> 'a traffic_page_scheme \<Rightarrow> ('a traffic_page_scheme, unit) prog list" where
  "refresh_button collate s =
     refresh collate # (if active s = ''foot-traffic'' then [traffic_public_refresh] else [])"

subsection \<open>The map of the overview (\<open>app.js\<close>)\<close>

text \<open>
  \<open>point\<close> places a longitude and a latitude on the drawing, whose view box is 650 wide and 295
  high; doubles are rationals here. The outline is a closed path through the listed places. A line
  between two screens is a quadratic curve whose control point is 40 above the higher of them.
\<close>

definition point :: "rat \<Rightarrow> rat \<Rightarrow> rat \<times> rat" where
  "point lng lat = ((lng + 126) / 60 * 590 + 15, (50 - lat) / 26 * 255 + 20)"

definition outline :: "(rat \<times> rat) list" where
  "outline = [
     (-1247 / 10, 485 / 10), (-123, 483 / 10), (-1229 / 10, 49), (-95, 49), (-95, 48), (-89, 48),
     (-85, 467 / 10), (-83, 46), (-823 / 10, 43), (-798 / 10, 432 / 10), (-765 / 10, 44),
     (-715 / 10, 45), (-70, 47), (-67, 45), (-698 / 10, 43), (-708 / 10, 415 / 10), (-74, 405 / 10),
     (-755 / 10, 38), (-757 / 10, 355 / 10), (-78, 34), (-805 / 10, 32), (-81, 29),
     (-802 / 10, 255 / 10), (-81, 25), (-82, 27), (-826 / 10, 28), (-83, 295 / 10), (-85, 30),
     (-875 / 10, 302 / 10), (-897 / 10, 293 / 10), (-91, 294 / 10), (-938 / 10, 298 / 10),
     (-965 / 10, 28), (-971 / 10, 26), (-99, 265 / 10), (-101, 29), (-103, 29), (-1065 / 10, 32),
     (-111, 313 / 10), (-1147 / 10, 327 / 10), (-117, 325 / 10), (-1185 / 10, 34), (-1205 / 10, 35),
     (-1225 / 10, 38), (-1243 / 10, 42), (-124, 46)]"

definition outline_path :: "(rat \<times> rat) list" where
  "outline_path = map (\<lambda>(lng, lat). point lng lat) outline"

definition control_point :: "rat \<times> rat \<Rightarrow> rat \<times> rat \<Rightarrow> rat \<times> rat" where
  "control_point p q = ((fst p + fst q) / 2, min (snd p) (snd q) - 40)"

text \<open>The curve that the browser draws for \<open>M p Q c q\<close>, at the parameter \<open>t\<close> between 0 and 1.\<close>

definition curve :: "rat \<Rightarrow> rat \<Rightarrow> rat \<Rightarrow> rat \<Rightarrow> rat" where
  "curve p c q t = (1 - t) * (1 - t) * p + 2 * t * (1 - t) * c + t * t * q"

text \<open>Where the demonstration's screens are: longitude and latitude (\<open>Seed\<close> of \<open>store.go\<close>).\<close>

definition seed_places :: "(string \<times> rat \<times> rat) list" where
  "seed_places = [
     (''sea-01'', -12231 / 100, 4745 / 100),
     (''sea-02'', -12233 / 100, 4761 / 100),
     (''pdx-01'', -12260 / 100, 4559 / 100),
     (''sfo-01'', -12238 / 100, 3762 / 100),
     (''lax-01'', -11840 / 100, 3394 / 100),
     (''den-01'', -10467 / 100, 3986 / 100),
     (''ord-01'', -8790 / 100, 4198 / 100),
     (''jfk-01'', -7378 / 100, 4064 / 100)]"

subsection \<open>The page finder (\<open>navigation.js\<close>)\<close>

text \<open>A click on the finder's backdrop closes it.\<close>

definition nav_backdrop ::
  "('n::linorder) \<Rightarrow> 'n \<Rightarrow> 'n \<times> 'n \<times> 'n \<times> 'n \<Rightarrow> 'a nav_page_scheme \<Rightarrow> 'a nav_page_scheme" where
  "nav_backdrop x y box s =
     (case box of (left, right, upper, lower) \<Rightarrow>
        if x < left \<or> right < x \<or> y < upper \<or> lower < y then close_navigation s else s)"

subsection \<open>Campaign assurance (\<open>assurance.js\<close>)\<close>

text \<open>\<open>update\<close>: the report's text and whether the export button is disabled.\<close>

definition assurance_update :: "page_browser \<Rightarrow> 'a assure_page_scheme \<Rightarrow> (html \<times> bool) option" where
  "assurance_update br s = map_option (\<lambda>h. (h, \<not> export_enabled s)) (assurance_content br s)"

definition export_report :: "('a controls_page_scheme, unit) prog" where
  "export_report s =
     (if export_enabled s
      then (case Option.bind (as_report s) as_assurance of
              None \<Rightarrow> Throw s type_error
            | Some a \<Rightarrow> Return (offer (''afterglow-'' @ cmp_id (asr_campaign a) @ ''-assurance.json'')
                (AssuranceFile (P_assurance a)) s) ())
      else Return s ())"

fun assurance_listener :: "element \<Rightarrow> ('a controls_page_scheme, unit) prog" where
  "assurance_listener AssuranceRefresh = fetch_report"
| "assurance_listener AssuranceExport = export_report"
| "assurance_listener _ = ret ()"

subsection \<open>The live proof (\<open>proof.js\<close>)\<close>

text \<open>When the button that runs the proof is disabled, on its page and in the panel.\<close>

definition proof_disabled :: "'a proof_page_scheme \<Rightarrow> bool" where
  "proof_disabled s \<longleftrightarrow> pf_running s \<or> \<not> rt_demo (runtime s)"

text \<open>
  \<open>updateInline\<close>: the panel inside another page and whether the campaign selection is disabled.
  \<open>update\<close>: the page itself, with the focus put back on the button that had it. The new button takes
  the focus only when it is enabled.
\<close>

datatype proof_focus = OnRun | OnExport | OffButtons

definition proof_update_inline :: "page_browser \<Rightarrow> string \<Rightarrow> 'a proof_page_scheme \<Rightarrow> html \<times> bool" where
  "proof_update_inline br campaign s = (inline_contents br campaign s, pf_running s)"

fun restored_focus :: "'a proof_page_scheme \<Rightarrow> proof_focus \<Rightarrow> proof_focus" where
  "restored_focus s OnRun = (if proof_disabled s then OffButtons else OnRun)"
| "restored_focus s OnExport = (if pf_run s = None then OffButtons else OnExport)"
| "restored_focus s OffButtons = OffButtons"

definition proof_update :: "page_browser \<Rightarrow> proof_focus \<Rightarrow> 'a proof_page_scheme \<Rightarrow> html \<times> proof_focus" where
  "proof_update br f s = (proof_contents br s, restored_focus s f)"

definition proof_disclaimer :: string where
  "proof_disclaimer = ''Synthetic local demonstration; not Vistar certification or a production SLO. '' @
     ''Snapshots describe observations at their recorded times.''"

definition export_proof :: "'a controls_page_scheme \<Rightarrow> 'a controls_page_scheme" where
  "export_proof s =
     (case pf_run s of
        None \<Rightarrow> s
      | Some r \<Rightarrow> offer (''afterglow-proof-'' @ run_id r @ ''.json'') (ProofFile proof_disclaimer r) s)"

definition show_evidence :: "nat \<Rightarrow> 'a proof_page_scheme \<Rightarrow> 'a proof_page_scheme" where
  "show_evidence i s =
     (case array_at (evidence_rows (pf_run s)) i of None \<Rightarrow> s | Some _ \<Rightarrow> open_dialog False s)"

fun proof_listener :: "string comparator \<Rightarrow> element \<Rightarrow> ('a controls_page_scheme, unit) prog" where
  "proof_listener collate (ProofRun campaign) = execute collate campaign"
| "proof_listener collate ProofExport = modify export_proof"
| "proof_listener collate (ProofEvidence i) = modify (show_evidence i)"
| "proof_listener collate _ = ret ()"

subsection \<open>Partner intake (\<open>intake.js\<close>)\<close>

text \<open>The two buttons of the page.\<close>

definition intake_disabled :: "'a intake_page_scheme \<Rightarrow> bool" where
  "intake_disabled s \<longleftrightarrow> in_pending s \<or> \<not> rt_demo (runtime s)"

text \<open>What \<open>update\<close> writes while the page is shown.\<close>

record intake_fields =
  if_status :: string
  if_results :: html
  if_payload_disabled :: bool
  if_example_disabled :: bool
  if_price_error :: string
  if_price_invalid :: bool
  if_price_disabled :: bool
  if_explanation :: string
  if_load_label :: string
  if_buttons_disabled :: bool
  if_send_label :: string

definition intake_update :: "'a intake_page_scheme \<Rightarrow> intake_fields option" where
  "intake_update s =
     (if main_view s \<noteq> ''intake'' then None
      else Some \<lparr>if_status = in_notice s, if_results = intake_results s,
        if_payload_disabled = in_pending s, if_example_disabled = in_pending s,
        if_price_error = in_price_error s, if_price_invalid = (in_price_error s \<noteq> []),
        if_price_disabled = (in_pending s \<or> (case in_plan s of None \<Rightarrow> False | Some p \<Rightarrow> pln_hold p = None)),
        if_explanation = explanation (in_kind s),
        if_load_label = (if in_preparing s then ''Preparing'' @ utf8 [226, 128, 166] else ''Load example''),
        if_buttons_disabled = intake_disabled s,
        if_send_label = (if in_pending s \<and> \<not> in_preparing s then ''Sending'' @ utf8 [226, 128, 166]
           else ''Send batch '' @ utf8 [226, 134, 146])\<rparr>)"

fun intake_listener :: "string comparator \<Rightarrow> element \<Rightarrow> ('a intake_page_scheme, unit) prog" where
  "intake_listener collate IntakeExample = load_example"
| "intake_listener collate IntakeSend = send_batch collate"
| "intake_listener collate _ = ret ()"

subsection \<open>Foot traffic (\<open>foottraffic.js\<close>)\<close>

text \<open>
  \<open>update\<close> writes the report again. The zones whose details are open and the zone that has the focus
  are read before, and found again by their identifiers in the new text.
\<close>

record traffic_area =
  ta_html :: html
  ta_busy :: bool
  ta_open :: "string list"
  ta_focus :: "string option"

definition drawn_zones :: "'a traffic_page_scheme \<Rightarrow> string list" where
  "drawn_zones s =
     (case Option.bind (tr_report s) as_traffic_report of
        None \<Rightarrow> []
      | Some r \<Rightarrow> if report_empty r then [] else map zon_id (trp_zones r))"

definition traffic_update :: "page_browser \<Rightarrow> 'a traffic_page_scheme \<Rightarrow> traffic_area \<Rightarrow> traffic_area option" where
  "traffic_update br s d =
     map_option (\<lambda>h. \<lparr>ta_html = h, ta_busy = tr_loading s,
         ta_open = filter (\<lambda>z. z \<in> set (drawn_zones s)) (ta_open d),
         ta_focus = Option.bind (ta_focus d) (\<lambda>z. if z \<in> set (drawn_zones s) then Some z else None)\<rparr>)
       (traffic_content br s)"

text \<open>The five buttons and the selection.\<close>

definition traffic_buttons :: "element list" where
  "traffic_buttons = [TrafficLoad, TrafficReplay, TrafficRefresh, TrafficEmpty, TrafficRandom]"

definition traffic_disabled :: "'a traffic_page_scheme \<Rightarrow> element \<Rightarrow> bool" where
  "traffic_disabled s b \<longleftrightarrow> tr_loading s \<or> tr_importing s \<or> tr_emptying s \<or>
     b = TrafficReplay \<and> tr_attempts s (tr_selected s) = None"

definition traffic_working :: "'a traffic_page_scheme \<Rightarrow> element \<Rightarrow> bool" where
  "traffic_working s b =
     (if b = TrafficRefresh then tr_loading s else if b = TrafficEmpty then tr_emptying s else tr_importing s)"

fun traffic_label :: "'a traffic_page_scheme \<Rightarrow> element \<Rightarrow> string option" where
  "traffic_label s TrafficReplay = Some (replay_label s)"
| "traffic_label s TrafficLoad =
     Some (if tr_selected s = ''random'' then ''Generate another feed'' else ''Load sample feed'')"
| "traffic_label s _ = None"

record traffic_fields =
  tf_select_disabled :: bool
  tf_select_value :: string
  tf_description :: "string option"
  tf_notice :: string

definition traffic_update_fields :: "'a traffic_page_scheme \<Rightarrow> traffic_fields" where
  "traffic_update_fields s =
     \<lparr>tf_select_disabled = (tr_loading s \<or> tr_importing s \<or> tr_emptying s), tf_select_value = tr_selected s,
      tf_description = map_option snd (map_of samples (tr_selected s)), tf_notice = tr_notice s\<rparr>"

fun traffic_listener :: "element \<Rightarrow> ('a traffic_page_scheme, unit) prog" where
  "traffic_listener TrafficLoad = ingest False"
| "traffic_listener TrafficReplay = ingest True"
| "traffic_listener TrafficEmpty = empty_batch"
| "traffic_listener TrafficRandom = random_feed"
| "traffic_listener TrafficRefresh = traffic_refresh_click"
| "traffic_listener _ = ret ()"

subsection \<open>A click on the document\<close>

text \<open>All listeners hear a click, in the order in which the scripts registered them.\<close>

definition listeners :: "string comparator \<Rightarrow> element \<Rightarrow> ('a controls_page_scheme, unit) prog list" where
  "listeners collate e =
     [intake_listener collate e, proof_listener collate e, assurance_listener e, traffic_listener e,
      overview_listener collate e, ledger_listener collate e, app_listener collate e]"

text \<open>
  Which buttons the variables of the scripts disable, by the templates, by the updates and by \<open>syncActions\<close>. The
  buttons that replay a receipt or record a playback, and the submit button of the reserve form, are
  disabled by their own listener for the time of its requests, element by element and not by a variable:
  they are not among these.
\<close>

fun control_disabled :: "string comparator \<Rightarrow> 'a controls_page_scheme \<Rightarrow> element \<Rightarrow> bool" where
  "control_disabled collate s (Action _) \<longleftrightarrow> actions_disabled s"
| "control_disabled collate s (LedgerPage v) \<longleftrightarrow>
     (let w = ledger_results (deliveries_shown collate s) (ledger_page s)
      in if v = ''next'' then lvw_next_disabled w else lvw_prev_disabled w)"
| "control_disabled collate s OverviewProof \<longleftrightarrow> \<not> rt_demo (runtime s)"
| "control_disabled collate s IntakeExample \<longleftrightarrow> intake_disabled s"
| "control_disabled collate s IntakeSend \<longleftrightarrow> intake_disabled s"
| "control_disabled collate s (ProofRun _) \<longleftrightarrow> proof_disabled s"
| "control_disabled collate s ProofExport \<longleftrightarrow> pf_run s = None"
| "control_disabled collate s AssuranceExport \<longleftrightarrow> \<not> export_enabled s"
| "control_disabled collate s e \<longleftrightarrow> e \<in> set traffic_buttons \<and> traffic_disabled s e"

subsection \<open>The map stays inside its frame\<close>

definition on_map :: "rat \<Rightarrow> rat \<Rightarrow> bool" where
  "on_map lng lat \<longleftrightarrow> - 126 \<le> lng \<and> lng \<le> - 66 \<and> 24 \<le> lat \<and> lat \<le> 50"

lemma point_bounds:
  assumes "on_map lng lat"
  shows "15 \<le> fst (point lng lat)" "fst (point lng lat) \<le> 605"
    "20 \<le> snd (point lng lat)" "snd (point lng lat) \<le> 275"
  using assms by (auto simp: point_def on_map_def field_simps)

lemma curve_split:
  "curve p c q t = c + (1 - t) * (1 - t) * (p - c) + t * t * (q - c)"
  by (simp add: curve_def algebra_simps)

lemma curve_between:
  assumes "0 \<le> t" "t \<le> 1" "p \<le> M" "c \<le> M" "q \<le> M"
  shows "curve p c q t \<le> M"
proof -
  have "(1 - t) * (1 - t) * p + 2 * t * (1 - t) * c + t * t * q \<le>
      (1 - t) * (1 - t) * M + 2 * t * (1 - t) * M + t * t * M"
    using assms by (intro add_mono mult_left_mono) auto
  then show ?thesis by (simp add: curve_def algebra_simps)
qed

lemma curve_uminus: "curve (- p) (- c) (- q) t = - curve p c q t"
  by (simp add: curve_def algebra_simps)

lemma curve_above:
  assumes "0 \<le> t" "t \<le> 1" "M \<le> p" "M \<le> c" "M \<le> q"
  shows "M \<le> curve p c q t"
  using curve_between [of t "- p" "- M" "- c" "- q"] assms by (simp add: curve_uminus)

text \<open>The bulge: half of the control point's height.\<close>

lemma curve_bulge:
  assumes "0 \<le> t" "t \<le> 1"
  shows "min p q - 20 \<le> curve p (min p q - 40) q t"
proof -
  let ?m = "min p q"
  have "?m \<le> curve p ?m q t" using assms by (intro curve_above) auto
  moreover have "curve p (?m - 40) q t = curve p ?m q t - 80 * (t * (1 - t))"
    by (simp add: curve_def algebra_simps)
  moreover have "4 * (t * (1 - t)) \<le> 1"
    using zero_le_square [of "2 * t - 1"] by (simp add: algebra_simps)
  ultimately show ?thesis by linarith
qed

text \<open>
  Every vertex of the outline and every screen of the demonstration is on the drawing with room
  for its halo of radius 12, and every line between two places of the map's extent stays inside
  the view box although its control point may lie above it.
\<close>

theorem map_in_view:
  assumes "on_map a b" "on_map c d" "0 \<le> t" "t \<le> 1"
    and "p = point a b" "q = point c d" "m = control_point p q"
  shows "0 \<le> curve (fst p) (fst m) (fst q) t \<and> curve (fst p) (fst m) (fst q) t \<le> 650 \<and>
    0 \<le> curve (snd p) (snd m) (snd q) t \<and> curve (snd p) (snd m) (snd q) t \<le> 295"
proof -
  note b = point_bounds [OF assms(1), folded assms(5)] point_bounds [OF assms(2), folded assms(6)]
  have "0 \<le> curve (fst p) (fst m) (fst q) t" "curve (fst p) (fst m) (fst q) t \<le> 650"
    using b assms(3,4,7) by (intro curve_above curve_between; simp add: control_point_def)+
  moreover have "curve (snd p) (snd m) (snd q) t \<le> 295"
    using b assms(3,4,7) by (intro curve_between) (auto simp: control_point_def min_def)
  moreover have "min (snd p) (snd q) - 20 \<le> curve (snd p) (snd m) (snd q) t"
    using curve_bulge [OF assms(3,4)] assms(7) by (simp add: control_point_def)
  then have "0 \<le> curve (snd p) (snd m) (snd q) t" using b by (auto simp: min_def split: if_splits)
  ultimately show ?thesis by simp
qed

lemma outline_on_map: "list_all (\<lambda>(lng, lat). on_map lng lat) outline"
  by (simp add: outline_def on_map_def)

lemma seeds_on_map: "map fst seed_places = map scr_id seed_screens \<and>
  list_all (\<lambda>(_, lng, lat). on_map lng lat) seed_places"
  by (simp add: seed_places_def seed_screens_def on_map_def)

lemma outline_path_in_view: "list_all (\<lambda>(x, y). 0 \<le> x \<and> x \<le> 650 \<and> 0 \<le> y \<and> y \<le> 295) outline_path"
proof -
  have "case point lng lat of (x, y) \<Rightarrow> 0 \<le> x \<and> x \<le> 650 \<and> 0 \<le> y \<and> y \<le> 295" if "on_map lng lat" for lng lat
    using point_bounds [OF that] by (cases "point lng lat") simp
  then show ?thesis
    unfolding outline_path_def list_all_iff using outline_on_map by (fastforce simp: list_all_iff)
qed

subsection \<open>One click, one handler\<close>

text \<open>
  What the clicks and the other listeners can start: the handlers of the tab, and four that only
  read the page or open the dialog.
\<close>

definition page_handlers :: "string comparator \<Rightarrow> ('a controls_page_scheme, unit) prog set" where
  "page_handlers collate = document_handlers collate \<union>
     {export_receipts collate, export_report, modify export_proof} \<union> range (\<lambda>i. modify (show_evidence i))"

lemma abind_assoc: "abind (abind m f) g = abind m (\<lambda>a s. abind (f a s) g)"
  by (induction m) (auto simp: fun_eq_iff)

lemma seq_bind: "seq (bind m f) n = bind m (\<lambda>a. seq (f a) n)"
  unfolding bind_def seq_def by (simp add: abind_assoc)

lemma only_if_simps: "only_if True m = m" "seq (only_if False m) n = n"
  by (simp_all add: fun_eq_iff async_simps)

lemma click_replay: "v \<noteq> [] \<Longrightarrow> click_requests collate v [] = replay_click collate v"
  by (simp add: click_requests_def replay_click_def replay_part_def only_if_simps seq_bind)

lemma click_playback: "v \<noteq> [] \<Longrightarrow> click_requests collate [] v = record_playback collate v"
  unfolding click_requests_def record_playback_def playback_part_def only_if_simps
  by (rule ext) (simp add: bind_def [abs_def] seq_def [abs_def] gets_def [abs_def] try_catch_def throw_def
      only_if_def [abs_def] abind_assoc split: option.split)

text \<open>The elements of the templates: an attribute that is read has a value.\<close>

fun drawn :: "element \<Rightarrow> bool" where
  "drawn (Action v) \<longleftrightarrow> v \<noteq> []"
| "drawn (Delivery v) \<longleftrightarrow> v \<noteq> []"
| "drawn (FilterBy v) \<longleftrightarrow> v \<noteq> []"
| "drawn (ReplayOf v) \<longleftrightarrow> v \<noteq> []"
| "drawn (ProofOf v) \<longleftrightarrow> v \<noteq> []"
| "drawn (ScreenOf v) \<longleftrightarrow> v \<noteq> []"
| "drawn _ \<longleftrightarrow> True"

lemma handler_kinds:
  "scenario collate v \<in> document_handlers collate" "modify (details v) \<in> document_handlers collate"
  "modify (filter_click collate v) \<in> document_handlers collate" "screen_click v \<in> document_handlers collate"
  "replay_click collate v \<in> document_handlers collate" "record_playback collate v \<in> document_handlers collate"
  "modify (ledger_page_click collate b) \<in> document_handlers collate"
  "modify (clear_filters collate) \<in> document_handlers collate"
  "overview_proof collate \<in> document_handlers collate" "execute collate v \<in> document_handlers collate"
  "fetch_report \<in> document_handlers collate" "load_example \<in> document_handlers collate"
  "send_batch collate \<in> document_handlers collate" "ingest b \<in> document_handlers collate"
  "empty_batch \<in> document_handlers collate" "random_feed \<in> document_handlers collate"
  "traffic_refresh_click \<in> document_handlers collate" "traffic_public_refresh \<in> document_handlers collate"
  "refresh collate \<in> document_handlers collate"
  by (auto simp: document_handlers_def console_handlers_def proof_handlers_def assurance_handlers_def
      intake_handlers_def traffic_handlers_def)

text \<open>A click on an element of the pages starts at most one handler; every other listener does nothing.\<close>

lemma click_runs_one_handler:
  assumes "drawn e"
  shows "\<exists>us h vs. listeners collate e = us @ h # vs \<and> set us \<union> set vs \<subseteq> {ret ()} \<and>
    h \<in> insert (ret ()) (page_handlers collate)"
proof -
  let ?L = "listeners collate e"
  let ?i = "case e of IntakeExample \<Rightarrow> 0 | IntakeSend \<Rightarrow> 0 | ProofRun _ \<Rightarrow> 1 | ProofExport \<Rightarrow> 1 | ProofEvidence _ \<Rightarrow> 1
    | AssuranceRefresh \<Rightarrow> 2 | AssuranceExport \<Rightarrow> 2 | OverviewProof \<Rightarrow> 4
    | LedgerPage _ \<Rightarrow> 5 | ClearFilters \<Rightarrow> 5 | ExportReceipts \<Rightarrow> 5
    | TrafficLoad \<Rightarrow> 3 | TrafficReplay \<Rightarrow> 3 | TrafficEmpty \<Rightarrow> 3 | TrafficRandom \<Rightarrow> 3 | TrafficRefresh \<Rightarrow> 3
    | _ \<Rightarrow> (6::nat)"
  have "?L = take ?i ?L @ ?L ! ?i # drop (Suc ?i) ?L"
    by (rule id_take_nth_drop) (simp add: listeners_def split: element.split)
  moreover have "set (take ?i ?L) \<union> set (drop (Suc ?i) ?L) \<subseteq> {ret ()}"
    by (cases e) (simp_all add: listeners_def)
  moreover have "?L ! ?i \<in> insert (ret ()) (page_handlers collate)"
    using assms
    by (cases e) (simp_all add: listeners_def page_handlers_def handler_kinds click_replay click_playback)
  ultimately show ?thesis by blast
qed

text \<open>The downloads and the evidence dialog leave the session alone, so the tab keeps its promises with them.\<close>

lemma beside_session_extra:
  "beside_session (offer n c)" "beside_session export_proof" "beside_session (show_evidence i)"
  "beside_session (\<lambda>s. toast m b (offer n c s))"
  by (auto simp: beside_session_def offer_def export_proof_def show_evidence_def open_dialog_def toast_def
      split: option.split)

lemma obeys_exports:
  "obeys same_session retired ans (export_receipts collate)" "obeys same_session retired ans export_report"
  by (auto intro!: obeysI simp: export_receipts_def export_report_def Let_def same_session_refl
      beside_sessionD [OF beside_session_extra(1)] beside_sessionD [OF beside_session_extra(4)] split: option.split)

lemma obeys_page: "h \<in> page_handlers collate \<Longrightarrow> obeys same_session retired ans h"
  unfolding page_handlers_def by (auto simp: obeys_document obeys_exports intro!: obeys_beside beside_session_extra)

lemma stamps_page: "h \<in> page_handlers collate \<Longrightarrow> stamps h"
  unfolding page_handlers_def
  by (auto simp: stamps_document stamps_pure)
     (auto simp: stamps_def export_receipts_def export_report_def Let_def split: option.split)

interpretation tab: one_dataset "page_handlers collate" document_env ans for collate ans
proof (unfold_locales, goal_cases)
  case (3 h s)
  then show ?case using obeys_page [of h collate ans] by (simp add: obeys_def)
qed (auto simp: same_session_trans stamps_page document_env_def same_session_def retired_def)

subsection \<open>The controls and their handlers\<close>

lemma ret_run: "ret () s = Return s ()"
  by (simp add: ret_def)

definition fetching :: "('s, 'a) async \<Rightarrow> bool" where
  "fetching m \<longleftrightarrow> (\<exists>s rq k. m = Await s (Fetch rq) k)"

lemma fetching_closed:
  "fetching m \<Longrightarrow> fetching (abind m f)" "fetching m \<Longrightarrow> fetching (acatch m h)" "fetching m \<Longrightarrow> fetching (afinally m g)"
  by (auto simp: fetching_def)

lemma fetching_request: "\<not> invalidated s \<Longrightarrow> fetching (request r s)"
  unfolding request_def bind_def by (rule fetching_closed) (simp add: send_def fetching_def)

lemmas fetching_simps = try_finally_def try_catch_def bind_def seq_def modify_def gets_def

lemma fetching_refresh: "\<not> invalidated s \<Longrightarrow> \<not> tr_loading s \<Longrightarrow> fetching (traffic_refresh b s)"
  by (simp add: traffic_refresh_def Let_def fetching_simps fetching_closed fetching_request)

lemma invalidated_kept [simp]:
  "invalidated (traffic_remember s) = invalidated s" "invalidated (keep_attempt a s) = invalidated s"
  by (simp_all add: traffic_remember_def set_item_def keep_attempt_def)

lemma fetching_ingest:
  assumes "\<not> invalidated s" "\<not> traffic_busy s" "b \<longrightarrow> tr_attempts s (tr_selected s) \<noteq> None"
  shows "fetching (ingest b s)"
proof (cases b)
  case True
  with assms(3) obtain a where "tr_attempts s (tr_selected s) = Some a" by auto
  with True assms(1,2) show ?thesis
    by (simp add: ingest_def ingest_body_def chosen_batch_def fetching_simps fetching_closed fetching_request)
next
  case False
  with assms(1,2) show ?thesis
    by (simp add: ingest_def ingest_body_def chosen_batch_def fetching_simps fetching_closed fetching_request)
qed

lemma fetching_traffic:
  assumes "\<not> invalidated s" "e \<in> set traffic_buttons" "\<not> control_disabled collate s e"
  shows "fetching (traffic_listener e s)"
proof -
  have idle: "\<not> traffic_busy s" "\<not> tr_loading s" "e = TrafficReplay \<longrightarrow> tr_attempts s (tr_selected s) \<noteq> None"
    using assms(2,3) by (auto simp: traffic_buttons_def traffic_disabled_def traffic_busy_def)
  have "fetching (empty_batch s)"
    using assms(1) idle(1) by (simp add: empty_batch_def empty_body_def fetching_simps fetching_closed fetching_request)
  moreover have "fetching (random_feed s)"
    using assms(1) idle(1) by (simp add: random_feed_def traffic_busy_def fetching_ingest)
  moreover have "fetching (traffic_refresh_click s)"
    using assms(1) idle by (simp add: traffic_refresh_click_def fetching_refresh)
  ultimately show ?thesis
    using assms(1,2) idle by (auto simp: traffic_buttons_def fetching_ingest)
qed

text \<open>Nothing happens, but for the notice of the foot-traffic page.\<close>

definition idle_run :: "'a traffic_page_scheme \<Rightarrow> ('a traffic_page_scheme, unit) async \<Rightarrow> bool" where
  "idle_run s m \<longleftrightarrow> (\<exists>n. m = Return (s\<lparr>tr_notice := n\<rparr>) ())"

lemma idle_runI [simp]:
  "idle_run s (Return s ())" "idle_run s (ret () s)" "idle_run s (Return (s\<lparr>tr_notice := n\<rparr>) ())"
proof -
  have "s = s\<lparr>tr_notice := tr_notice s\<rparr>" by simp
  then show "idle_run s (Return s ())" "idle_run s (ret () s)" unfolding idle_run_def ret_def by blast+
qed (auto simp: idle_run_def)

lemma disabled_traffic_idle:
  "e \<in> set traffic_buttons \<Longrightarrow> traffic_disabled s e \<Longrightarrow> idle_run s (traffic_listener e s)"
  by (auto simp: traffic_buttons_def traffic_disabled_def traffic_busy_def ingest_def empty_batch_def
      random_feed_def traffic_refresh_click_def)

text \<open>
  The listener of a disabled button does nothing by its own check; that of the \<open>data-action\<close> buttons checks the
  flag only, the browser has to keep clicks from a button that is disabled outside the demo.
\<close>

fun guards_itself :: "'a console_scheme \<Rightarrow> element \<Rightarrow> bool" where
  "guards_itself s (Action v) \<longleftrightarrow> v \<noteq> [] \<and> busy s"
| "guards_itself s e \<longleftrightarrow> True"

lemma disabled_idle:
  assumes "control_disabled collate s e" and "guards_itself s e" and "h \<in> set (listeners collate e)"
  shows "idle_run s (h s)"
proof -
  have others: "intake_disabled s \<Longrightarrow> load_example s = Return s ()"
    "intake_disabled s \<Longrightarrow> send_batch collate s = Return s ()"
    "proof_disabled s \<Longrightarrow> execute collate c s = Return s ()"
    "\<not> rt_demo (runtime s) \<Longrightarrow> overview_proof collate s = Return s ()"
    "\<not> export_enabled s \<Longrightarrow> export_report s = Return s ()"
    "pf_run s = None \<Longrightarrow> modify export_proof s = Return s ()"
    "busy s \<Longrightarrow> scenario collate v s = Return s ()" for c v
    by (auto simp: intake_disabled_def proof_disabled_def load_example_def send_batch_def execute_def
        export_report_def modify_def export_proof_def overview_proof_def scenario_def)
  have "control_disabled collate s (LedgerPage v) \<Longrightarrow> modify (ledger_page_click collate (v = ''next'')) s = Return s ()" for v
    by (auto simp: modify_def ledger_page_click_def Let_def split: if_splits)
  from assms others this disabled_traffic_idle [of e s] show ?thesis
    by (cases e) (auto simp: listeners_def traffic_buttons_def)
qed

text \<open>Each page's buttons against its event loop: they are disabled exactly while one of its operations waits.\<close>

lemma traffic_disabled_in_flight:
  assumes "\<not> traffic_busy s0" and "tr_selected s0 \<in> set sample_ids" and "tr_report s0 = None"
    and "reaches traffic_handlers traffic_env ans s0 (s, ts)" and "e \<in> set traffic_buttons"
  shows "control_disabled collate s e \<longleftrightarrow> ts \<noteq> [] \<or> e = TrafficReplay \<and> tr_attempts s (tr_selected s) = None"
proof -
  have "length ts = (if tv_busy (traffic_own s) then 1 else 0)"
    using traffic.one_in_flight [OF _ _ assms(4)] assms(1-3) by (simp add: traffic_busy_def tv_busy_def traffic_ok_def)
  then have "traffic_busy s \<longleftrightarrow> ts \<noteq> []" by (auto simp: tv_busy_def traffic_busy_def split: if_splits)
  then show ?thesis using assms(5) by (auto simp: traffic_buttons_def traffic_disabled_def traffic_busy_def)
qed

lemma intake_disabled_in_flight:
  assumes "\<not> in_pending s0" and "in_plan s0 = None" and "reaches (intake_handlers collate) intake_env ans s0 (s, ts)"
  shows "intake_disabled s \<longleftrightarrow> ts \<noteq> [] \<or> \<not> rt_demo (runtime s)"
proof -
  have "length ts = (if in_pending s then 1 else 0)"
    using intake.one_in_flight [OF _ _ assms(3)] assms(1,2) by (simp add: intake_own_def plan_priced_def)
  then show ?thesis by (auto simp: intake_disabled_def split: if_splits)
qed

lemma proof_disabled_in_flight:
  assumes "\<not> pf_running s0" and "runs_ok (proof_own s0)" and "reaches (proof_handlers collate) proof_env ans s0 (s, ts)"
  shows "proof_disabled s \<longleftrightarrow> ts \<noteq> [] \<or> \<not> rt_demo (runtime s)"
proof -
  have "length ts = (if pf_running s then 1 else 0)"
    using proofs.one_in_flight [OF _ assms(2,3)] assms(1) by (simp add: proof_own_def)
  then show ?thesis by (auto simp: proof_disabled_def split: if_splits)
qed

lemma actions_disabled_in_flight:
  assumes "\<not> busy s0" and "reaches (lab_handlers collate) lab_env ans s0 (s, ts)"
  shows "actions_disabled s \<longleftrightarrow> ts \<noteq> [] \<or> \<not> rt_demo (runtime s)"
proof -
  have "length ts = (if busy s then 1 else 0)" using lab.one_in_flight [OF assms(1) _ assms(2)] by simp
  then show ?thesis by (auto simp: actions_disabled_def split: if_splits)
qed

subsection \<open>What the updates keep\<close>

lemma freshness_hidden_iff: "freshness_hidden s \<longleftrightarrow> freshness_text br s = []"
  by (auto simp: freshness_hidden_def freshness_text_def split: option.split)

lemma intake_update_price: "intake_update s = Some f \<Longrightarrow> if_price_disabled f = price_disabled s"
  by (auto simp: intake_update_def price_disabled_def split: if_splits option.splits)

text \<open>A report that still has the zones whose details are open keeps them open, and the focus in its zone.\<close>

lemma traffic_update_keeps:
  assumes "traffic_update br s d = Some d'" and "set (ta_open d) \<union> set_option (ta_focus d) \<subseteq> set (drawn_zones s)"
  shows "ta_open d' = ta_open d" "ta_focus d' = ta_focus d"
proof -
  show "ta_open d' = ta_open d"
    using assms by (auto simp: traffic_update_def intro!: filter_True)
  show "ta_focus d' = ta_focus d"
    using assms by (cases "ta_focus d") (auto simp: traffic_update_def)
qed

text \<open>An exported report is the selected campaign's, and its file is named after it.\<close>

lemma exported_report_is_selected:
  assumes "as_report s0 = None"
    and "\<And>c p. ans (ReadBody (assurance_request c)) (Body p) \<Longrightarrow>
           \<exists>a. p = P_assurance a \<and> cmp_id (asr_campaign a) = c"
    and "reaches assurance_handlers assurance_env ans s0 (s, ts)" and "export_enabled s"
  shows "\<exists>a. cmp_id (asr_campaign a) = as_selected s \<and> export_report s =
    Return (offer (''afterglow-'' @ as_selected s @ ''-assurance.json'') (AssuranceFile (P_assurance a)) s) ()"
proof -
  have "matching ans s0" using assms(1) by (simp add: matching_def)
  from assured_loop.reaches_sound [OF this assms(3)] have "matching ans s" by simp
  moreover obtain p where p: "as_report s = Some p" using assms(4) by (auto simp: export_enabled_def)
  ultimately obtain a where "p = P_assurance a" "cmp_id (asr_campaign a) = as_selected s"
    using assms(2) by (auto simp: matching_def)
  with p assms(4) show ?thesis by (auto simp: export_report_def)
qed

subsection \<open>Properties of the controls\<close>

definition fresh_controls :: controls_page where
  "fresh_controls = traffic_page.extend fresh_traffic \<lparr>downloads = []\<rparr>"

lemmas fresh_controls_simps = fresh_controls_def traffic_page.defs fresh_traffic_simps



end
