(* ===== verification/Books.thy ===== *)
theory Books
  imports Engine
begin

text \<open>
  What every sequence of the engine's transactions keeps: the balances of a campaign are the sums
  of its reservations, a reservation is settled by exactly one receipt, accepted work stays in the
  outbox, and evidence and final decisions do not change.
\<close>

subsection \<open>Invariants\<close>

definition balanced :: "database \<Rightarrow> bool" where
  "balanced s \<longleftrightarrow> (\<forall>c \<in> set (db_campaigns s).
     cmp_reserved c = in_state (cmp_tenant c) (cmp_id c) Held s \<and>
     cmp_spent c = in_state (cmp_tenant c) (cmp_id c) RSettled s)"

definition settles :: "reservation_row \<Rightarrow> delivery_row \<Rightarrow> bool" where
  "settles r d \<longleftrightarrow> dr_tenant d = rsv_tenant r \<and> dr_status d = Settled \<and>
     map_option rcp_reservation (as_receipt (dr_payload d)) = Some (rsv_id r)"

definition settled_once :: "database \<Rightarrow> bool" where
  "settled_once s \<longleftrightarrow>
     (\<forall>r \<in> set (db_reservations s).
        count_where (settles r) (db_deliveries s) = (if rsv_state r = RSettled then 1 else 0)) \<and>
     (\<forall>d \<in> set (db_deliveries s). dr_status d = Settled \<longrightarrow> (\<exists>r \<in> set (db_reservations s). settles r d))"

definition queued :: "database \<Rightarrow> bool" where
  "queued s \<longleftrightarrow> (\<forall>d \<in> set (db_deliveries s). \<exists>b \<in> set (db_outbox s). outbox_key b = delivery_key d \<and>
     (dr_status d = Accepted \<longrightarrow> ob_state b \<in> {O_pending, O_leased, O_dispatched}))"

definition sound_db :: "database \<Rightarrow> bool" where
  "sound_db s \<longleftrightarrow> schema_ok s \<and> balanced s \<and> settled_once s \<and> queued s"

text \<open>The parts of the schema that the proofs use.\<close>

lemma schema_parts:
  assumes "schema_ok s"
  shows "distinct (map campaign_key (db_campaigns s))" "distinct (map reservation_key (db_reservations s))"
    "distinct (map delivery_key (db_deliveries s))" "distinct (map outbox_key (db_outbox s))"
    "distinct (map scr_id (db_screens s))"
    "r \<in> set (db_reservations s) \<Longrightarrow> (rsv_tenant r, rsv_campaign r) \<in> set (map campaign_key (db_campaigns s))"
    "r \<in> set (db_reservations s) \<Longrightarrow> rsv_screen r \<in> set (map scr_id (db_screens s))"
    "r \<in> set (db_reservations s) \<Longrightarrow> 0 < rsv_cost r"
    "c \<in> set (db_campaigns s) \<Longrightarrow> campaign_checks c"
  using assms by (auto simp: schema_ok_def list_all_iff)

lemma fst_commit: "fst (commit s s' a) = (if schema_ok s' then s' else s)"
  by (simp add: commit_def)

text \<open>A transaction keeps the invariant if its work does under the schema's checks.\<close>

lemma commit_sound:
  assumes "sound_db s"
    and "schema_ok s \<Longrightarrow> schema_ok s' \<Longrightarrow> balanced s \<Longrightarrow> balanced s'"
    and "schema_ok s \<Longrightarrow> schema_ok s' \<Longrightarrow> settled_once s \<Longrightarrow> settled_once s'"
    and "schema_ok s \<Longrightarrow> schema_ok s' \<Longrightarrow> queued s \<Longrightarrow> queued s'"
  shows "sound_db (fst (commit s s' a))"
  using assms by (auto simp: sound_db_def fst_commit)

text \<open>Invariants that only look at some tables.\<close>

lemma balanced_cong:
  "db_campaigns s' = db_campaigns s \<Longrightarrow> db_reservations s' = db_reservations s \<Longrightarrow> balanced s' = balanced s"
  by (simp add: balanced_def in_state_def)

lemma settled_once_cong:
  "db_deliveries s' = db_deliveries s \<Longrightarrow> db_reservations s' = db_reservations s \<Longrightarrow>
   settled_once s' = settled_once s"
  by (simp add: settled_once_def)

lemma queued_cong:
  "db_deliveries s' = db_deliveries s \<Longrightarrow> db_outbox s' = db_outbox s \<Longrightarrow> queued s' = queued s"
  by (simp add: queued_def)

lemma add_audit_sel [simp]:
  "db_campaigns (add_audit i now t k r d s) = db_campaigns s"
  "db_screens (add_audit i now t k r d s) = db_screens s"
  "db_reservations (add_audit i now t k r d s) = db_reservations s"
  "db_deliveries (add_audit i now t k r d s) = db_deliveries s"
  "db_outbox (add_audit i now t k r d s) = db_outbox s"
  by (simp_all add: add_audit_def)

lemma audit_invariants [simp]:
  "balanced (add_audit i now t k r d s) = balanced s"
  "settled_once (add_audit i now t k r d s) = settled_once s"
  "queued (add_audit i now t k r d s) = queued s"
  by (rule balanced_cong settled_once_cong queued_cong; simp)+

subsection \<open>Balances\<close>

lemma in_state_none:
  assumes "schema_ok s" and "(tenant, c) \<notin> set (map campaign_key (db_campaigns s))"
  shows "in_state tenant c st s = 0"
  unfolding in_state_def
  using schema_parts(6) [OF assms(1)] assms(2)
  by (intro sum_where_none) (auto simp: of_campaign_def)

lemma same_campaign:
  assumes "schema_ok s" and "x \<in> set (db_campaigns s)" and "y \<in> set (db_campaigns s)"
    and "campaign_key x = campaign_key y"
  shows "x = y"
  using assms schema_parts(1) [OF assms(1)] by (auto simp: distinct_map inj_on_def)

lemma same_reservation:
  assumes "schema_ok s" and "x \<in> set (db_reservations s)" and "y \<in> set (db_reservations s)"
    and "reservation_key x = reservation_key y"
  shows "x = y"
  using assms schema_parts(2) [OF assms(1)] by (auto simp: distinct_map inj_on_def)

text \<open>Moving one reservation to another state moves its cost between the sums.\<close>

definition set_state :: "reservation_row \<Rightarrow> rstate \<Rightarrow> reservation_row list \<Rightarrow> reservation_row list" where
  "set_state r st rows = update_where (\<lambda>x. reservation_key x = reservation_key r) (\<lambda>x. x\<lparr>rsv_state := st\<rparr>) rows"

lemma in_state_set_state:
  assumes "schema_ok s" and "r \<in> set (db_reservations s)" and "db_reservations s' = set_state r st (db_reservations s)"
  shows "in_state tenant c st' s' = in_state tenant c st' s
    - (if of_campaign tenant c st' r then rsv_cost r else 0)
    + (if rsv_tenant r = tenant \<and> rsv_campaign r = c \<and> st = st' then rsv_cost r else 0)"
  unfolding in_state_def assms(3) set_state_def
  using sum_where_update [OF schema_parts(2) [OF assms(1)] assms(2),
      where w = "\<lambda>x. reservation_key x = reservation_key r" and p = "of_campaign tenant c st'"
        and g = rsv_cost and f = "\<lambda>x. x\<lparr>rsv_state := st\<rparr>"]
  by (simp add: of_campaign_def)

lemma balanced_move:
  assumes "schema_ok s" and "balanced s" and "r \<in> set (db_reservations s)" and "rsv_state r = Held"
    and "st \<in> {RSettled, Released}" and "db_reservations s' = set_state r st (db_reservations s)"
    and "db_campaigns s' = update_where (\<lambda>c. cmp_tenant c = rsv_tenant r \<and> cmp_id c = rsv_campaign r)
      (\<lambda>c. c\<lparr>cmp_reserved := cmp_reserved c - rsv_cost r,
             cmp_spent := cmp_spent c + (if st = RSettled then rsv_cost r else 0)\<rparr>) (db_campaigns s)"
  shows "balanced s'"
  unfolding balanced_def
proof
  fix c' assume "c' \<in> set (db_campaigns s')"
  then obtain c where c: "c \<in> set (db_campaigns s)"
    and c': "c' = (if cmp_tenant c = rsv_tenant r \<and> cmp_id c = rsv_campaign r
      then c\<lparr>cmp_reserved := cmp_reserved c - rsv_cost r,
             cmp_spent := cmp_spent c + (if st = RSettled then rsv_cost r else 0)\<rparr> else c)"
    by (auto simp: assms(7) set_update_where)
  show "cmp_reserved c' = in_state (cmp_tenant c') (cmp_id c') Held s' \<and>
    cmp_spent c' = in_state (cmp_tenant c') (cmp_id c') RSettled s'"
    using assms(2,4,5) c unfolding balanced_def c'
    by (auto simp: in_state_set_state [OF assms(1,3,6)] of_campaign_def)
qed

subsection \<open>Reserving\<close>

text \<open>What a reservation that is granted writes.\<close>

definition granted :: "(payload \<Rightarrow> string) \<Rightarrow> ids \<Rightarrow> times \<Rightarrow> string \<Rightarrow> string \<Rightarrow> reservation_input \<Rightarrow> reservation_row" where
  "granted digest u t tenant k inp = \<lparr>rsv_id = u 0, rsv_campaign = inp_campaign inp,
     rsv_screen = inp_screen inp, rsv_cost = inp_cost inp, rsv_state = Held, rsv_created = t 0,
     rsv_expires = t 1 + hold_time, rsv_tenant = tenant, rsv_key = k,
     rsv_print = digest (P_reservation_input inp)\<rparr>"

definition add_hold :: "reservation_row \<Rightarrow> database \<Rightarrow> database" where
  "add_hold r s = s\<lparr>db_campaigns := update_where
       (\<lambda>c. (cmp_tenant c = rsv_tenant r \<and> cmp_id c = rsv_campaign r) \<and>
          rsv_cost r \<le> cmp_budget c - cmp_spent c - cmp_reserved c)
       (\<lambda>c. c\<lparr>cmp_reserved := cmp_reserved c + rsv_cost r\<rparr>) (db_campaigns s),
     db_reservations := db_reservations s @ [r]\<rparr>"

text \<open>A call of \<open>reserve\<close> leaves the database alone or commits one new hold that fits the budget.\<close>

lemma reserve_cases:
  obtains (same) "fst (reserve digest u t tenant k inp s) = s"
  | (hold) d x where
      "reserve digest u t tenant k inp s = commit s
         (add_audit (u 1) (t 2) tenant ''reserved'' (u 0) d (add_hold (granted digest u t tenant k inp) s))
         (reservation.truncate (granted digest u t tenant k inp), False)"
      "x \<in> set (db_campaigns s)" "cmp_tenant x = tenant" "cmp_id x = inp_campaign inp"
      "inp_cost inp \<le> cmp_budget x - cmp_spent x - cmp_reserved x" "0 < inp_cost inp"
proof (cases "fst (reserve digest u t tenant k inp s) = s")
  case False
  let ?room = "\<lambda>c. (cmp_tenant c = tenant \<and> cmp_id c = inp_campaign inp) \<and>
     inp_cost inp \<le> cmp_budget c - cmp_spent c - cmp_reserved c"
  have "valid_id k \<and> valid_id (inp_campaign inp) \<and> valid_id (inp_screen inp) \<and>
      0 < inp_cost inp \<and> inp_cost inp \<le> 1000000000 \<and>
      affected (\<lambda>c. cmp_tenant c = tenant \<and> cmp_id c = inp_campaign inp) (db_campaigns s) \<noteq> 0 \<and>
      array_find (\<lambda>r. rsv_tenant r = tenant \<and> rsv_key r = k) (db_reservations s) = None \<and>
      list_ex (\<lambda>v. scr_id v = inp_screen inp) (db_screens s) \<and> affected ?room (db_campaigns s) \<noteq> 0"
    by (rule ccontr) (use False in \<open>auto simp: reserve_def Let_def split: if_splits option.splits\<close>)
  then have "affected ?room (db_campaigns s) \<noteq> 0" and "0 < inp_cost inp" and
    "reserve digest u t tenant k inp s = commit s
      (add_audit (u 1) (t 2) tenant ''reserved'' (u 0)
        (dec (nat (inp_cost inp)) @ '' micros held; '' @ inp_screen inp)
        (add_hold (granted digest u t tenant k inp) s))
      (reservation.truncate (granted digest u t tenant k inp), False)"
    by (simp_all add: reserve_def Let_def add_hold_def granted_def reservation.defs del: array_find_None_iff)
  then show thesis using hold by (auto simp: affected_iff)
qed (rule same)

lemma balanced_add_hold:
  assumes "schema_ok s" and "balanced s" and "rsv_state r = Held"
    and "x \<in> set (db_campaigns s)" and "cmp_tenant x = rsv_tenant r" and "cmp_id x = rsv_campaign r"
    and "rsv_cost r \<le> cmp_budget x - cmp_spent x - cmp_reserved x"
  shows "balanced (add_hold r s)"
  unfolding balanced_def
proof
  fix c' assume "c' \<in> set (db_campaigns (add_hold r s))"
  then obtain c where c: "c \<in> set (db_campaigns s)" and c': "c' =
      (if (cmp_tenant c = rsv_tenant r \<and> cmp_id c = rsv_campaign r) \<and>
          rsv_cost r \<le> cmp_budget c - cmp_spent c - cmp_reserved c
       then c\<lparr>cmp_reserved := cmp_reserved c + rsv_cost r\<rparr> else c)"
    by (auto simp: add_hold_def set_update_where)
  have "cmp_tenant c = rsv_tenant r \<and> cmp_id c = rsv_campaign r \<Longrightarrow> c = x"
    using same_campaign [OF assms(1) c assms(4)] assms(5,6) by (simp add: campaign_key_def)
  with assms(2,3,7) c show "cmp_reserved c' = in_state (cmp_tenant c') (cmp_id c') Held (add_hold r s) \<and>
    cmp_spent c' = in_state (cmp_tenant c') (cmp_id c') RSettled (add_hold r s)"
    unfolding balanced_def c' by (auto simp: in_state_def add_hold_def of_campaign_def)
qed

lemma settled_add_hold:
  assumes "settled_once s" and "schema_ok (add_hold r s)" and "rsv_state r = Held"
  shows "settled_once (add_hold r s)"
proof -
  have new: "reservation_key r \<notin> set (map reservation_key (db_reservations s))"
    using schema_parts(2) [OF assms(2)] by (simp add: add_hold_def)
  have "\<not> settles r d" if d: "d \<in> set (db_deliveries s)" for d
  proof
    assume "settles r d"
    then obtain r' where "r' \<in> set (db_reservations s)" and "settles r' d"
      using assms(1) d by (auto simp: settled_once_def settles_def)
    then have "reservation_key r' = reservation_key r"
      using \<open>settles r d\<close> by (auto simp: settles_def reservation_key_def)
    with \<open>r' \<in> set (db_reservations s)\<close> new show False by (metis image_eqI list.set_map)
  qed
  then have "count_where (settles r) (db_deliveries s) = 0" by (intro count_where_none)
  with assms(1,3) show ?thesis by (auto simp: settled_once_def add_hold_def)
qed

lemma add_hold_sel [simp]:
  "db_deliveries (add_hold r s) = db_deliveries s" "db_outbox (add_hold r s) = db_outbox s"
  by (simp_all add: add_hold_def)

lemma schema_add_audit: "schema_ok (add_audit i now tn k r d s) \<Longrightarrow> schema_ok s"
  by (simp add: schema_ok_def add_audit_def)

lemma reserve_sound:
  assumes "sound_db s" shows "sound_db (fst (reserve digest u t tenant k inp s))"
proof (cases rule: reserve_cases [of digest u t tenant k inp s])
  case same
  with assms show ?thesis by simp
next
  case (hold d x)
  have g: "rsv_state (granted digest u t tenant k inp) = Held" "rsv_tenant (granted digest u t tenant k inp) = tenant"
    "rsv_campaign (granted digest u t tenant k inp) = inp_campaign inp"
    "rsv_cost (granted digest u t tenant k inp) = inp_cost inp"
    by (simp_all add: granted_def)
  show ?thesis unfolding hold(1)
  proof (rule commit_sound [OF assms])
    assume "schema_ok s" and "balanced s"
    with hold g show "balanced (add_audit (u 1) (t 2) tenant ''reserved'' (u 0) d (add_hold (granted digest u t tenant k inp) s))"
      by (simp add: balanced_add_hold [of s _ x])
  next
    assume "settled_once s" and "schema_ok (add_audit (u 1) (t 2) tenant ''reserved'' (u 0) d (add_hold (granted digest u t tenant k inp) s))"
    with g show "settled_once (add_audit (u 1) (t 2) tenant ''reserved'' (u 0) d (add_hold (granted digest u t tenant k inp) s))"
      by (simp add: settled_add_hold schema_add_audit)
  qed (simp add: queued_def)
qed

subsection \<open>Accepting\<close>

lemma accept_work_sound:
  assumes "sound_db s" and "dr_status d = Accepted" and "outbox_key b = delivery_key d" and "ob_state b = O_pending"
  shows "sound_db (fst (commit s (add_audit i now tn kd rs dt
    (s\<lparr>db_deliveries := db_deliveries s @ [d], db_outbox := db_outbox s @ [b]\<rparr>)) a))"
  by (rule commit_sound [OF assms(1)])
     (use assms in \<open>auto simp: balanced_def in_state_def settled_once_def settles_def queued_def\<close>)

lemma accept_sound:
  assumes "sound_db s" shows "sound_db (fst (accept digest u t tenant p s))"
  using assms
  by (auto simp: accept_def Let_def outbox_key_def delivery_key_def split: option.split
      intro!: accept_work_sound)

subsection \<open>Deciding\<close>

lemma update_where_twice:
  "(\<And>r. w (f r) = w r) \<Longrightarrow> update_where w g (update_where w f rows) = update_where w (\<lambda>r. g (f r)) rows"
  by (simp add: update_where_def)

text \<open>An update of deliveries that settles nothing.\<close>

lemma settled_update:
  assumes "settled_once s" and "db_reservations s' = db_reservations s"
    and "db_deliveries s' = update_where w f (db_deliveries s)"
    and "\<And>d. d \<in> set (db_deliveries s) \<Longrightarrow> w d \<Longrightarrow> dr_tenant (f d) = dr_tenant d \<and>
      dr_payload (f d) = dr_payload d \<and> (dr_status (f d) = Settled \<longleftrightarrow> dr_status d = Settled)"
  shows "settled_once s'"
proof -
  have "settles r (f d) = settles r d" if "d \<in> set (db_deliveries s)" "w d" for r d
    using assms(4) [OF that] by (simp add: settles_def)
  then have "count_where (settles r) (db_deliveries s') = count_where (settles r) (db_deliveries s)" for r
    unfolding assms(3) by (intro count_where_same) auto
  moreover have "\<exists>r \<in> set (db_reservations s). settles r d'"
    if "d' \<in> set (db_deliveries s')" "dr_status d' = Settled" for d'
  proof -
    from that(1) obtain d where d: "d \<in> set (db_deliveries s)" "d' = (if w d then f d else d)"
      by (auto simp: assms(3) set_update_where)
    with that(2) assms(4) have "dr_status d = Settled" by (auto split: if_splits)
    with d assms(1) obtain r where "r \<in> set (db_reservations s)" "settles r d" by (auto simp: settled_once_def)
    with d assms(4) show ?thesis by (auto simp: settles_def split: if_splits intro!: bexI [of _ r])
  qed
  ultimately show ?thesis using assms(1) by (simp add: settled_once_def assms(2))
qed

lemma queued_update:
  assumes "queued s" and "db_outbox s' = db_outbox s" and "db_deliveries s' = update_where w f (db_deliveries s)"
    and "\<And>d. d \<in> set (db_deliveries s) \<Longrightarrow> w d \<Longrightarrow> delivery_key (f d) = delivery_key d \<and>
      (dr_status (f d) = Accepted \<longrightarrow> dr_status d = Accepted)"
  shows "queued s'"
  unfolding queued_def
proof
  fix d' assume "d' \<in> set (db_deliveries s')"
  then obtain d where d: "d \<in> set (db_deliveries s)" "d' = (if w d then f d else d)"
    by (auto simp: assms(3) set_update_where)
  with assms(4) have "dr_status d' = Accepted \<Longrightarrow> dr_status d = Accepted" "delivery_key d' = delivery_key d"
    by (auto split: if_splits)
  with d(1) assms(1,2) show "\<exists>b \<in> set (db_outbox s'). outbox_key b = delivery_key d' \<and>
      (dr_status d' = Accepted \<longrightarrow> ob_state b \<in> {O_pending, O_leased, O_dispatched})"
    unfolding queued_def by metis
qed

text \<open>Settling a held reservation by one receipt.\<close>

lemma settled_settle:
  assumes "schema_ok s" and "settled_once s" and d: "d \<in> set (db_deliveries s)" "dr_status d = Accepted"
    and r: "r \<in> set (db_reservations s)" "rsv_state r = Held" "rsv_tenant r = dr_tenant d"
      "map_option rcp_reservation (as_receipt (dr_payload d)) = Some (rsv_id r)"
    and "db_reservations s' = set_state r RSettled (db_reservations s)"
    and "db_deliveries s' = update_where w f (db_deliveries s)"
    and "\<And>x. w x \<longleftrightarrow> delivery_key x = delivery_key d"
    and f: "dr_tenant (f d) = dr_tenant d" "dr_payload (f d) = dr_payload d" "dr_status (f d) = Settled"
  shows "settled_once s'"
proof -
  have only: "x = d" if "x \<in> set (db_deliveries s)" "w x" for x
    using that d(1) assms(11) schema_parts(3) [OF assms(1)] by (auto simp: distinct_map inj_on_def)
  have count: "count_where (settles x) (db_deliveries s') =
      count_where (settles x) (db_deliveries s) + (if reservation_key x = reservation_key r then 1 else 0)" for x
    using count_where_update [OF schema_parts(3) [OF assms(1)] d(1), of w "settles x" f] assms(11) d(2) r f
    unfolding assms(10) by (auto simp: settles_def reservation_key_def)
  have settled_of: "settles (x\<lparr>rsv_state := st\<rparr>) = settles x" for x st
    by (simp add: fun_eq_iff settles_def)
  show ?thesis
    unfolding settled_once_def
  proof (intro conjI ballI impI)
    fix x' assume "x' \<in> set (db_reservations s')"
    then obtain x where x: "x \<in> set (db_reservations s)"
      "x' = (if reservation_key x = reservation_key r then x\<lparr>rsv_state := RSettled\<rparr> else x)"
      by (auto simp: assms(9) set_state_def set_update_where)
    moreover have "reservation_key x = reservation_key r \<Longrightarrow> x = r"
      by (rule same_reservation [OF assms(1) x(1) r(1)])
    ultimately show "count_where (settles x') (db_deliveries s') = (if rsv_state x' = RSettled then 1 else 0)"
      using assms(2) r(2) x(1) count [of x] settled_of by (auto simp: settled_once_def)
  next
    fix d' assume "d' \<in> set (db_deliveries s')" and st: "dr_status d' = Settled"
    then obtain x where x: "x \<in> set (db_deliveries s)" "d' = (if w x then f x else x)"
      by (auto simp: assms(10) set_update_where)
    obtain r0 where r0: "r0 \<in> set (db_reservations s)" "settles r0 d'"
    proof (cases "w x")
      case True
      with only x r f that [of r] show thesis by (auto simp: settles_def)
    next
      case False
      with x st assms(2) that show thesis by (auto simp: settled_once_def)
    qed
    then have "(if reservation_key r0 = reservation_key r then r0\<lparr>rsv_state := RSettled\<rparr> else r0) \<in> set (db_reservations s')"
      unfolding assms(9) set_state_def set_update_where by blast
    then show "\<exists>r \<in> set (db_reservations s'). settles r d'"
      using r0(2) settled_of by (metis (full_types))
  qed
qed

lemma reservation_ofD:
  assumes "reservation_of tenant body s = Some r"
  shows "r \<in> set (db_reservations s)" "rsv_tenant r = tenant"
    "map_option rcp_reservation (as_receipt body) = Some (rsv_id r)"
  using assms by (auto simp: reservation_of_def split: option.splits dest!: array_find_SomeD)

lemma decision_cases:
  assumes "decision now tenant body s = (st, reason, moved)"
  obtains (no) "moved = None" "st \<in> {Quarantined, Duplicate}"
  | (pays) r where "moved = Some r" "st = Settled" "r \<in> set (db_reservations s)" "rsv_tenant r = tenant"
      "rsv_state r = Held" "map_option rcp_reservation (as_receipt body) = Some (rsv_id r)"
proof (cases moved)
  case None
  then have "st \<in> {Quarantined, Duplicate}"
    using assms by (auto simp: decision_def Let_def split: if_splits option.splits)
  with None show thesis by (rule no)
next
  case (Some r)
  then have "reservation_of tenant body s = Some r" "st = Settled" "rsv_state r = Held"
    using assms by (auto simp: decision_def Let_def split: if_splits option.splits)
  with Some reservation_ofD [of tenant body s r] show thesis by (intro pays) auto
qed

lemma settle_money_sel:
  "rsv_tenant r = tenant \<Longrightarrow> db_reservations (settle_money tenant r s) = set_state r RSettled (db_reservations s)"
  "db_deliveries (settle_money tenant r s) = db_deliveries s"
  "db_outbox (settle_money tenant r s) = db_outbox s"
  by (simp_all add: settle_money_def set_state_def reservation_key_def)

lemma balanced_settle_money:
  assumes "schema_ok s" and "balanced s" and "r \<in> set (db_reservations s)" and "rsv_state r = Held" and "rsv_tenant r = tenant"
  shows "balanced (settle_money tenant r s)"
  by (rule balanced_move [OF assms(1-4), of RSettled])
     (use assms(5) in \<open>simp_all add: settle_money_sel, simp add: settle_money_def\<close>)

lemma own_delivery: "(\<lambda>d. dr_tenant d = tenant \<and> dr_id d = i) = (\<lambda>d. delivery_key d = (tenant, i))"
  by (simp add: fun_eq_iff delivery_key_def)

text \<open>The first statement of \<open>process\<close>: one more attempt.\<close>

definition touched :: "string \<Rightarrow> string \<Rightarrow> database \<Rightarrow> database" where
  "touched tenant i s = s\<lparr>db_deliveries := update_where (\<lambda>d. delivery_key d = (tenant, i))
     (\<lambda>d. d\<lparr>dr_attempts := Suc (dr_attempts d)\<rparr>) (db_deliveries s)\<rparr>"

lemma touched_keeps:
  "balanced s \<Longrightarrow> balanced (touched tenant i s)" "settled_once s \<Longrightarrow> settled_once (touched tenant i s)"
  "queued s \<Longrightarrow> queued (touched tenant i s)" "schema_ok s \<Longrightarrow> schema_ok (touched tenant i s)"
proof -
  show "balanced s \<Longrightarrow> balanced (touched tenant i s)" by (simp add: balanced_def in_state_def touched_def)
  show "settled_once s \<Longrightarrow> settled_once (touched tenant i s)"
    by (rule settled_update [where w = "\<lambda>d. delivery_key d = (tenant, i)" and f = "\<lambda>d. d\<lparr>dr_attempts := Suc (dr_attempts d)\<rparr>"]) (auto simp: touched_def)
  show "queued s \<Longrightarrow> queued (touched tenant i s)"
    by (rule queued_update [where w = "\<lambda>d. delivery_key d = (tenant, i)" and f = "\<lambda>d. d\<lparr>dr_attempts := Suc (dr_attempts d)\<rparr>"]) (auto simp: touched_def delivery_key_def)
  have "map delivery_key (db_deliveries (touched tenant i s)) = map delivery_key (db_deliveries s)"
    "map (\<lambda>d. (dr_tenant d, dr_event d)) (db_deliveries (touched tenant i s)) =
     map (\<lambda>d. (dr_tenant d, dr_event d)) (db_deliveries s)"
    by (simp_all add: touched_def update_where_def delivery_key_def)
  moreover have "db_campaigns (touched tenant i s) = db_campaigns s" "db_screens (touched tenant i s) = db_screens s"
    "db_reservations (touched tenant i s) = db_reservations s" "db_outbox (touched tenant i s) = db_outbox s"
    "db_audit (touched tenant i s) = db_audit s" by (simp_all add: touched_def)
  ultimately show "schema_ok s \<Longrightarrow> schema_ok (touched tenant i s)"
    unfolding schema_ok_def by presburger
qed

lemma touched_sound: "sound_db s \<Longrightarrow> sound_db (touched tenant i s)"
  by (simp add: sound_db_def touched_keeps)

text \<open>The decision is written to the receipt, and the money of a settled reservation moved.\<close>

definition decided :: "string \<Rightarrow> string \<Rightarrow> dstatus \<Rightarrow> string \<Rightarrow> reservation_row option \<Rightarrow> database \<Rightarrow> database" where
  "decided tenant i st reason moved s =
     (let s2 = (case moved of None \<Rightarrow> s | Some r \<Rightarrow> settle_money tenant r s)
      in s2\<lparr>db_deliveries := update_where (\<lambda>d. delivery_key d = (tenant, i))
           (\<lambda>d. d\<lparr>dr_status := st, dr_reason := reason\<rparr>) (db_deliveries s2)\<rparr>)"

lemma process_cases:
  obtains (missing) "process u t tenant i s = (s, Inl ErrNotFound)"
  | (seen) d where "d \<in> set (db_deliveries (touched tenant i s))" "delivery_key d = (tenant, i)" "dr_status d \<noteq> Accepted"
      "process u t tenant i s = commit s (touched tenant i s) (dr_status d)"
  | (now) d st reason moved where "d \<in> set (db_deliveries (touched tenant i s))" "delivery_key d = (tenant, i)"
      "dr_status d = Accepted" "decision (t 0) tenant (dr_payload d) (touched tenant i s) = (st, reason, moved)"
      "process u t tenant i s = commit s (add_audit (u 0) (t 1) tenant (status_name st) i reason
         (decided tenant i st reason moved (touched tenant i s))) st"
proof (cases "array_find (\<lambda>d. delivery_key d = (tenant, i)) (db_deliveries (touched tenant i s))")
  case None
  then show thesis using missing by (simp add: process_def own_delivery touched_def Let_def del: array_find_None_iff)
next
  case (Some d)
  note d = array_find_SomeD [OF Some]
  obtain st reason moved where dec: "decision (t 0) tenant (dr_payload d) (touched tenant i s) = (st, reason, moved)"
    by (cases "decision (t 0) tenant (dr_payload d) (touched tenant i s)") auto
  show thesis
  proof (cases "dr_status d = Accepted")
    case True
    with Some dec have "process u t tenant i s = commit s (add_audit (u 0) (t 1) tenant (status_name st) i reason
         (decided tenant i st reason moved (touched tenant i s))) st"
      by (simp add: process_def own_delivery touched_def decided_def Let_def)
    with d True dec show thesis using now by blast
  next
    case False
    with Some have "process u t tenant i s = commit s (touched tenant i s) (dr_status d)"
      by (simp add: process_def own_delivery touched_def Let_def)
    with d False show thesis using seen by blast
  qed
qed

lemma decided_sound:
  assumes "sound_db s" and "d \<in> set (db_deliveries s)" "delivery_key d = (tenant, i)" "dr_status d = Accepted"
    and "decision now tenant (dr_payload d) s = (st, reason, moved)"
  shows "balanced (decided tenant i st reason moved s)" "settled_once (decided tenant i st reason moved s)"
    "queued (decided tenant i st reason moved s)"
proof -
  have inv: "schema_ok s" "balanced s" "settled_once s" "queued s" using assms(1) by (auto simp: sound_db_def)
  have tenant: "dr_tenant d = tenant" using assms(3) by (simp add: delivery_key_def)
  have only: "x = d" if "x \<in> set (db_deliveries s)" "delivery_key x = (tenant, i)" for x
    using that assms(2,3) schema_parts(3) [OF inv(1)] by (auto simp: distinct_map inj_on_def)
  have "balanced (decided tenant i st reason moved s) \<and> settled_once (decided tenant i st reason moved s) \<and>
    queued (decided tenant i st reason moved s)"
    using assms(5)
  proof (cases rule: decision_cases)
    case no
    have "settled_once (decided tenant i st reason moved s)"
      by (rule settled_update [OF inv(3), of _ "\<lambda>d. delivery_key d = (tenant, i)" "\<lambda>d. d\<lparr>dr_status := st, dr_reason := reason\<rparr>"])
         (use no only assms(4) in \<open>auto simp: decided_def\<close>)
    moreover have "queued (decided tenant i st reason moved s)"
      by (rule queued_update [OF inv(4), of _ "\<lambda>d. delivery_key d = (tenant, i)" "\<lambda>d. d\<lparr>dr_status := st, dr_reason := reason\<rparr>"])
         (use no in \<open>auto simp: decided_def delivery_key_def\<close>)
    moreover have "balanced (decided tenant i st reason moved s)"
      using inv(2) no by (simp add: decided_def balanced_def in_state_def)
    ultimately show ?thesis by simp
  next
    case (pays r)
    have "settled_once (decided tenant i st reason moved s)"
      by (rule settled_settle [OF inv(1,3) assms(2,4) pays(3,5), of _ "\<lambda>d. delivery_key d = (tenant, i)"
            "\<lambda>d. d\<lparr>dr_status := st, dr_reason := reason\<rparr>"])
         (use pays tenant assms(3) in \<open>auto simp: decided_def settle_money_sel\<close>)
    moreover have "queued (decided tenant i st reason moved s)"
      by (rule queued_update [OF inv(4), of _ "\<lambda>d. delivery_key d = (tenant, i)" "\<lambda>d. d\<lparr>dr_status := st, dr_reason := reason\<rparr>"])
         (use pays in \<open>auto simp: decided_def delivery_key_def settle_money_sel\<close>)
    moreover have "balanced (decided tenant i st reason moved s)"
      using balanced_settle_money [OF inv(1,2) pays(3,5,4)] pays
      by (simp add: decided_def balanced_def in_state_def Let_def)
    ultimately show ?thesis by simp
  qed
  then show "balanced (decided tenant i st reason moved s)" "settled_once (decided tenant i st reason moved s)"
    "queued (decided tenant i st reason moved s)" by simp_all
qed

lemma process_sound:
  assumes "sound_db s" shows "sound_db (fst (process u t tenant i s))"
proof (cases rule: process_cases [of u t tenant i s])
  case missing
  with assms show ?thesis by simp
next
  case (seen d)
  then show ?thesis using touched_sound [OF assms] assms by (simp add: fst_commit)
next
  case (now d st reason moved)
  note s1 = touched_sound [OF assms, of tenant i]
  show ?thesis unfolding now(5)
    by (rule commit_sound [OF assms]) (simp_all add: decided_sound [OF s1 now(1-4)])
qed

subsection \<open>Expiry, outbox and replay\<close>

lemma update_where_cong:
  "(\<And>r. r \<in> set rows \<Longrightarrow> p r = q r) \<Longrightarrow> update_where p f rows = update_where q f rows"
  by (simp add: update_where_def)

lemma settled_release:
  assumes "schema_ok s" and "settled_once s" and "r \<in> set (db_reservations s)" and "rsv_state r = Held"
    and "db_reservations s' = set_state r Released (db_reservations s)" and "db_deliveries s' = db_deliveries s"
  shows "settled_once s'"
proof -
  have settled_of: "settles (x\<lparr>rsv_state := st\<rparr>) = settles x" for x st
    by (simp add: fun_eq_iff settles_def)
  have new: "(if reservation_key x = reservation_key r then x\<lparr>rsv_state := Released\<rparr> else x) \<in> set (db_reservations s')"
    if "x \<in> set (db_reservations s)" for x
    unfolding assms(5) set_state_def set_update_where using that by blast
  have "count_where (settles x') (db_deliveries s) = (if rsv_state x' = RSettled then 1 else 0)"
    if "x' \<in> set (db_reservations s')" for x'
  proof -
    from that obtain x where x: "x \<in> set (db_reservations s)"
      "x' = (if reservation_key x = reservation_key r then x\<lparr>rsv_state := Released\<rparr> else x)"
      by (auto simp: assms(5) set_state_def set_update_where)
    then show ?thesis using assms(2,4) same_reservation [OF assms(1) x(1) assms(3)] settled_of
      by (auto simp: settled_once_def)
  qed
  moreover have "\<exists>x \<in> set (db_reservations s'). settles x d"
    if "d \<in> set (db_deliveries s)" "dr_status d = Settled" for d
  proof -
    from that assms(2) obtain x where "x \<in> set (db_reservations s)" "settles x d" by (auto simp: settled_once_def)
    with new [of x] settled_of show ?thesis by (metis (full_types))
  qed
  ultimately show ?thesis by (simp add: settled_once_def assms(6))
qed

lemma release_sound:
  assumes "sound_db s" shows "sound_db (fst (release u t tenant i now s))"
proof (cases "array_find (\<lambda>r. rsv_tenant r = tenant \<and> rsv_id r = i \<and> rsv_state r = Held \<and>
    rsv_expires r < now - 900000) (db_reservations s)")
  case None
  with assms show ?thesis by (simp add: release_def del: array_find_None_iff)
next
  case (Some r)
  note r = array_find_SomeD [OF Some]
  let ?p = "\<lambda>x. rsv_tenant x = tenant \<and> rsv_id x = i \<and> rsv_state x = Held \<and> rsv_expires x < now - 900000"
  have same: "update_where ?p (\<lambda>x. x\<lparr>rsv_state := Released\<rparr>) (db_reservations s) =
      set_state r Released (db_reservations s)" if "schema_ok s"
    unfolding set_state_def
    by (rule update_where_cong) (use r same_reservation [OF that] in \<open>auto simp: reservation_key_def\<close>)
  show ?thesis
    unfolding release_def Some option.case
    by (rule commit_sound [OF assms], simp_all only: audit_invariants)
       (use r in \<open>auto simp: same queued_def intro: balanced_move [where r = r and st = Released] settled_release [where r = r]\<close>)
qed

text \<open>A change of outbox rows that keeps accepted work alive.\<close>

lemma outbox_sound:
  assumes "sound_db s" and "\<And>b. outbox_key (f b) = outbox_key b"
    and "\<And>b d. b \<in> set (db_outbox s) \<Longrightarrow> w b \<Longrightarrow> d \<in> set (db_deliveries s) \<Longrightarrow> delivery_key d = outbox_key b \<Longrightarrow>
      dr_status d = Accepted \<Longrightarrow> ob_state (f b) \<in> {O_pending, O_leased, O_dispatched}"
  shows "sound_db (fst (commit s (s\<lparr>db_outbox := update_where w f (db_outbox s)\<rparr>) a))"
proof (rule commit_sound [OF assms(1)])
  assume "queued s"
  show "queued (s\<lparr>db_outbox := update_where w f (db_outbox s)\<rparr>)"
    unfolding queued_def
  proof
    fix d assume "d \<in> set (db_deliveries (s\<lparr>db_outbox := update_where w f (db_outbox s)\<rparr>))"
    then have d: "d \<in> set (db_deliveries s)" by simp
    with \<open>queued s\<close> obtain b where b: "b \<in> set (db_outbox s)" "outbox_key b = delivery_key d"
      "dr_status d = Accepted \<longrightarrow> ob_state b \<in> {O_pending, O_leased, O_dispatched}" by (auto simp: queued_def)
    have "(if w b then f b else b) \<in> set (db_outbox (s\<lparr>db_outbox := update_where w f (db_outbox s)\<rparr>))"
      using b(1) by (auto simp: set_update_where)
    moreover have "outbox_key (if w b then f b else b) = delivery_key d" using assms(2) b(2) by simp
    moreover have "dr_status d = Accepted \<longrightarrow> ob_state (if w b then f b else b) \<in> {O_pending, O_leased, O_dispatched}"
      using b(3) assms(3) [OF b(1) _ d] b(2) by auto
    ultimately show "\<exists>b \<in> set (db_outbox (s\<lparr>db_outbox := update_where w f (db_outbox s)\<rparr>)).
        outbox_key b = delivery_key d \<and> (dr_status d = Accepted \<longrightarrow> ob_state b \<in> {O_pending, O_leased, O_dispatched})"
      by blast
  qed
qed (simp_all add: balanced_def in_state_def settled_once_def)

lemma claim_sound: "sound_db s \<Longrightarrow> sound_db (fst (claim u now s))"
  by (auto simp: claim_def outbox_key_def split: option.split intro!: outbox_sound)

lemma dispatched_sound: "sound_db s \<Longrightarrow> sound_db (fst (dispatched j s))"
  by (auto simp: dispatched_def outbox_key_def intro!: outbox_sound)

lemma same_delivery:
  assumes "schema_ok s" and "x \<in> set (db_deliveries s)" and "y \<in> set (db_deliveries s)"
    and "delivery_key x = delivery_key y"
  shows "x = y"
  using assms schema_parts(3) [OF assms(1)] by (auto simp: distinct_map inj_on_def)

lemma complete_sound:
  assumes "sound_db s" shows "sound_db (fst (complete tenant i s))"
proof (cases "array_find (\<lambda>d. dr_tenant d = tenant \<and> dr_id d = i) (db_deliveries s)")
  case None
  with assms show ?thesis by (simp add: complete_def del: array_find_None_iff)
next
  case (Some d)
  then have d: "d \<in> set (db_deliveries s)" "delivery_key d = (tenant, i)"
    by (auto simp: delivery_key_def dest!: array_find_SomeD)
  have only: "x = d" if "x \<in> set (db_deliveries s)" "delivery_key x = (tenant, i)" for x
    using assms d that by (auto simp: sound_db_def intro: same_delivery)
  show ?thesis
  proof (cases "dr_status d = Accepted")
    case True
    with Some assms show ?thesis by (simp add: complete_def)
  next
    case False
    have "sound_db (fst (commit s (s\<lparr>db_outbox := update_where (\<lambda>b. ob_tenant b = tenant \<and> ob_id b = i)
        (\<lambda>b. b\<lparr>ob_state := O_done, ob_owner := [], ob_lease := 0\<rparr>) (db_outbox s)\<rparr>) ()))"
      by (rule outbox_sound [OF assms]) (use False only in \<open>force simp: outbox_key_def\<close>)+
    with Some False show ?thesis by (simp add: complete_def)
  qed
qed

lemma fail_job_sound:
  assumes "sound_db s" shows "sound_db (fst (fail_job u t j next s))"
proof -
  let ?dead = "5 \<le> job_attempts j"
  let ?w = "\<lambda>d. dr_tenant d = job_tenant j \<and> dr_id d = job_id j \<and> dr_status d = Accepted"
  let ?f = "\<lambda>d. d\<lparr>dr_status := Failed, dr_reason := ''dispatch_retries_exhausted''\<rparr>"
  let ?g = "\<lambda>b. b\<lparr>ob_state := (if ?dead then O_dead else O_pending), ob_owner := [], ob_lease := 0, ob_next := next\<rparr>"
  let ?s1 = "s\<lparr>db_outbox := update_where (owned j) ?g (db_outbox s)\<rparr>"
  let ?s2 = "if ?dead then ?s1\<lparr>db_deliveries := update_where ?w ?f (db_deliveries s)\<rparr> else ?s1"
  have inv: "schema_ok s" "balanced s" "settled_once s" "queued s" using assms by (auto simp: sound_db_def)
  have bal: "balanced ?s2" using inv(2) by (simp add: balanced_def in_state_def)
  have once: "settled_once ?s2"
  proof (cases ?dead)
    case True
    then show ?thesis by (intro settled_update [OF inv(3), where w = ?w and f = ?f]) auto
  qed (use inv(3) in \<open>simp add: settled_once_def\<close>)
  have "queued ?s2"
    unfolding queued_def
  proof
    fix d' assume "d' \<in> set (db_deliveries ?s2)"
    then obtain d where d: "d \<in> set (db_deliveries s)" "d' = (if ?dead \<and> ?w d then ?f d else d)"
      by (auto simp: set_update_where split: if_splits)
    with inv(4) obtain b where b: "b \<in> set (db_outbox s)" "outbox_key b = delivery_key d"
      "dr_status d = Accepted \<longrightarrow> ob_state b \<in> {O_pending, O_leased, O_dispatched}" by (auto simp: queued_def)
    have "(if owned j b then ?g b else b) \<in> set (db_outbox ?s2)"
      using b(1) by (auto simp: set_update_where)
    moreover have "outbox_key (if owned j b then ?g b else b) = delivery_key d'"
      using b(2) d(2) by (simp add: outbox_key_def delivery_key_def)
    moreover have "dr_status d' = Accepted \<longrightarrow>
        ob_state (if owned j b then ?g b else b) \<in> {O_pending, O_leased, O_dispatched}"
      using b d(2) by (auto simp: owned_def outbox_key_def delivery_key_def)
    ultimately show "\<exists>b \<in> set (db_outbox ?s2). outbox_key b = delivery_key d' \<and>
        (dr_status d' = Accepted \<longrightarrow> ob_state b \<in> {O_pending, O_leased, O_dispatched})" by blast
  qed
  with bal once have "sound_db (fst (commit s (add_audit i now tn k rs dt ?s2) a))" for i now tn k rs dt and a :: unit
    by (intro commit_sound [OF assms]) simp_all
  then show ?thesis using assms by (auto simp: fail_job_def Let_def)
qed

lemma replay_sound:
  assumes "sound_db s" shows "sound_db (fst (replay u t tenant i s))"
proof -
  let ?w = "\<lambda>d. dr_tenant d = tenant \<and> dr_id d = i \<and> dr_status d \<in> {Failed, Quarantined}"
  let ?f = "\<lambda>d. d\<lparr>dr_status := Accepted, dr_reason := []\<rparr>"
  let ?v = "\<lambda>b. ob_tenant b = tenant \<and> ob_id b = i"
  let ?g = "\<lambda>b. b\<lparr>ob_state := O_pending, ob_owner := [], ob_lease := 0, ob_next := 0, ob_attempts := 0\<rparr>"
  let ?s1 = "s\<lparr>db_deliveries := update_where ?w ?f (db_deliveries s), db_outbox := update_where ?v ?g (db_outbox s)\<rparr>"
  have inv: "balanced s" "settled_once s" "queued s" using assms by (auto simp: sound_db_def)
  have bal: "balanced ?s1" using inv(1) by (simp add: balanced_def in_state_def)
  have once: "settled_once ?s1" by (rule settled_update [OF inv(2), where w = ?w and f = ?f]) auto
  have "queued ?s1"
    unfolding queued_def
  proof
    fix d' assume "d' \<in> set (db_deliveries ?s1)"
    then obtain d where d: "d \<in> set (db_deliveries s)" "d' = (if ?w d then ?f d else d)"
      by (auto simp: set_update_where)
    with inv(3) obtain b where b: "b \<in> set (db_outbox s)" "outbox_key b = delivery_key d"
      "dr_status d = Accepted \<longrightarrow> ob_state b \<in> {O_pending, O_leased, O_dispatched}" by (auto simp: queued_def)
    have "(if ?v b then ?g b else b) \<in> set (db_outbox ?s1)"
      using b(1) by (auto simp: set_update_where)
    moreover have "outbox_key (if ?v b then ?g b else b) = delivery_key d'"
      using b(2) d(2) by (simp add: outbox_key_def delivery_key_def)
    moreover have "dr_status d' = Accepted \<longrightarrow> ob_state (if ?v b then ?g b else b) \<in> {O_pending, O_leased, O_dispatched}"
      using b d(2) by (auto simp: outbox_key_def delivery_key_def split: if_splits)
    ultimately show "\<exists>b \<in> set (db_outbox ?s1). outbox_key b = delivery_key d' \<and>
        (dr_status d' = Accepted \<longrightarrow> ob_state b \<in> {O_pending, O_leased, O_dispatched})" by blast
  qed
  with bal once have "sound_db (fst (commit s (add_audit j now tn k rs dt ?s1) a))" for j now tn k rs dt and a :: unit
    by (intro commit_sound [OF assms]) simp_all
  then show ?thesis using assms by (auto simp: replay_def Let_def)
qed

subsection \<open>Seeding and resetting\<close>

lemma fold_insert_new:
  "set rows \<subseteq> set (fold (insert_new k) xs rows)"
  "x \<in> set (fold (insert_new k) xs rows) \<Longrightarrow> x \<in> set rows \<or> x \<in> set xs \<and> k x \<notin> set (map k rows)"
proof (induction xs arbitrary: rows)
  case (Cons y ys)
  {
    case 1
    have "set rows \<subseteq> set (insert_new k y rows)" by (auto simp: insert_new_def)
    with Cons.IH(1) [of "insert_new k y rows"] show ?case by auto
  next
    case 2
    with Cons.IH(2) [of "insert_new k y rows"] show ?case by (auto simp: insert_new_def split: if_splits)
  }
qed auto

lemma seed_sound:
  assumes "sound_db s" shows "sound_db (fst (seed tenant s))"
  unfolding seed_def
proof (rule commit_sound [OF assms])
  let ?new = "map (\<lambda>(i, n, b). \<lparr>cmp_id = i, cmp_name = n, cmp_budget = b, cmp_reserved = 0, cmp_spent = 0,
      cmp_tenant = tenant\<rparr>) seed_campaigns"
  let ?s' = "s\<lparr>db_campaigns := fold (insert_new campaign_key) ?new (db_campaigns s),
      db_screens := fold (insert_new scr_id) seed_screens (db_screens s)\<rparr>"
  assume ok: "schema_ok s" and "balanced s"
  show "balanced ?s'"
    unfolding balanced_def
  proof
    fix c assume "c \<in> set (db_campaigns ?s')"
    then have "c \<in> set (fold (insert_new campaign_key) ?new (db_campaigns s))" by simp
    from fold_insert_new(2) [OF this]
    consider "c \<in> set (db_campaigns s)" | "c \<in> set ?new" "campaign_key c \<notin> set (map campaign_key (db_campaigns s))"
      by blast
    then show "cmp_reserved c = in_state (cmp_tenant c) (cmp_id c) Held ?s' \<and>
      cmp_spent c = in_state (cmp_tenant c) (cmp_id c) RSettled ?s'"
    proof cases
      case 1
      with \<open>balanced s\<close> show ?thesis by (simp add: balanced_def in_state_def)
    next
      case 2
      then have "in_state (cmp_tenant c) (cmp_id c) st s = 0" for st
        using in_state_none [OF ok, of "cmp_tenant c" "cmp_id c"] by (simp add: campaign_key_def)
      with 2(1) show ?thesis by (auto simp: in_state_def)
    qed
  qed
qed (simp_all add: settled_once_def queued_def)

lemma reset_sound: "sound_db s \<Longrightarrow> sound_db (fst (reset_demo u s))"
  unfolding reset_demo_def
  by (rule commit_sound) (auto simp: balanced_def in_state_def settled_once_def queued_def)

lemma step_sound_db:
  assumes "engine_step digest s s'" and "sound_db s" shows "sound_db s'"
  using assms(1)
  by cases (simp_all add: assms(2) seed_sound reserve_sound accept_sound process_sound release_sound
      claim_sound dispatched_sound complete_sound fail_job_sound replay_sound)

lemma reaches_sound_db:
  assumes "engine_reaches digest s" shows "sound_db s"
  using assms unfolding engine_reaches_def
proof (induction rule: rtranclp_induct)
  case base
  show ?case by (simp add: empty_database_def sound_db_def schema_ok_def balanced_def settled_once_def queued_def)
next
  case (step s s')
  then show ?case by (auto simp: demo_step_def intro: step_sound_db reset_sound)
qed

lemma soundD:
  assumes "sound_db s"
  shows "schema_ok s" "balanced s" "settled_once s" "queued s"
  using assms by (simp_all add: sound_db_def)

subsection \<open>What no transaction changes\<close>

text \<open>Rows of a later database that continue rows of an earlier one.\<close>

definition continues_reservation :: "reservation_row \<Rightarrow> reservation_row \<Rightarrow> bool" where
  "continues_reservation r r' \<longleftrightarrow> r' = r\<lparr>rsv_state := rsv_state r'\<rparr> \<and>
     (rsv_state r \<noteq> Held \<longrightarrow> rsv_state r' = rsv_state r)"

definition continues_delivery :: "delivery_row \<Rightarrow> delivery_row \<Rightarrow> bool" where
  "continues_delivery d d' \<longleftrightarrow>
     d' = d\<lparr>dr_status := dr_status d', dr_reason := dr_reason d', dr_attempts := dr_attempts d'\<rparr> \<and>
     (dr_status d \<in> {Settled, Duplicate} \<longrightarrow> dr_status d' = dr_status d \<and> dr_reason d' = dr_reason d)"

definition continues :: "database \<Rightarrow> database \<Rightarrow> bool" where
  "continues s s' \<longleftrightarrow>
     (\<forall>r \<in> set (db_reservations s). \<exists>r' \<in> set (db_reservations s'). continues_reservation r r') \<and>
     (\<forall>d \<in> set (db_deliveries s). \<exists>d' \<in> set (db_deliveries s'). continues_delivery d d') \<and>
     set (map campaign_key (db_campaigns s)) \<subseteq> set (map campaign_key (db_campaigns s'))"

lemma continues_refl [simp]: "continues s s"
proof -
  have "continues_reservation r r" for r by (simp add: continues_reservation_def)
  moreover have "continues_delivery d d" for d by (simp add: continues_delivery_def)
  ultimately show ?thesis by (auto simp: continues_def)
qed

lemma continues_trans:
  assumes "continues s s'" and "continues s' s''" shows "continues s s''"
proof -
  have "continues_reservation r r' \<Longrightarrow> continues_reservation r' r'' \<Longrightarrow> continues_reservation r r''" for r r' r''
    unfolding continues_reservation_def by (cases r; cases r'; cases r'') auto
  moreover have "continues_delivery d d' \<Longrightarrow> continues_delivery d' d'' \<Longrightarrow> continues_delivery d d''" for d d' d''
    unfolding continues_delivery_def by (cases d; cases d'; cases d'') auto
  ultimately show ?thesis using assms unfolding continues_def by (meson subset_trans)
qed

text \<open>A row changed by an update continues itself if the update is of the right kind.\<close>

lemma continues_update:
  assumes "\<And>r. r \<in> set rows \<Longrightarrow> w r \<Longrightarrow> C r (f r)" and "\<And>r. C r r" and "r \<in> set rows"
  shows "\<exists>r' \<in> set (update_where w f rows). C r r'"
proof
  show "(if w r then f r else r) \<in> set (update_where w f rows)" using assms(3) by (auto simp: set_update_where)
  show "C r (if w r then f r else r)" using assms by simp
qed

lemma continues_refl_rows [simp]: "continues_reservation r r" "continues_delivery d d"
  by (simp_all add: continues_reservation_def continues_delivery_def)

lemma continuesI:
  assumes "db_reservations s' = update_where w f (db_reservations s) @ xs"
    and "db_deliveries s' = update_where v g (db_deliveries s) @ ys"
    and "\<And>r. r \<in> set (db_reservations s) \<Longrightarrow> w r \<Longrightarrow> continues_reservation r (f r)"
    and "\<And>d. d \<in> set (db_deliveries s) \<Longrightarrow> v d \<Longrightarrow> continues_delivery d (g d)"
    and "set (map campaign_key (db_campaigns s)) \<subseteq> set (map campaign_key (db_campaigns s'))"
  shows "continues s s'"
proof -
  have "\<exists>r' \<in> set (db_reservations s'). continues_reservation r r'" if "r \<in> set (db_reservations s)" for r
    using continues_update [where C = continues_reservation and w = w and f = f, OF assms(3) _ that] unfolding assms(1) by auto
  moreover have "\<exists>d' \<in> set (db_deliveries s'). continues_delivery d d'" if "d \<in> set (db_deliveries s)" for d
    using continues_update [where C = continues_delivery and w = v and f = g, OF assms(4) _ that] unfolding assms(2) by auto
  ultimately show ?thesis using assms(5) by (simp add: continues_def)
qed

lemma update_nothing [simp]: "update_where (\<lambda>_. False) f rows = rows"
  by (simp add: update_where_def)

lemma campaign_keys_update [simp]:
  "(\<And>c. campaign_key (f c) = campaign_key c) \<Longrightarrow> campaign_key ` set (update_where w f cs) = campaign_key ` set cs"
  by (metis list.set_map update_where_map)

lemma campaign_key_balance [simp]:
  "campaign_key (c\<lparr>cmp_reserved := x\<rparr>) = campaign_key c" "campaign_key (c\<lparr>cmp_spent := x\<rparr>) = campaign_key c"
  by (simp_all add: campaign_key_def)

lemma continues_touched: "continues s (touched tenant i s)"
  by (rule continuesI [where w = "\<lambda>_. False" and f = "\<lambda>r. r" and xs = "[]" and v = "\<lambda>d. delivery_key d = (tenant, i)" and
        g = "\<lambda>d. d\<lparr>dr_attempts := Suc (dr_attempts d)\<rparr>" and ys = "[]"])
     (auto simp: touched_def continues_delivery_def)

lemma continues_decided:
  assumes "schema_ok s" and "d \<in> set (db_deliveries s)" "delivery_key d = (tenant, i)" "dr_status d = Accepted"
    and "decision now tenant (dr_payload d) s = (st, reason, moved)"
  shows "continues s (decided tenant i st reason moved s)"
proof -
  have upd: "continues_delivery x (x\<lparr>dr_status := st, dr_reason := reason\<rparr>)"
    if "x \<in> set (db_deliveries s)" "delivery_key x = (tenant, i)" for x
    using same_delivery [OF assms(1) that(1) assms(2)] that(2) assms(3,4)
    by (simp add: continues_delivery_def)
  have keys: "set (map campaign_key (db_campaigns s)) \<subseteq> set (map campaign_key (db_campaigns (decided tenant i st reason moved s)))"
    by (simp add: decided_def Let_def settle_money_def split: option.split)
  from assms(5) show ?thesis
  proof (cases rule: decision_cases)
    case no
    show ?thesis
      by (rule continuesI [where w = "\<lambda>_. False" and f = "\<lambda>r. r" and xs = "[]" and v = "\<lambda>d. delivery_key d = (tenant, i)" and
            g = "\<lambda>d. d\<lparr>dr_status := st, dr_reason := reason\<rparr>" and ys = "[]"])
         (use no keys upd in \<open>auto simp: decided_def\<close>)
  next
    case (pays r)
    have "continues_reservation x (x\<lparr>rsv_state := RSettled\<rparr>)"
      if "x \<in> set (db_reservations s)" "reservation_key x = reservation_key r" for x
      using same_reservation [OF assms(1) that(1) pays(3) that(2)] pays(5) by (simp add: continues_reservation_def)
    then show ?thesis
      by (intro continuesI [where w = "\<lambda>x. reservation_key x = reservation_key r" and f = "\<lambda>x. x\<lparr>rsv_state := RSettled\<rparr>" and
            xs = "[]" and v = "\<lambda>d. delivery_key d = (tenant, i)" and
            g = "\<lambda>d. d\<lparr>dr_status := st, dr_reason := reason\<rparr>" and ys = "[]" and s = s])
         (use pays keys upd in \<open>auto simp: decided_def settle_money_sel set_state_def Let_def\<close>)
  qed
qed

lemma continues_audit [simp]: "continues s (add_audit i now tn k rs d s') = continues s s'"
  by (simp add: continues_def)

lemma continues_commit: "continues s s' \<Longrightarrow> continues s (fst (commit s s' a))"
  by (simp add: fst_commit)

lemma continues_process: "schema_ok s \<Longrightarrow> continues s (fst (process u t tenant i s))"
proof (cases rule: process_cases [of u t tenant i s])
  case (now d st reason moved)
  assume "schema_ok s"
  then have "continues (touched tenant i s) (decided tenant i st reason moved (touched tenant i s))"
    using now by (intro continues_decided touched_keeps)
  then have "continues s (decided tenant i st reason moved (touched tenant i s))"
    by (rule continues_trans [OF continues_touched])
  then show ?thesis unfolding now(5) by (simp add: continues_commit)
qed (simp_all add: continues_commit continues_touched)

end
