(* ===== verification/Settlement.thy ===== *)
theory Settlement
  imports Books
begin

text \<open>
  The guarantees of the settlement engine, over every sequence of its transactions: money,
  exactly-once settlement, durable intent, immutable evidence, idempotent requests, and the report
  that checks the books.
\<close>

subsection \<open>Every step continues the database\<close>

lemma continues_reserve: "continues s (fst (reserve digest u t tenant k inp s))"
proof (cases rule: reserve_cases [of digest u t tenant k inp s])
  case (hold d x)
  have "continues s (add_hold (granted digest u t tenant k inp) s)"
    by (rule continuesI [where w = "\<lambda>_. False" and f = "\<lambda>r. r" and v = "\<lambda>_. False" and g = "\<lambda>d. d" and ys = "[]"])
       (auto simp: add_hold_def)
  then show ?thesis unfolding hold(1) by (simp add: continues_commit)
qed simp

lemma continues_new_delivery:
  "continues s (s\<lparr>db_deliveries := db_deliveries s @ [d], db_outbox := obs\<rparr>)"
  by (rule continuesI [where w = "\<lambda>_. False" and f = "\<lambda>r. r" and v = "\<lambda>_. False" and g = "\<lambda>d. d" and xs = "[]"]) auto

lemma continues_accept: "continues s (fst (accept digest u t tenant p s))"
  by (auto simp: accept_def Let_def continues_new_delivery split: option.split intro!: continues_commit)

lemma continues_release: "continues s (fst (release u t tenant i now s))"
proof -
  have "continues s (s\<lparr>db_reservations := update_where (\<lambda>x. rsv_tenant x = tenant \<and> rsv_id x = i \<and> rsv_state x = Held \<and>
        rsv_expires x < now - 900000) (\<lambda>x. x\<lparr>rsv_state := Released\<rparr>) (db_reservations s),
     db_campaigns := update_where (\<lambda>c. cmp_tenant c = tenant \<and> cmp_id c = cid)
        (\<lambda>c. c\<lparr>cmp_reserved := cmp_reserved c - x\<rparr>) (db_campaigns s)\<rparr>)" for cid x
    by (rule continuesI [where w = "\<lambda>x. rsv_tenant x = tenant \<and> rsv_id x = i \<and> rsv_state x = Held \<and> rsv_expires x < now - 900000"
          and f = "\<lambda>x. x\<lparr>rsv_state := Released\<rparr>" and xs = "[]" and v = "\<lambda>_. False" and g = "\<lambda>d. d" and ys = "[]"])
       (auto simp: continues_reservation_def)
  then show ?thesis by (auto simp: release_def split: option.split intro!: continues_commit)
qed

lemma continues_outbox [simp]: "continues s (s\<lparr>db_outbox := obs\<rparr>)"
  by (rule continuesI [where w = "\<lambda>_. False" and f = "\<lambda>r. r" and v = "\<lambda>_. False" and g = "\<lambda>d. d" and xs = "[]" and ys = "[]"]) auto

lemma continues_queue:
  "continues s (fst (claim u now s))" "continues s (fst (dispatched j s))" "continues s (fst (complete tenant i s))"
  by (auto simp: claim_def dispatched_def complete_def split: option.split intro!: continues_commit)

text \<open>Deliveries that are not settled or suppressed as duplicates may change their decision.\<close>

lemma continues_status:
  assumes "\<And>d. v d \<Longrightarrow> dr_status d \<notin> {Settled, Duplicate}"
  shows "continues s (s\<lparr>db_deliveries := update_where v (\<lambda>d. d\<lparr>dr_status := st, dr_reason := rs\<rparr>) (db_deliveries s), db_outbox := obs\<rparr>)"
  by (rule continuesI [where w = "\<lambda>_. False" and f = "\<lambda>r. r" and v = v and g = "\<lambda>d. d\<lparr>dr_status := st, dr_reason := rs\<rparr>" and xs = "[]" and ys = "[]"])
     (use assms in \<open>auto simp: continues_delivery_def\<close>)

lemma continues_fail_job: "continues s (fst (fail_job u t j now s))"
proof -
  have swap: "s\<lparr>db_outbox := obs, db_deliveries := ds\<rparr> = s\<lparr>db_deliveries := ds, db_outbox := obs\<rparr>" for obs ds by simp
  show ?thesis
    by (auto simp: fail_job_def Let_def swap intro!: continues_commit continues_status)
qed

lemma continues_replay: "continues s (fst (replay u t tenant i s))"
  by (auto simp: replay_def Let_def intro!: continues_commit continues_status)

lemma continues_seed: "continues s (fst (seed tenant s))"
  unfolding seed_def
  by (rule continues_commit, rule continuesI [where w = "\<lambda>_. False" and f = "\<lambda>r. r" and v = "\<lambda>_. False" and g = "\<lambda>d. d" and xs = "[]" and ys = "[]"])
     (simp_all add: image_mono fold_insert_new(1))

lemma step_continues:
  assumes "engine_step digest s s'" and "sound_db s" shows "continues s s'"
  using assms(1)
  by cases (simp_all add: continues_seed continues_reserve continues_accept continues_process [OF soundD(1) [OF assms(2)]]
      continues_release continues_queue continues_fail_job continues_replay)

lemma steps_continue:
  assumes "(engine_step digest)\<^sup>*\<^sup>* s s'" and "sound_db s" shows "continues s s' \<and> sound_db s'"
  using assms(1)
proof (induction rule: rtranclp_induct)
  case base
  show ?case using assms(2) by simp
next
  case (step s' s'')
  then show ?case using step_continues step_sound_db continues_trans by blast
qed

subsection \<open>A day in the life of a database\<close>

text \<open>Seeded inventory, one reserved play, two receipts for it, both reconciled.\<close>

definition day_ids :: "string \<Rightarrow> ids" where
  "day_ids p n = p @ replicate n (CHR ''x'')"

definition day_times :: times where "day_times n = 1000"

definition day_input :: reservation_input where
  "day_input = \<lparr>inp_campaign = ''cmp-cascade'', inp_screen = ''sea-01'', inp_cost = 10000\<rparr>"

definition day_receipt :: "string \<Rightarrow> receipt" where
  "day_receipt e = \<lparr>rcp_version = 1, rcp_event = e, rcp_reservation = ''r'', rcp_screen = ''sea-01'',
     rcp_played_at = 1001, rcp_duration = 10000\<rparr>"

definition day_digest :: "payload \<Rightarrow> string" where
  "day_digest b = (case as_receipt b of None \<Rightarrow> ''reservation'' | Some p \<Rightarrow> rcp_event p)"

definition day_hold :: "rstate \<Rightarrow> reservation_row" where
  "day_hold st = \<lparr>rsv_id = ''r'', rsv_campaign = ''cmp-cascade'', rsv_screen = ''sea-01'', rsv_cost = 10000,
     rsv_state = st, rsv_created = 1000, rsv_expires = 901000, rsv_tenant = ''t'', rsv_key = ''key'',
     rsv_print = ''reservation''\<rparr>"

definition day_delivery :: "string \<Rightarrow> string \<Rightarrow> dstatus \<Rightarrow> string \<Rightarrow> nat \<Rightarrow> delivery_row" where
  "day_delivery i e st reason n = \<lparr>dr_tenant = ''t'', dr_id = i, dr_event = e, dr_print = e,
     dr_payload = P_receipt (day_receipt e), dr_status = st, dr_reason = reason, dr_created = 1000, dr_attempts = n\<rparr>"

definition day_job :: "string \<Rightarrow> outbox_row" where
  "day_job i = \<lparr>ob_tenant = ''t'', ob_id = i, ob_state = O_pending, ob_owner = [], ob_lease = 0, ob_next = 0, ob_attempts = 0\<rparr>"

definition day_db :: "int \<Rightarrow> int \<Rightarrow> reservation_row list \<Rightarrow> delivery_row list \<Rightarrow> outbox_row list \<Rightarrow> audit_row list \<Rightarrow> database" where
  "day_db held spent rs ds obs aud = \<lparr>db_campaigns =
     map (\<lambda>(i, n, b). \<lparr>cmp_id = i, cmp_name = n, cmp_budget = b, cmp_reserved = (if i = ''cmp-cascade'' then held else 0),
       cmp_spent = (if i = ''cmp-cascade'' then spent else 0), cmp_tenant = ''t''\<rparr>) seed_campaigns,
     db_screens = seed_screens, db_reservations = rs, db_deliveries = ds, db_outbox = obs, db_audit = aud,
     db_generation = ''g''\<rparr>"

definition day_audit :: "string \<Rightarrow> string \<Rightarrow> string \<Rightarrow> string \<Rightarrow> audit_row" where
  "day_audit i k r d = \<lparr>aud_id = i, aud_kind = k, aud_resource = r, aud_detail = d, aud_created = 1000, aud_tenant = ''t''\<rparr>"

definition day_trail :: "audit_row list" where
  "day_trail = [day_audit ''rx'' ''reserved'' ''r'' (dec 10000 @ '' micros held; sea-01''),
     day_audit ''ax'' ''accepted'' ''a'' ''Receipt and dispatch intent committed together'',
     day_audit ''bx'' ''accepted'' ''b'' ''Receipt and dispatch intent committed together'',
     day_audit ''c'' ''settled'' ''a'' ''matched_screen_window_and_reservation'',
     day_audit ''d'' ''duplicate'' ''b'' ''reservation_already_settled'']"

definition day0 where "day0 = day_db 0 0 [] [] [] []"
definition day1 where "day1 = day_db 10000 0 [day_hold Held] [] [] (take 1 day_trail)"
definition day2 where "day2 = day_db 10000 0 [day_hold Held] [day_delivery ''a'' ''e1'' Accepted [] 0,
  day_delivery ''b'' ''e2'' Accepted [] 0] [day_job ''a'', day_job ''b''] (take 3 day_trail)"
definition day3 where "day3 = day_db 0 10000 [day_hold RSettled]
  [day_delivery ''a'' ''e1'' Settled ''matched_screen_window_and_reservation'' 1,
   day_delivery ''b'' ''e2'' Duplicate ''reservation_already_settled'' 1] [day_job ''a'', day_job ''b''] day_trail"

lemmas day_simps = day0_def day1_def day2_def day3_def day_db_def day_hold_def day_delivery_def day_job_def
  day_audit_def day_trail_def day_ids_def day_times_def day_input_def day_receipt_def day_digest_def

lemmas schema_simps = commit_def schema_ok_def seed_campaigns_def seed_screens_def
  campaign_key_def reservation_key_def delivery_key_def outbox_key_def campaign_checks_def

lemma day_ids_valid [simp]:
  "valid_id ''key''" "valid_id ''cmp-cascade''" "valid_id ''sea-01''" "valid_id ''e1''" "valid_id ''e2''" "valid_id ''r''"
  by (simp_all add: valid_id_def less_eq_char_def)

lemma day0_run: "seed ''t'' empty_database = (day0, Inr ())"
  by (simp add: seed_def insert_new_def empty_database_def day_simps schema_simps)

lemma day1_run: "reserve day_digest (day_ids ''r'') day_times ''t'' ''key'' day_input day0 =
    (day1, Inr (reservation.truncate (day_hold Held), False))"
  by (simp add: reserve_def affected_def add_audit_def reservation.defs hold_time_def Let_def
     day_simps schema_simps)

lemma day2_run:
  "fst (accept day_digest (day_ids ''b'') day_times ''t'' (day_receipt ''e2'')
     (fst (accept day_digest (day_ids ''a'') day_times ''t'' (day_receipt ''e1'') day1))) = day2"
  by (simp add: accept_def add_audit_def Let_def day_simps schema_simps)

lemma day3_run:
  "fst (process (day_ids ''d'') day_times ''t'' ''b'' (fst (process (day_ids ''c'') day_times ''t'' ''a'' day2))) = day3"
  by (simp add: process_def decision_def envelope_reason_def match_reason_def reservation_of_def settle_money_def add_audit_def
      Let_def day_simps schema_simps)

lemma day_reaches:
  "engine_reaches day_digest day0" "engine_reaches day_digest day1" "engine_reaches day_digest day2" "engine_reaches day_digest day3"
proof -
  have step: "engine_step day_digest s s' \<Longrightarrow> engine_reaches day_digest s \<Longrightarrow> engine_reaches day_digest s'" for s s'
    unfolding engine_reaches_def by (auto simp: demo_step_def intro: rtranclp.rtrancl_into_rtrancl)
  have "engine_reaches day_digest empty_database" by (simp add: engine_reaches_def)
  then show d0: "engine_reaches day_digest day0"
    using step [OF e_seed [of day_digest empty_database "''t''"]] day0_run by simp
  show d1: "engine_reaches day_digest day1"
    using step [OF e_reserve d0, of "day_ids ''r''" day_times "''t''" "''key''" day_input] day1_run by simp
  show d2: "engine_reaches day_digest day2" unfolding day2_run [symmetric] by (rule step [OF e_accept step [OF e_accept d1]])
  show "engine_reaches day_digest day3" unfolding day3_run [symmetric] by (rule step [OF e_process step [OF e_process d2]])
qed

subsection \<open>Money\<close>

text \<open>
  C4. The books always balance: after any sequence of transactions, of any tenants, in any order,
  a campaign's reserved amount is the sum of its held reservations, its spent amount the sum of its
  settled ones, and together they never exceed the budget.
\<close>

theorem books_balance:
  assumes "engine_reaches digest s" and "c \<in> set (db_campaigns s)"
  shows "cmp_reserved c = in_state (cmp_tenant c) (cmp_id c) Held s \<and>
    cmp_spent c = in_state (cmp_tenant c) (cmp_id c) RSettled s \<and>
    0 \<le> cmp_reserved c \<and> 0 \<le> cmp_spent c \<and> cmp_reserved c + cmp_spent c \<le> cmp_budget c"
  using soundD [OF reaches_sound_db [OF assms(1)]] assms(2)
  by (auto simp: balanced_def campaign_checks_def dest: schema_parts(9))

theorem books_balance_witness:
  "in_state ''t'' ''cmp-cascade'' RSettled day3 = 10000 \<and> in_state ''t'' ''cmp-cascade'' Held day3 = 0"
proof -
  let ?c = "hd (db_campaigns day3)"
  have "?c \<in> set (db_campaigns day3)" "cmp_tenant ?c = ''t''" "cmp_id ?c = ''cmp-cascade''" "cmp_spent ?c = 10000" "cmp_reserved ?c = 0"
    by (simp_all add: day3_def day_db_def seed_campaigns_def)
  with books_balance [OF day_reaches(4), of ?c] show ?thesis by simp
qed

text \<open>
  C5. A play is paid for exactly once: a settled reservation has exactly one receipt with the
  decision ``settled'', any other reservation has none, however many receipts name it, however
  often they are delivered, and whatever is replayed.
\<close>

theorem settled_exactly_once:
  assumes "engine_reaches digest s" and "r \<in> set (db_reservations s)"
  shows "count_where (settles r) (db_deliveries s) = (if rsv_state r = RSettled then 1 else 0)"
  using soundD(3) [OF reaches_sound_db [OF assms(1)]] assms(2) by (simp add: settled_once_def)

theorem settled_exactly_once_witness:
  "count_where (settles (day_hold RSettled)) (db_deliveries day3) = 1"
  using settled_exactly_once [OF day_reaches(4), of "day_hold RSettled"]
  by (simp add: day3_def day_db_def) (simp add: day_hold_def)

subsection \<open>Durable intent, immutable evidence\<close>

text \<open>
  C21. Accepted work is never lost: a receipt that waits for a decision has a row in the outbox that
  is pending, leased or dispatched; it is never marked as done or dead.
\<close>

theorem accepted_work_is_queued:
  assumes "engine_reaches digest s" and "d \<in> set (db_deliveries s)" and "dr_status d = Accepted"
  shows "\<exists>b \<in> set (db_outbox s). outbox_key b = delivery_key d \<and> ob_state b \<in> {O_pending, O_leased, O_dispatched}"
  using soundD(4) [OF reaches_sound_db [OF assms(1)]] assms(2,3) by (auto simp: queued_def)

theorem accepted_work_is_queued_witness:
  "\<exists>b \<in> set (db_outbox day2). outbox_key b = (''t'', ''a'') \<and> ob_state b \<in> {O_pending, O_leased, O_dispatched}"
  using accepted_work_is_queued [OF day_reaches(3), of "day_delivery ''a'' ''e1'' Accepted [] 0"]
  by (simp add: day2_def day_db_def) (simp add: day_delivery_def delivery_key_def)

text \<open>
  C22. Evidence is immutable and paid decisions are final: through any sequence of transactions
  short of a reset, a receipt keeps its identifiers, its payload, the fingerprint of its content and
  its time of receipt, and one that was settled or suppressed as a duplicate keeps that decision and
  its reason; a reservation keeps everything but its state, and a settled or released one that too.
\<close>

theorem evidence_is_immutable:
  assumes "engine_reaches digest s" and "(engine_step digest)\<^sup>*\<^sup>* s s'"
  shows "(\<forall>d \<in> set (db_deliveries s). \<exists>d' \<in> set (db_deliveries s').
      delivery_key d' = delivery_key d \<and> dr_event d' = dr_event d \<and> dr_payload d' = dr_payload d \<and>
      dr_print d' = dr_print d \<and> dr_created d' = dr_created d \<and>
      (dr_status d \<in> {Settled, Duplicate} \<longrightarrow> dr_status d' = dr_status d \<and> dr_reason d' = dr_reason d)) \<and>
    (\<forall>r \<in> set (db_reservations s). \<exists>r' \<in> set (db_reservations s').
      r' = r\<lparr>rsv_state := rsv_state r'\<rparr> \<and> (rsv_state r \<noteq> Held \<longrightarrow> r' = r))"
proof -
  have c: "continues s s'" using steps_continue [OF assms(2) reaches_sound_db [OF assms(1)]] by blast
  have d: "delivery_key d' = delivery_key d \<and> dr_event d' = dr_event d \<and> dr_payload d' = dr_payload d \<and>
      dr_print d' = dr_print d \<and> dr_created d' = dr_created d \<and>
      (dr_status d \<in> {Settled, Duplicate} \<longrightarrow> dr_status d' = dr_status d \<and> dr_reason d' = dr_reason d)"
    if "continues_delivery d d'" for d d'
    using that unfolding continues_delivery_def delivery_key_def by (cases d; cases d') auto
  have r: "r' = r\<lparr>rsv_state := rsv_state r'\<rparr> \<and> (rsv_state r \<noteq> Held \<longrightarrow> r' = r)"
    if "continues_reservation r r'" for r r' :: reservation_row
    using that unfolding continues_reservation_def by (cases r; cases r') auto
  show ?thesis
  proof (intro conjI ballI)
    fix x assume "x \<in> set (db_deliveries s)"
    with c obtain x' where x': "x' \<in> set (db_deliveries s')" "continues_delivery x x'" by (auto simp: continues_def)
    from d [OF x'(2)] x'(1) show "\<exists>d' \<in> set (db_deliveries s'). delivery_key d' = delivery_key x \<and> dr_event d' = dr_event x \<and>
      dr_payload d' = dr_payload x \<and> dr_print d' = dr_print x \<and> dr_created d' = dr_created x \<and>
      (dr_status x \<in> {Settled, Duplicate} \<longrightarrow> dr_status d' = dr_status x \<and> dr_reason d' = dr_reason x)" by (rule bexI)
  next
    fix x assume "x \<in> set (db_reservations s)"
    with c obtain x' where x': "x' \<in> set (db_reservations s')" "continues_reservation x x'" by (auto simp: continues_def)
    from r [OF x'(2)] x'(1) show "\<exists>r' \<in> set (db_reservations s'). r' = x\<lparr>rsv_state := rsv_state r'\<rparr> \<and>
      (rsv_state x \<noteq> Held \<longrightarrow> r' = x)" by (rule bexI)
  qed
qed

theorem evidence_is_immutable_witness:
  "\<exists>d' \<in> set (db_deliveries (fst (replay (day_ids ''z'') day_times ''t'' ''a'' day3))).
     delivery_key d' = (''t'', ''a'') \<and> dr_status d' = Settled"
proof -
  let ?d = "day_delivery ''a'' ''e1'' Settled ''matched_screen_window_and_reservation'' 1"
  have "(engine_step day_digest)\<^sup>*\<^sup>* day3 (fst (replay (day_ids ''z'') day_times ''t'' ''a'' day3))"
    by (intro r_into_rtranclp e_replay)
  from evidence_is_immutable [OF day_reaches(4) this]
  have "\<forall>d \<in> set (db_deliveries day3). \<exists>d' \<in> set (db_deliveries (fst (replay (day_ids ''z'') day_times ''t'' ''a'' day3))).
      delivery_key d' = delivery_key d \<and> (dr_status d \<in> {Settled, Duplicate} \<longrightarrow> dr_status d' = dr_status d)" by blast
  moreover have "?d \<in> set (db_deliveries day3)" by (simp add: day3_def day_db_def)
  moreover have "delivery_key ?d = (''t'', ''a'')" "dr_status ?d = Settled" by (simp_all add: day_delivery_def delivery_key_def)
  ultimately show ?thesis by force
qed

subsection \<open>Repeated requests\<close>

definition reservation_valid :: "string \<Rightarrow> reservation_input \<Rightarrow> bool" where
  "reservation_valid k inp \<longleftrightarrow> valid_id k \<and> valid_id (inp_campaign inp) \<and> valid_id (inp_screen inp) \<and>
     0 < inp_cost inp \<and> inp_cost inp \<le> 1000000000"

lemma reserve_leaves:
  assumes "reserve digest u t tenant k inp s = (s', Inr (r, b))"
  shows "reservation_valid k inp \<and> (tenant, inp_campaign inp) \<in> set (map campaign_key (db_campaigns s')) \<and>
    (\<exists>x \<in> set (db_reservations s'). rsv_tenant x = tenant \<and> rsv_key x = k \<and>
       rsv_print x = digest (P_reservation_input inp) \<and> reservation.truncate x = r)"
proof -
  have v: "reservation_valid k inp" using assms by (auto simp: reserve_def reservation_valid_def split: if_splits)
  have own: "(tenant, inp_campaign inp) \<in> set (map campaign_key (db_campaigns s))"
    using assms v by (auto simp: reserve_def reservation_valid_def Let_def affected_iff campaign_key_def split: if_splits)
  show ?thesis
  proof (cases "array_find (\<lambda>r. rsv_tenant r = tenant \<and> rsv_key r = k) (db_reservations s)")
    case (Some x)
    with assms have "s' = s" "rsv_print x = digest (P_reservation_input inp)" "reservation.truncate x = r"
      by (auto simp: reserve_def Let_def split: if_splits)
    with array_find_SomeD [OF Some] v own show ?thesis by auto
  next
    case None
    let ?g = "granted digest u t tenant k inp"
    from assms None have "s' = add_audit (u 1) (t 2) tenant ''reserved'' (u 0)
        (dec (nat (inp_cost inp)) @ '' micros held; '' @ inp_screen inp) (add_hold ?g s)" "reservation.truncate ?g = r"
      by (auto simp: reserve_def Let_def commit_def add_hold_def granted_def reservation.defs
          split: if_splits simp del: array_find_None_iff)
    with v own show ?thesis by (auto simp: add_hold_def granted_def)
  qed
qed

lemma find_by_key:
  assumes "schema_ok s" and "x \<in> set (db_reservations s)"
  shows "array_find (\<lambda>r. rsv_tenant r = rsv_tenant x \<and> rsv_key r = rsv_key x) (db_reservations s) = Some x"
proof -
  have "array_find (\<lambda>r. rsv_tenant r = rsv_tenant x \<and> rsv_key r = rsv_key x) (db_reservations s) \<noteq> None"
    using assms(2) by auto
  then obtain y where y: "array_find (\<lambda>r. rsv_tenant r = rsv_tenant x \<and> rsv_key r = rsv_key x) (db_reservations s) = Some y"
    by (metis option.exhaust)
  have "inj_on (\<lambda>r. (rsv_tenant r, rsv_key r)) (set (db_reservations s))"
    using assms(1) by (simp add: schema_ok_def distinct_map)
  with y array_find_SomeD [OF y] assms(2) show ?thesis by (auto simp: inj_on_def)
qed

text \<open>
  C23. A reservation request may be repeated: once a request under a key was granted, the same
  request repeated at any later time, after any other transactions, changes nothing and returns
  the same reservation in its current state, marked as replayed; a request with another content
  under that key is refused and changes nothing.
\<close>

theorem reserve_is_idempotent:
  assumes "engine_reaches digest s" and "reserve digest u t tenant k inp s = (s1, Inr (r, b))"
    and "(engine_step digest)\<^sup>*\<^sup>* s1 s2"
  shows "(\<exists>r'. reserve digest u' t' tenant k inp s2 = (s2, Inr (r', True)) \<and> r' = r\<lparr>rsv_state := rsv_state r'\<rparr>) \<and>
    (digest (P_reservation_input other) \<noteq> digest (P_reservation_input inp) \<longrightarrow>
       (\<exists>e. reserve digest u' t' tenant k other s2 = (s2, Inl e)))"
proof -
  have "sound_db s1" using reserve_sound [OF reaches_sound_db [OF assms(1)], of digest u t tenant k inp] assms(2) by simp
  with steps_continue [OF assms(3)] have c: "continues s1 s2" and ok: "schema_ok s2" by (auto dest: soundD)
  from reserve_leaves [OF assms(2)] obtain x where v: "reservation_valid k inp"
    and own: "(tenant, inp_campaign inp) \<in> set (map campaign_key (db_campaigns s1))"
    and x: "x \<in> set (db_reservations s1)" "rsv_tenant x = tenant" "rsv_key x = k"
      "rsv_print x = digest (P_reservation_input inp)" "reservation.truncate x = r" by auto
  from c x(1) obtain y where y: "y \<in> set (db_reservations s2)" "continues_reservation x y"
    by (auto simp: continues_def)
  then obtain st where y': "y = x\<lparr>rsv_state := st\<rparr>" unfolding continues_reservation_def by blast
  have eq: "rsv_tenant y = tenant" "rsv_key y = k" "rsv_print y = digest (P_reservation_input inp)"
    "reservation.truncate y = r\<lparr>rsv_state := rsv_state y\<rparr>"
    using x unfolding y' by (auto simp: reservation.defs)
  have found: "array_find (\<lambda>r. rsv_tenant r = tenant \<and> rsv_key r = k) (db_reservations s2) = Some y"
    using find_by_key [OF ok y(1)] eq by simp
  have "(tenant, inp_campaign inp) \<in> set (map campaign_key (db_campaigns s2))"
    using own c by (auto simp: continues_def)
  then have "affected (\<lambda>c. cmp_tenant c = tenant \<and> cmp_id c = inp_campaign inp) (db_campaigns s2) \<noteq> 0"
    by (auto simp: affected_iff campaign_key_def)
  with v found eq have "reserve digest u' t' tenant k inp s2 = (s2, Inr (reservation.truncate y, True))"
    by (simp add: reserve_def reservation_valid_def Let_def)
  moreover have "reservation.truncate y = r\<lparr>rsv_state := rsv_state (reservation.truncate y)\<rparr>"
    using eq(4) by simp
  moreover have "\<exists>e. reserve digest u' t' tenant k other s2 = (s2, Inl e)"
    if "digest (P_reservation_input other) \<noteq> digest (P_reservation_input inp)"
    using that found eq(3) by (auto simp: reserve_def Let_def)
  ultimately show ?thesis by blast
qed

theorem reserve_is_idempotent_witness:
  "\<exists>r'. reserve day_digest (day_ids ''n'') day_times ''t'' ''key'' day_input day1 = (day1, Inr (r', True))"
proof -
  from reserve_is_idempotent [OF day_reaches(1) day1_run rtranclp.rtrancl_refl] show ?thesis by blast
qed

lemma accept_leaves:
  assumes "accept digest u t tenant p s = (s', Inr (i, b))"
  shows "valid_id (rcp_event p) \<and> valid_id (rcp_reservation p) \<and> valid_id (rcp_screen p) \<and>
    (\<exists>d \<in> set (db_deliveries s'). dr_tenant d = tenant \<and> dr_event d = rcp_event p \<and>
       dr_print d = digest (P_receipt p) \<and> dr_id d = i)"
proof (cases "array_find (\<lambda>d. dr_tenant d = tenant \<and> dr_event d = rcp_event p) (db_deliveries s)")
  case (Some d)
  with assms array_find_SomeD [OF Some] show ?thesis by (auto simp: accept_def split: if_splits)
next
  case None
  with assms show ?thesis
    by (auto simp: accept_def Let_def commit_def split: if_splits simp del: array_find_None_iff)
qed

lemma find_by_event:
  assumes "schema_ok s" and "x \<in> set (db_deliveries s)"
  shows "array_find (\<lambda>d. dr_tenant d = dr_tenant x \<and> dr_event d = dr_event x) (db_deliveries s) = Some x"
proof -
  have "array_find (\<lambda>d. dr_tenant d = dr_tenant x \<and> dr_event d = dr_event x) (db_deliveries s) \<noteq> None"
    using assms(2) by auto
  then obtain y where y: "array_find (\<lambda>d. dr_tenant d = dr_tenant x \<and> dr_event d = dr_event x) (db_deliveries s) = Some y"
    by (metis option.exhaust)
  have "inj_on (\<lambda>d. (dr_tenant d, dr_event d)) (set (db_deliveries s))"
    using assms(1) by (simp add: schema_ok_def distinct_map)
  with y array_find_SomeD [OF y] assms(2) show ?thesis by (auto simp: inj_on_def)
qed

lemma accepted_found:
  assumes "sound_db s" and "accept digest u t tenant p s = (s1, Inr (i, b))" and "(engine_step digest)\<^sup>*\<^sup>* s1 s2"
  shows "\<exists>y. array_find (\<lambda>d. dr_tenant d = tenant \<and> dr_event d = rcp_event p) (db_deliveries s2) = Some y \<and>
    dr_print y = digest (P_receipt p) \<and> dr_id y = i"
proof -
  have "sound_db s1" using accept_sound [OF assms(1), of digest u t tenant p] assms(2) by simp
  with steps_continue [OF assms(3)] have c: "continues s1 s2" and ok: "schema_ok s2" by (auto dest: soundD)
  from accept_leaves [OF assms(2)] obtain x where x: "x \<in> set (db_deliveries s1)" "dr_tenant x = tenant"
      "dr_event x = rcp_event p" "dr_print x = digest (P_receipt p)" "dr_id x = i" by auto
  from c x(1) obtain y where y: "y \<in> set (db_deliveries s2)" "continues_delivery x y" by (auto simp: continues_def)
  then obtain a b c where "y = x\<lparr>dr_status := a, dr_reason := b, dr_attempts := c\<rparr>"
    unfolding continues_delivery_def by blast
  with x have "dr_tenant y = tenant" "dr_event y = rcp_event p" "dr_print y = digest (P_receipt p)" "dr_id y = i"
    by simp_all
  with find_by_event [OF ok y(1)] show ?thesis by simp
qed

text \<open>
  C24. A receipt may be sent again: once an event was accepted, the same receipt at any later time
  changes nothing and returns the identifier of the first acceptance, marked as replayed; another
  content under the same event identifier is a conflict and changes nothing.
\<close>

theorem accept_is_idempotent:
  assumes "engine_reaches digest s" and "accept digest u t tenant p s = (s1, Inr (i, b))"
    and "(engine_step digest)\<^sup>*\<^sup>* s1 s2"
  shows "accept digest u' t' tenant p s2 = (s2, Inr (i, True)) \<and>
    (rcp_event other = rcp_event p \<and> valid_id (rcp_reservation other) \<and> valid_id (rcp_screen other) \<and>
       digest (P_receipt other) \<noteq> digest (P_receipt p) \<longrightarrow>
       accept digest u' t' tenant other s2 = (s2, Inl ErrConflict))"
  using accept_leaves [OF assms(2)] accepted_found [OF reaches_sound_db [OF assms(1)] assms(2,3)]
  by (auto simp: accept_def)

theorem accept_is_idempotent_witness:
  "accept day_digest (day_ids ''n'') day_times ''t'' (day_receipt ''e1'') day3 = (day3, Inr (''a'', True))"
proof -
  let ?s = "fst (accept day_digest (day_ids ''a'') day_times ''t'' (day_receipt ''e1'') day1)"
  have "accept day_digest (day_ids ''a'') day_times ''t'' (day_receipt ''e1'') day1 = (?s, Inr (''a'', False))"
    by (simp add: accept_def add_audit_def Let_def day_simps schema_simps)
  moreover have "(engine_step day_digest)\<^sup>*\<^sup>* ?s day3"
    unfolding day3_run [symmetric] day2_run [symmetric]
    by (rule rtranclp.rtrancl_into_rtrancl, rule rtranclp.rtrancl_into_rtrancl, rule r_into_rtranclp)
       (rule e_accept e_process)+
  ultimately show ?thesis using accept_is_idempotent [OF day_reaches(2)] by blast
qed

end
