(* ===== verification/Accounts.thy ===== *)
theory Accounts
  imports Settlement
begin

text \<open>
  Two views of the engine's books from outside: the assurance report, which recomputes the money of
  a campaign from its reservations, and an abstract specification of accounts, which the
  transactions refine. The engine decides from two counters per campaign; the specification
  decides from the holds themselves.
\<close>

subsection \<open>The assurance report reconciles\<close>

lemma sum_list_sort_key: "sum_list (map f (sort_key k xs)) = (sum_list (map f xs) :: int)"
  by (metis mset_map mset_sort sum_mset_sum_list)

lemma sum_list_zero: "(\<And>x. x \<in> set xs \<Longrightarrow> f x = 0) \<Longrightarrow> sum_list (map f xs) = (0 :: int)"
  by (induction xs) auto

lemma sum_list_one:
  assumes "distinct (map k xs)" and "y \<in> set xs"
  shows "sum_list (map (\<lambda>x. if k x = k y then a else 0) xs) = (a :: int)"
  using assms
proof (induction xs)
  case (Cons x xs)
  show ?case
  proof (cases "x = y")
    case True
    with Cons.prems(1) have "\<And>z. z \<in> set xs \<Longrightarrow> k z \<noteq> k y" by (auto simp: image_iff)
    then have "sum_list (map (\<lambda>x. if k x = k y then a else 0) xs) = 0" by (intro sum_list_zero) simp
    with True show ?thesis by simp
  next
    case False
    with Cons.prems have "y \<in> set xs" and "k x \<noteq> k y" by (auto simp: image_iff)
    with Cons show ?thesis by simp
  qed
qed simp

text \<open>Grouping by screen and adding up the groups gives the sum of the campaign.\<close>

lemma sum_by_screen:
  assumes "distinct (map scr_id vs)" and "\<And>r. r \<in> set rows \<Longrightarrow> rsv_screen r \<in> set (map scr_id vs)"
  shows "sum_list (map (\<lambda>v. sum_where p g (filter (on_screen tenant c (scr_id v)) rows)) vs) =
    sum_where (\<lambda>r. rsv_tenant r = tenant \<and> rsv_campaign r = c \<and> p r) g rows"
  using assms(2)
proof (induction rows)
  case Nil
  show ?case by (simp add: sum_list_0)
next
  case (Cons r rows)
  let ?x = "if rsv_tenant r = tenant \<and> rsv_campaign r = c \<and> p r then g r else 0"
  have "r \<in> set (r # rows)" by simp
  from Cons.prems [OF this] obtain v where v: "v \<in> set vs" "scr_id v = rsv_screen r" by auto
  have one: "sum_where p g (filter (on_screen tenant c (scr_id w)) (r # rows)) =
      (if scr_id w = scr_id v then ?x else 0) + sum_where p g (filter (on_screen tenant c (scr_id w)) rows)" for w
    using v(2) by (auto simp: on_screen_def)
  have "sum_list (map (\<lambda>w. sum_where p g (filter (on_screen tenant c (scr_id w)) (r # rows))) vs) =
      sum_list (map (\<lambda>w. if scr_id w = scr_id v then ?x else 0) vs) +
      sum_list (map (\<lambda>w. sum_where p g (filter (on_screen tenant c (scr_id w)) rows)) vs)"
    unfolding one by (rule sum_list_addf)
  also have "sum_list (map (\<lambda>w. if scr_id w = scr_id v then ?x else 0) vs) = ?x"
    by (rule sum_list_one [OF assms(1) v(1)])
  finally show ?case using Cons by simp
qed

lemma reported_sum:
  assumes "schema_ok s"
  shows "sum_list (map (\<lambda>v. sum_where (\<lambda>r. rsv_state r = st) rsv_cost
      (filter (on_screen tenant c (scr_id v)) (db_reservations s)))
    (sort_key scr_market (sort_key scr_id
      (filter (\<lambda>v. list_ex (on_screen tenant c (scr_id v)) (db_reservations s)) (db_screens s))))) = in_state tenant c st s"
proof -
  let ?f = "\<lambda>v. sum_where (\<lambda>r. rsv_state r = st) rsv_cost (filter (on_screen tenant c (scr_id v)) (db_reservations s))"
  have "?f v = 0" if "\<not> list_ex (on_screen tenant c (scr_id v)) (db_reservations s)" for v
  proof -
    have "filter (on_screen tenant c (scr_id v)) (db_reservations s) = []"
      using that by (auto simp: list_ex_iff filter_empty_conv)
    then show ?thesis by simp
  qed
  then have "sum_list (map ?f (filter (\<lambda>v. list_ex (on_screen tenant c (scr_id v)) (db_reservations s)) (db_screens s))) =
      sum_list (map ?f (db_screens s))" by (intro sum_list_map_filter) auto
  also have "\<dots> = in_state tenant c st s"
    unfolding in_state_def of_campaign_def
    by (rule sum_by_screen) (use schema_parts(5,7) [OF assms] in auto)
  finally show ?thesis by (simp add: sum_list_sort_key)
qed

text \<open>
  C31. The assurance report of a campaign is always reconciled: whenever it is read, the held and
  settled money it adds up from the reservations, screen by screen, equals the campaign's balances,
  so that ``budget mismatch'' is never reported for a database the engine has written.
\<close>

theorem assurance_reconciles:
  assumes "engine_reaches digest s" and "assurance_of now tenant c s = Inr a"
  shows "asr_budget_consistent a \<and>
    sum_list (map sas_held_micros (asr_screens a)) = cmp_reserved (asr_campaign a) \<and>
    sum_list (map sas_settled_micros (asr_screens a)) = cmp_spent (asr_campaign a)"
proof -
  note inv = soundD [OF reaches_sound_db [OF assms(1)]]
  from assms(2) obtain x where found: "array_find (\<lambda>x. cmp_tenant x = tenant \<and> cmp_id x = c) (db_campaigns s) = Some x"
    by (auto simp: assurance_of_def split: if_splits option.splits)
  then have x: "x \<in> set (db_campaigns s)" "cmp_tenant x = tenant" "cmp_id x = c" by (auto dest: array_find_SomeD)
  have "cmp_reserved x = in_state tenant c Held s" "cmp_spent x = in_state tenant c RSettled s" "campaign_checks x"
    using inv(2) x schema_parts(9) [OF inv(1)] by (auto simp: balanced_def)
  with assms(2) found show ?thesis
    by (auto simp: assurance_of_def Let_def screen_row_def o_def reported_sum [OF inv(1)] campaign_checks_def
        campaign.defs split: if_splits)
qed

theorem assurance_reconciles_witness:
  "\<exists>a. assurance_of 5000 ''t'' ''cmp-cascade'' day3 = Inr a \<and> asr_budget_consistent a"
proof -
  have "\<exists>a. assurance_of 5000 ''t'' ''cmp-cascade'' day3 = Inr a"
    unfolding assurance_of_def Let_def by (simp add: day3_def day_db_def seed_campaigns_def split: option.split)
  then show ?thesis using assurance_reconciles [OF day_reaches(4)] by blast
qed

subsection \<open>An abstract specification of accounts\<close>

text \<open>Budgets by tenant and campaign; holds by tenant and reservation: campaign, amount, state.\<close>

record accounts =
  acc_budget :: "string \<times> string \<rightharpoonup> int"
  acc_holds :: "string \<times> string \<rightharpoonup> string \<times> int \<times> rstate"

definition claim_on :: "string \<Rightarrow> string \<Rightarrow> string \<times> string \<Rightarrow> string \<times> int \<times> rstate \<Rightarrow> int" where
  "claim_on tenant c k h = (case h of (c', x, st) \<Rightarrow>
     if fst k = tenant \<and> c' = c \<and> st \<noteq> Released then x else 0)"

definition committed :: "string \<Rightarrow> string \<Rightarrow> accounts \<Rightarrow> int" where
  "committed tenant c a = (\<Sum>k \<in> dom (acc_holds a). claim_on tenant c k (the (acc_holds a k)))"

text \<open>What happens to the accounts, as a label: which campaigns, which hold.\<close>

datatype account_op =
    Opening string
  | Granting "string \<times> string" string int
  | Settling "string \<times> string"
  | Releasing "string \<times> string"
  | Clearing
  | Nothing

definition seed_budgets :: "string \<Rightarrow> string \<times> string \<rightharpoonup> int" where
  "seed_budgets tenant = map_of (map (\<lambda>(i, _, b). ((tenant, i), b)) seed_campaigns)"

text \<open>
  Each label allows one change only: a hold is granted once and within the budget, and only a held
  one is settled or released. Only \<open>Clearing\<close> forgets holds.
\<close>

inductive account_does :: "account_op \<Rightarrow> accounts \<Rightarrow> accounts \<Rightarrow> bool" where
  a_nothing: "account_does Nothing a a"
| a_open: "account_does (Opening tenant) a (a\<lparr>acc_budget := seed_budgets tenant ++ acc_budget a\<rparr>)"
| a_grant: "acc_budget a (fst k, c) = Some b \<Longrightarrow> acc_holds a k = None \<Longrightarrow> 0 < x \<Longrightarrow>
    committed (fst k) c a + x \<le> b \<Longrightarrow>
    account_does (Granting k c x) a (a\<lparr>acc_holds := (acc_holds a)(k \<mapsto> (c, x, Held))\<rparr>)"
| a_settle: "acc_holds a k = Some (c, x, Held) \<Longrightarrow>
    account_does (Settling k) a (a\<lparr>acc_holds := (acc_holds a)(k \<mapsto> (c, x, RSettled))\<rparr>)"
| a_release: "acc_holds a k = Some (c, x, Held) \<Longrightarrow>
    account_does (Releasing k) a (a\<lparr>acc_holds := (acc_holds a)(k \<mapsto> (c, x, Released))\<rparr>)"
| a_clear: "account_does Clearing a (a\<lparr>acc_holds := Map.empty\<rparr>)"

fun trace :: "('l \<Rightarrow> 's \<Rightarrow> 's \<Rightarrow> bool) \<Rightarrow> 's \<Rightarrow> 'l list \<Rightarrow> 's \<Rightarrow> bool" where
  "trace R s [] s' \<longleftrightarrow> s' = s"
| "trace R s (l # ls) s' \<longleftrightarrow> (\<exists>s1. R l s s1 \<and> trace R s1 ls s')"

lemma trace_snoc: "trace R s (ls @ [l]) s' \<longleftrightarrow> (\<exists>s1. trace R s ls s1 \<and> R l s1 s')"
  by (induction ls arbitrary: s) auto

text \<open>In the specification a paid or returned hold is final until the accounts are cleared.\<close>

lemma account_does_final:
  "account_does l a a' \<Longrightarrow> l \<noteq> Clearing \<Longrightarrow> acc_holds a k = Some (c, x, st) \<Longrightarrow> st \<noteq> Held \<Longrightarrow>
   acc_holds a' k = Some (c, x, st)"
  by (induction rule: account_does.induct) auto

lemma account_trace_final:
  "trace account_does a ls a' \<Longrightarrow> Clearing \<notin> set ls \<Longrightarrow> acc_holds a k = Some (c, x, st) \<Longrightarrow> st \<noteq> Held \<Longrightarrow>
   acc_holds a' k = Some (c, x, st)"
  by (induction ls arbitrary: a) (auto dest: account_does_final)

text \<open>A step of the implementation is matched by a step with the same label while an invariant holds.\<close>

locale simulation =
  fixes concrete :: "'l \<Rightarrow> 'c \<Rightarrow> 'c \<Rightarrow> bool" and abstract :: "'l \<Rightarrow> 'a \<Rightarrow> 'a \<Rightarrow> bool"
    and view :: "'c \<Rightarrow> 'a" and inv :: "'c \<Rightarrow> bool"
  assumes keeps_inv: "inv s \<Longrightarrow> concrete l s s' \<Longrightarrow> inv s'"
    and matches: "inv s \<Longrightarrow> concrete l s s' \<Longrightarrow> abstract l (view s) (view s')"
begin

lemma traces_match: "trace concrete s ls s' \<Longrightarrow> inv s \<Longrightarrow> trace abstract (view s) ls (view s')"
  by (induction ls arbitrary: s) (auto intro: matches keeps_inv)

end

subsection \<open>The engine refines it\<close>

definition budget_map :: "campaign_row list \<Rightarrow> string \<times> string \<rightharpoonup> int" where
  "budget_map cs = map_of (map (\<lambda>c. (campaign_key c, cmp_budget c)) cs)"

definition hold_map :: "reservation_row list \<Rightarrow> string \<times> string \<rightharpoonup> string \<times> int \<times> rstate" where
  "hold_map rs = map_of (map (\<lambda>r. (reservation_key r, rsv_campaign r, rsv_cost r, rsv_state r)) rs)"

definition account_view :: "database \<Rightarrow> accounts" where
  "account_view s = \<lparr>acc_budget = budget_map (db_campaigns s), acc_holds = hold_map (db_reservations s)\<rparr>"

lemma sum_map_of:
  "distinct (map fst al) \<Longrightarrow>
   (\<Sum>k \<in> dom (map_of al). F k (the (map_of al k))) = (sum_list (map (\<lambda>(k, v). F k v) al) :: int)"
proof (induction al)
  case (Cons p al)
  obtain k v where p: "p = (k, v)" by (cases p)
  have new: "k \<notin> dom (map_of al)" using Cons.prems p by (simp add: dom_map_of_conv_image_fst)
  have "(\<Sum>j \<in> dom (map_of al). F j (the (((map_of al)(k \<mapsto> v)) j))) = (\<Sum>j \<in> dom (map_of al). F j (the (map_of al j)))"
    using new by (intro sum.cong) auto
  moreover have "dom (map_of (p # al)) = insert k (dom (map_of al))" by (auto simp: p)
  moreover have "map_of (p # al) = (map_of al)(k \<mapsto> v)" by (simp add: p)
  ultimately have "(\<Sum>j \<in> dom (map_of (p # al)). F j (the (map_of (p # al) j))) =
      F k v + (\<Sum>j \<in> dom (map_of al). F j (the (map_of al j)))"
    using new by (simp add: finite_dom_map_of)
  moreover have "sum_list (map (\<lambda>(k, v). F k v) (p # al)) = F k v + (\<Sum>j \<in> dom (map_of al). F j (the (map_of al j)))"
    using Cons by (simp add: p)
  ultimately show ?case by (rule trans [OF _ sym])
qed simp

lemma committed_view:
  assumes "schema_ok s"
  shows "committed tenant c (account_view s) = in_state tenant c Held s + in_state tenant c RSettled s"
proof -
  have rows: "sum_list (map (\<lambda>r. claim_on tenant c (reservation_key r) (rsv_campaign r, rsv_cost r, rsv_state r)) rs) =
      sum_where (of_campaign tenant c Held) rsv_cost rs + sum_where (of_campaign tenant c RSettled) rsv_cost rs" for rs
  proof (induction rs)
    case (Cons r rs)
    then show ?case by (cases "rsv_state r") (auto simp: claim_on_def of_campaign_def reservation_key_def)
  qed simp
  have "distinct (map fst (map (\<lambda>r. (reservation_key r, rsv_campaign r, rsv_cost r, rsv_state r)) (db_reservations s)))"
    using schema_parts(2) [OF assms] by (simp add: o_def)
  from sum_map_of [OF this, of "claim_on tenant c"] show ?thesis
    by (simp add: committed_def account_view_def hold_map_def in_state_def o_def rows)
qed

lemma hold_map_set_state:
  assumes "r \<in> set rs" and "distinct (map reservation_key rs)"
  shows "hold_map (set_state r st rs) = (hold_map rs)(reservation_key r \<mapsto> (rsv_campaign r, rsv_cost r, st))"
proof -
  have key: "reservation_key (x\<lparr>rsv_state := st\<rparr>) = reservation_key x" for x by (simp add: reservation_key_def)
  have other: "hold_map (set_state r st rs) k = hold_map rs k" if "k \<noteq> reservation_key r" for k rs
    using that by (induction rs) (auto simp: hold_map_def set_state_def key)
  have "hold_map (set_state r st rs) (reservation_key r) = Some (rsv_campaign r, rsv_cost r, st)"
    using assms
  proof (induction rs)
    case (Cons x rs)
    then show ?case
      by (cases "x = r") (auto simp: hold_map_def set_state_def key image_iff)
  qed simp
  with other show ?thesis by (auto simp: fun_eq_iff)
qed

lemma hold_map_find:
  assumes "r \<in> set rs" and "distinct (map reservation_key rs)"
  shows "hold_map rs (reservation_key r) = Some (rsv_campaign r, rsv_cost r, rsv_state r)"
  unfolding hold_map_def using assms by (intro map_of_is_SomeI) (auto simp: o_def)

lemma budget_map_update:
  "(\<And>c. campaign_key (f c) = campaign_key c) \<Longrightarrow> (\<And>c. cmp_budget (f c) = cmp_budget c) \<Longrightarrow>
   budget_map (update_where w f cs) = budget_map cs"
  unfolding budget_map_def by (subst update_where_map) auto

lemma view_audit [simp]: "account_view (add_audit i now tn k rs d s) = account_view s"
  by (simp add: account_view_def)

lemma view_touched [simp]: "account_view (touched tenant i s) = account_view s"
  by (simp add: account_view_def touched_def)

lemma same_tables_match:
  "db_campaigns s' = db_campaigns s \<Longrightarrow> db_reservations s' = db_reservations s \<Longrightarrow> account_view s' = account_view s"
  by (simp add: account_view_def)

text \<open>
  The transactions with their labels, read off their arguments and answers: a reservation that
  was not there before, a receipt that waited and is answered as settled, a hold past its grace
  period, a seeding, a reset. Everything else, replayed and refused calls included, is \<open>Nothing\<close>.
\<close>

definition due_release :: "string \<Rightarrow> string \<Rightarrow> int \<Rightarrow> database \<Rightarrow> bool" where
  "due_release tenant i now s \<longleftrightarrow> list_ex (\<lambda>r. rsv_tenant r = tenant \<and> rsv_id r = i \<and> rsv_state r = Held \<and>
     rsv_expires r < now - 900000) (db_reservations s)"

definition waits_for :: "string \<Rightarrow> string \<Rightarrow> string \<Rightarrow> database \<Rightarrow> bool" where
  "waits_for tenant i x s \<longleftrightarrow> list_ex (\<lambda>d. delivery_key d = (tenant, i) \<and> dr_status d = Accepted \<and>
     map_option rcp_reservation (as_receipt (dr_payload d)) = Some x) (db_deliveries s)"

inductive engine_does :: "(payload \<Rightarrow> string) \<Rightarrow> account_op \<Rightarrow> database \<Rightarrow> database \<Rightarrow> bool" for digest where
  d_seed: "seed tenant s = (s', Inr ()) \<Longrightarrow> engine_does digest (Opening tenant) s s'"
| d_grant: "reserve digest u t tenant k inp s = (s', Inr (r, False)) \<Longrightarrow>
    engine_does digest (Granting (tenant, rsv_id r) (rsv_campaign r) (rsv_cost r)) s s'"
| d_settle: "process u t tenant i s = (s', Inr Settled) \<Longrightarrow> waits_for tenant i x s \<Longrightarrow>
    engine_does digest (Settling (tenant, x)) s s'"
| d_release: "release u t tenant i now s = (s', Inr ()) \<Longrightarrow> due_release tenant i now s \<Longrightarrow>
    engine_does digest (Releasing (tenant, i)) s s'"
| d_clear: "reset_demo u s = (s', Inr g) \<Longrightarrow> engine_does digest Clearing s s'"
| n_seed: "seed tenant s = (s', Inl e) \<Longrightarrow> engine_does digest Nothing s s'"
| n_reserve: "reserve digest u t tenant k inp s = (s', x) \<Longrightarrow> (\<And>r. x \<noteq> Inr (r, False)) \<Longrightarrow> engine_does digest Nothing s s'"
| n_process: "process u t tenant i s = (s', x) \<Longrightarrow> x \<noteq> Inr Settled \<or> (\<forall>y. \<not> waits_for tenant i y s) \<Longrightarrow>
    engine_does digest Nothing s s'"
| n_release: "release u t tenant i now s = (s', x) \<Longrightarrow> x \<noteq> Inr () \<or> \<not> due_release tenant i now s \<Longrightarrow>
    engine_does digest Nothing s s'"
| n_clear: "reset_demo u s = (s', Inl e) \<Longrightarrow> engine_does digest Nothing s s'"
| n_accept: "accept digest u t tenant p s = (s', x) \<Longrightarrow> engine_does digest Nothing s s'"
| n_claim: "claim u now s = (s', y) \<Longrightarrow> engine_does digest Nothing s s'"
| n_dispatched: "dispatched j s = (s', z) \<Longrightarrow> engine_does digest Nothing s s'"
| n_complete: "complete tenant i s = (s', z) \<Longrightarrow> engine_does digest Nothing s s'"
| n_fail: "fail_job u t j now s = (s', z) \<Longrightarrow> engine_does digest Nothing s s'"
| n_replay: "replay u t tenant i s = (s', z) \<Longrightarrow> engine_does digest Nothing s s'"

text \<open>The labelled transactions are the transactions.\<close>

lemma pair_fst: "s' = fst p \<Longrightarrow> \<exists>x. p = (s', x)"
  by (cases p) simp

lemma engine_does_iff: "(\<exists>l. engine_does digest l s s') \<longleftrightarrow> demo_step digest s s'"
proof
  assume "\<exists>l. engine_does digest l s s'"
  then obtain l where "engine_does digest l s s'" ..
  then show "demo_step digest s s'" unfolding demo_step_def
    by cases (metis e_seed e_reserve e_accept e_process e_release e_claim e_dispatched e_complete e_fail e_replay fst_conv)+
next
  assume "demo_step digest s s'"
  then consider "engine_step digest s s'" | u where "s' = fst (reset_demo u s)" by (auto simp: demo_step_def)
  then show "\<exists>l. engine_does digest l s s'"
  proof cases
    case 1
    then show ?thesis
    proof cases
      case (e_seed tenant)
      from pair_fst [OF this] obtain x where "seed tenant s = (s', x)" ..
      then show ?thesis by (cases x) (auto intro: d_seed n_seed)
    next
      case (e_reserve u t tenant k inp)
      from pair_fst [OF this] obtain x where x: "reserve digest u t tenant k inp s = (s', x)" ..
      show ?thesis
      proof (cases "\<exists>r. x = Inr (r, False)")
        case True
        with x show ?thesis by (auto intro: d_grant)
      next
        case False
        with x show ?thesis by (auto intro: n_reserve)
      qed
    next
      case (e_process u t tenant i)
      from pair_fst [OF this] obtain x where "process u t tenant i s = (s', x)" ..
      then show ?thesis by (cases "x = Inr Settled \<and> (\<exists>y. waits_for tenant i y s)") (auto intro: d_settle n_process)
    next
      case (e_release u t tenant i now)
      from pair_fst [OF this] obtain x where "release u t tenant i now s = (s', x)" ..
      then show ?thesis by (cases "x = Inr () \<and> due_release tenant i now s") (auto intro: d_release n_release)
    qed (drule pair_fst, blast intro: n_accept n_claim n_dispatched n_complete n_fail n_replay)+
  next
    case 2
    from pair_fst [OF this] obtain x where "reset_demo u s = (s', x)" ..
    then show ?thesis by (cases x) (auto intro: d_clear n_clear)
  qed
qed

lemma steps_traced: "(demo_step digest)\<^sup>*\<^sup>* s s' \<Longrightarrow> \<exists>ls. trace (engine_does digest) s ls s'"
proof (induction rule: rtranclp_induct)
  case base
  show ?case by (rule exI [of _ "[]"]) simp
next
  case (step s1 s2)
  then obtain ls l where "trace (engine_does digest) s ls s1" "engine_does digest l s1 s2"
    unfolding engine_does_iff [symmetric] by blast
  then show ?case by (intro exI [of _ "ls @ [l]"]) (auto simp: trace_snoc)
qed

text \<open>A transaction that is answered was committed; one that is refused changed nothing.\<close>

lemma commit_ok_D: "commit s s1 a = (s', Inr b) \<Longrightarrow> s' = s1 \<and> b = a \<and> schema_ok s1"
  by (auto simp: commit_def split: if_splits)

lemma commit_no_D: "commit s s1 a = (s', Inl e) \<Longrightarrow> s' = s"
  by (auto simp: commit_def split: if_splits)

lemma add_hold_matches:
  assumes "schema_ok s" and "balanced s" and "schema_ok (add_hold r s)" and "rsv_state r = Held" and "0 < rsv_cost r"
    and "x \<in> set (db_campaigns s)" "cmp_tenant x = rsv_tenant r" "cmp_id x = rsv_campaign r"
    and "rsv_cost r \<le> cmp_budget x - cmp_spent x - cmp_reserved x"
  shows "account_does (Granting (reservation_key r) (rsv_campaign r) (rsv_cost r)) (account_view s) (account_view (add_hold r s))"
proof -
  have new: "hold_map (db_reservations s) (reservation_key r) = None"
    using schema_parts(2) [OF assms(3)] by (auto simp: add_hold_def hold_map_def map_of_eq_None_iff)
  have view: "account_view (add_hold r s) = (account_view s)\<lparr>acc_holds :=
      (acc_holds (account_view s))(reservation_key r \<mapsto> (rsv_campaign r, rsv_cost r, Held))\<rparr>"
    using new assms(4)
    by (auto simp: account_view_def add_hold_def budget_map_update hold_map_def map_add_def fun_eq_iff split: option.split)
  have "budget_map (db_campaigns s) (campaign_key x) = Some (cmp_budget x)"
    unfolding budget_map_def using assms(6) schema_parts(1) [OF assms(1)]
    by (intro map_of_is_SomeI) (auto simp: o_def)
  moreover have "committed (rsv_tenant r) (rsv_campaign r) (account_view s) = cmp_reserved x + cmp_spent x"
    using assms(2,6-8) by (auto simp: committed_view [OF assms(1)] balanced_def)
  ultimately show ?thesis unfolding view
    using assms(5,7-9) new
    by (intro a_grant [where b = "cmp_budget x"]) (auto simp: account_view_def campaign_key_def reservation_key_def)
qed

lemma reserve_new: "reserve digest u t tenant k inp s = (s', Inr (r, False)) \<Longrightarrow> s' \<noteq> s"
  by (auto simp: reserve_def Let_def commit_def add_audit_def split: if_splits option.splits
      dest!: arg_cong [where f = "\<lambda>s. length (db_audit s)"])

lemma grant_matches:
  assumes "sound_db s" and "reserve digest u t tenant k inp s = (s', Inr (r, False))"
  shows "account_does (Granting (tenant, rsv_id r) (rsv_campaign r) (rsv_cost r)) (account_view s) (account_view s')"
proof (cases rule: reserve_cases [of digest u t tenant k inp s])
  case same
  with assms(2) reserve_new [OF assms(2)] show ?thesis by simp
next
  case (hold d x)
  let ?r = "granted digest u t tenant k inp"
  from commit_ok_D [OF trans [OF sym [OF hold(1)] assms(2)]] have r: "r = reservation.truncate ?r"
    and s': "account_view s' = account_view (add_hold ?r s)"
    and "schema_ok (add_audit (u 1) (t 2) tenant ''reserved'' (u 0) d (add_hold ?r s))" by auto
  then have "schema_ok (add_hold ?r s)" by (auto dest: schema_add_audit)
  then have "account_does (Granting (reservation_key ?r) (rsv_campaign ?r) (rsv_cost ?r)) (account_view s) (account_view (add_hold ?r s))"
    by (intro add_hold_matches [where x = x]) (use hold soundD [OF assms(1)] in \<open>auto simp: granted_def\<close>)
  then show ?thesis unfolding s' r by (simp add: reservation_key_def granted_def reservation.defs)
qed

lemma refused_reserve: "reserve digest u t tenant k inp s = (s', x) \<Longrightarrow> (\<And>r. x \<noteq> Inr (r, False)) \<Longrightarrow> s' = s"
  by (auto simp: reserve_def Let_def commit_def split: if_splits option.splits)

lemma set_state_matches:
  assumes "schema_ok s" and "r \<in> set (db_reservations s)" and "rsv_state r = Held"
    and "db_reservations s' = set_state r st (db_reservations s)"
    and "budget_map (db_campaigns s') = budget_map (db_campaigns s)"
  shows "acc_holds (account_view s) (reservation_key r) = Some (rsv_campaign r, rsv_cost r, Held)"
    and "account_view s' = (account_view s)\<lparr>acc_holds :=
      (acc_holds (account_view s))(reservation_key r \<mapsto> (rsv_campaign r, rsv_cost r, st))\<rparr>"
  using hold_map_set_state [OF assms(2) schema_parts(2) [OF assms(1)]]
    hold_map_find [OF assms(2) schema_parts(2) [OF assms(1)]] assms(3-5)
  by (simp_all add: account_view_def)

lemma touched_row:
  assumes "d \<in> set (db_deliveries (touched tenant i s))"
  shows "\<exists>d1 \<in> set (db_deliveries s). delivery_key d1 = delivery_key d \<and> dr_status d1 = dr_status d \<and> dr_payload d1 = dr_payload d"
  using assms by (auto simp: touched_def set_update_where delivery_key_def split: if_splits)

lemma settle_matches:
  assumes "sound_db s" and "process u t tenant i s = (s', Inr Settled)" and "waits_for tenant i x s"
  shows "account_does (Settling (tenant, x)) (account_view s) (account_view s')"
proof -
  note ok = soundD(1) [OF assms(1)]
  obtain d0 where d0: "d0 \<in> set (db_deliveries s)" "delivery_key d0 = (tenant, i)" "dr_status d0 = Accepted"
    "map_option rcp_reservation (as_receipt (dr_payload d0)) = Some x"
    using assms(3) by (auto simp: waits_for_def list_ex_iff)
  let ?s = "touched tenant i s"
  have touched_ok: "schema_ok ?s" using ok by (rule touched_keeps)
  have mine: "dr_status d = Accepted \<and> dr_payload d = dr_payload d0"
    if d: "d \<in> set (db_deliveries ?s)" "delivery_key d = (tenant, i)" for d
  proof -
    from touched_row [OF d(1)] d(2) obtain d1 where d1: "d1 \<in> set (db_deliveries s)" "delivery_key d1 = (tenant, i)"
      "dr_status d = dr_status d1" "dr_payload d = dr_payload d1" by auto
    have "inj_on delivery_key (set (db_deliveries s))" using schema_parts(3) [OF ok] by (simp add: distinct_map)
    then have "d1 = d0" using d0(1,2) d1(1,2) by (simp add: inj_on_def)
    with d1 d0(3) show ?thesis by simp
  qed
  show ?thesis
  proof (cases rule: process_cases [of u t tenant i s])
    case missing
    with assms(2) show ?thesis by simp
  next
    case (seen d)
    with mine show ?thesis by blast
  next
    case (now d st reason moved)
    note d = mine [OF now(1,2)]
    from commit_ok_D [OF trans [OF sym [OF now(5)] assms(2)]] have st: "st = Settled"
      and s': "account_view s' = account_view (decided tenant i st reason moved ?s)" by auto
    from now(4) show ?thesis
    proof (cases rule: decision_cases)
      case no
      with st show ?thesis by simp
    next
      case (pays r)
      have key: "reservation_key r = (tenant, x)" using pays(4,6) d d0(4) by (simp add: reservation_key_def)
      note m = set_state_matches [OF touched_ok pays(3,5), of "decided tenant i st reason moved ?s" RSettled]
      have "db_reservations (decided tenant i st reason moved ?s) = set_state r RSettled (db_reservations ?s)"
        "budget_map (db_campaigns (decided tenant i st reason moved ?s)) = budget_map (db_campaigns ?s)"
        using pays by (auto simp: decided_def Let_def settle_money_sel settle_money_def budget_map_update
            set_state_def reservation_key_def)
      from m [OF this] show ?thesis unfolding s' key by (simp add: a_settle)
    qed
  qed
qed

lemma unsettled_process:
  assumes "process u t tenant i s = (s', x)" and "x \<noteq> Inr Settled \<or> (\<forall>y. \<not> waits_for tenant i y s)"
  shows "account_view s' = account_view s"
proof (cases rule: process_cases [of u t tenant i s])
  case missing
  with assms(1) show ?thesis by simp
next
  case (seen d)
  from trans [OF sym [OF seen(4)] assms(1)] show ?thesis by (auto simp: commit_def split: if_splits)
next
  case (now d st reason moved)
  let ?s = "touched tenant i s"
  note run = trans [OF sym [OF now(5)] assms(1)]
  from now(4) show ?thesis
  proof (cases rule: decision_cases)
    case no
    with run show ?thesis by (auto simp: commit_def decided_def account_view_def Let_def touched_def split: if_splits)
  next
    case (pays r)
    from touched_row [OF now(1)] now(2,3) pays(6) have "waits_for tenant i (rsv_id r) s"
      by (auto simp: waits_for_def list_ex_iff)
    with assms(2) have "x \<noteq> Inr Settled" by blast
    with run pays(2) show ?thesis by (auto simp: commit_def split: if_splits)
  qed
qed

lemma release_matches:
  assumes "sound_db s" and "release u t tenant i now s = (s', Inr ())" and "due_release tenant i now s"
  shows "account_does (Releasing (tenant, i)) (account_view s) (account_view s')"
proof -
  note ok = soundD(1) [OF assms(1)]
  let ?p = "\<lambda>r. rsv_tenant r = tenant \<and> rsv_id r = i \<and> rsv_state r = Held \<and> rsv_expires r < now - 900000"
  obtain r where found: "array_find ?p (db_reservations s) = Some r"
    using assms(3) by (cases "array_find ?p (db_reservations s)") (auto simp: due_release_def list_ex_iff)
  note r = array_find_SomeD [OF found]
  have same: "update_where ?p (\<lambda>x. x\<lparr>rsv_state := Released\<rparr>) (db_reservations s) = set_state r Released (db_reservations s)"
    unfolding set_state_def
    by (rule update_where_cong) (use r same_reservation [OF ok] in \<open>auto simp: reservation_key_def\<close>)
  define s1 where "s1 = s\<lparr>db_reservations := set_state r Released (db_reservations s),
    db_campaigns := update_where (\<lambda>c. cmp_tenant c = tenant \<and> cmp_id c = rsv_campaign r)
      (\<lambda>c. c\<lparr>cmp_reserved := cmp_reserved c - rsv_cost r\<rparr>) (db_campaigns s)\<rparr>"
  have "account_view s' = account_view s1"
    using assms(2) unfolding release_def found option.case same s1_def [symmetric] by (auto dest: commit_ok_D)
  moreover have "db_reservations s1 = set_state r Released (db_reservations s)"
    "budget_map (db_campaigns s1) = budget_map (db_campaigns s)" by (simp_all add: s1_def budget_map_update)
  from set_state_matches [OF ok conjunct1 [OF r] _ this] r
  have "acc_holds (account_view s) (tenant, i) = Some (rsv_campaign r, rsv_cost r, Held)"
    "account_view s1 = (account_view s)\<lparr>acc_holds := (acc_holds (account_view s))((tenant, i) \<mapsto> (rsv_campaign r, rsv_cost r, Released))\<rparr>"
    by (simp_all add: reservation_key_def)
  ultimately show ?thesis by (simp add: a_release)
qed

lemma unreleased:
  "release u t tenant i now s = (s', x) \<Longrightarrow> x \<noteq> Inr () \<or> \<not> due_release tenant i now s \<Longrightarrow> s' = s"
  by (auto simp: release_def due_release_def list_ex_iff commit_def split: option.splits if_splits dest!: array_find_SomeD)

lemma budget_map_insert_new: "budget_map (insert_new campaign_key c cs) = [campaign_key c \<mapsto> cmp_budget c] ++ budget_map cs"
  by (auto simp: insert_new_def budget_map_def map_add_def map_of_eq_None_iff fun_eq_iff image_iff split: option.split
      dest!: map_of_SomeD)

lemma budget_map_seeded:
  "budget_map (fold (insert_new campaign_key) xs cs) = map_of (map (\<lambda>c. (campaign_key c, cmp_budget c)) xs) ++ budget_map cs"
proof (induction xs arbitrary: cs)
  case (Cons c xs)
  show ?case by (auto simp: Cons.IH budget_map_insert_new map_add_def fun_eq_iff split: option.split)
qed simp

lemma seed_matches:
  assumes "seed tenant s = (s', Inr ())"
  shows "account_does (Opening tenant) (account_view s) (account_view s')"
proof -
  have "budget_map (db_campaigns s') = seed_budgets tenant ++ budget_map (db_campaigns s)"
    using commit_ok_D [OF assms [unfolded seed_def]]
    by (simp add: budget_map_seeded seed_budgets_def o_def campaign_key_def case_prod_beta split_beta')
  moreover have "db_reservations s' = db_reservations s" using commit_ok_D [OF assms [unfolded seed_def]] by simp
  ultimately have "account_view s' = (account_view s)\<lparr>acc_budget := seed_budgets tenant ++ acc_budget (account_view s)\<rparr>"
    by (simp add: account_view_def)
  then show ?thesis by (simp add: a_open)
qed

lemma clear_matches:
  assumes "reset_demo u s = (s', Inr g)"
  shows "account_does Clearing (account_view s) (account_view s')"
proof -
  have "map (\<lambda>c. c\<lparr>cmp_reserved := 0, cmp_spent := 0\<rparr>) cs =
      update_where (\<lambda>_. True) (\<lambda>c. c\<lparr>cmp_reserved := 0, cmp_spent := 0\<rparr>) cs" for cs :: "campaign_row list"
    by (simp add: update_where_def)
  then have "account_view s' = (account_view s)\<lparr>acc_holds := Map.empty\<rparr>"
    using commit_ok_D [OF assms [unfolded reset_demo_def]] by (simp add: account_view_def budget_map_update hold_map_def)
  then show ?thesis by (simp add: a_clear)
qed

lemma other_views:
  "account_view (fst (accept digest u t tenant p s)) = account_view s"
  "account_view (fst (claim u now s)) = account_view s" "account_view (fst (dispatched j s)) = account_view s"
  "account_view (fst (complete tenant i s)) = account_view s"
  "account_view (fst (fail_job u t j next s)) = account_view s"
  "account_view (fst (replay u t tenant i s)) = account_view s"
  by (auto intro!: same_tables_match simp: accept_def claim_def dispatched_def complete_def fail_job_def replay_def
      fst_commit Let_def split: option.split)

lemma nothing_matches: "account_view s' = account_view s \<Longrightarrow> account_does Nothing (account_view s) (account_view s')"
  by (simp add: a_nothing)

interpretation account_sim: simulation "engine_does digest" account_does account_view sound_db for digest
proof
  fix l s s' assume s: "sound_db s" and step: "engine_does digest l s s'"
  have "demo_step digest s s'" using step engine_does_iff by blast
  with s show "sound_db s'" by (auto simp: demo_step_def intro: step_sound_db reset_sound)
  from step show "account_does l (account_view s) (account_view s')"
  proof cases
    case n_seed
    then show ?thesis by (auto intro: nothing_matches dest: commit_no_D simp: seed_def)
  next
    case n_reserve
    from refused_reserve [OF n_reserve(2,3)] n_reserve(1) show ?thesis by (simp add: a_nothing)
  next
    case n_process
    then show ?thesis using unsettled_process by (auto intro: nothing_matches)
  next
    case n_release
    from unreleased [OF n_release(2,3)] n_release(1) show ?thesis by (simp add: a_nothing)
  next
    case n_clear
    then show ?thesis by (auto intro: nothing_matches dest: commit_no_D simp: reset_demo_def)
  qed (use s other_views in \<open>auto intro: nothing_matches seed_matches grant_matches settle_matches release_matches clear_matches
      simp: prod_eq_iff\<close>)
qed

text \<open>
  C6. The engine implements accounts, transaction by transaction: seen through its budgets and holds,
  a run of transactions is a run of the specification with the same labels. A reservation that is
  granted is a new hold that fits what the existing holds leave of the budget, although the engine looks
  at two counters only; a receipt that is settled pays for the hold it names, which was held until
  then; an expiry returns a held one; a reset clears; every other transaction, refused and repeated
  ones included, changes no budget and no hold. Every run of the engine has such labels.
\<close>

theorem engine_refines_accounts:
  assumes "engine_reaches digest s"
  shows "(trace (engine_does digest) s ls s' \<longrightarrow> trace account_does (account_view s) ls (account_view s')) \<and>
    ((demo_step digest)\<^sup>*\<^sup>* s s' \<longrightarrow> (\<exists>ls. trace (engine_does digest) s ls s'))"
  using account_sim.traces_match [OF _ reaches_sound_db [OF assms]] steps_traced by blast

theorem engine_refines_accounts_witness:
  "account_does (Granting (''t'', ''r'') ''cmp-cascade'' 10000) (account_view day0) (account_view day1)"
proof -
  have "trace (engine_does day_digest) day0 [Granting (''t'', ''r'') ''cmp-cascade'' 10000] day1"
    using d_grant [OF day1_run] by (simp add: day_hold_def reservation.defs)
  then show ?thesis using engine_refines_accounts [OF day_reaches(1), of _ day1] by fastforce
qed

end
