(* ===== verification/Constraints.thy ===== *)
theory Constraints
  imports Accounts
begin

text \<open>
  The checks that the transactions make themselves are enough: on a database the engine can reach, no
  transaction with fresh identifiers is stopped by a constraint of \<open>schema.sql\<close>. It follows that
  reconciling a receipt decides it, and that reconciling it again changes nothing.
\<close>

subsection \<open>Writes that keep the schema\<close>

lemma schema_audit:
  assumes "schema_ok s" and "i \<notin> set (map aud_id (db_audit s))"
  shows "schema_ok (add_audit i now tenant k rs d s)"
  using assms by (simp add: schema_ok_def add_audit_def)

lemma map_factor: "map h ys = map h xs \<Longrightarrow> map (\<lambda>x. g (h x)) ys = map (\<lambda>x. g (h x)) xs"
  by (drule arg_cong [of _ _ "map g"]) (simp add: o_def)

lemma all_factor: "map h ys = map h xs \<Longrightarrow> list_all (\<lambda>x. g (h x)) ys = list_all (\<lambda>x. g (h x)) xs"
  by (drule arg_cong [of _ _ "list_all g"]) (simp add: list.pred_map o_def)

lemma all_update_where: "(\<And>c. c \<in> set rows \<Longrightarrow> P (if p c then f c else c)) \<Longrightarrow> list_all P (update_where p f rows)"
  by (induction rows) auto

text \<open>What the constraints look at in a reservation and in a delivery.\<close>

definition reservation_fixed :: "reservation_row \<Rightarrow> string \<times> string \<times> string \<times> string \<times> string \<times> int" where
  "reservation_fixed r = (rsv_tenant r, rsv_id r, rsv_key r, rsv_campaign r, rsv_screen r, rsv_cost r)"

definition delivery_fixed :: "delivery_row \<Rightarrow> string \<times> string \<times> string" where
  "delivery_fixed d = (dr_tenant d, dr_id d, dr_event d)"

lemma schema_keys:
  assumes "schema_ok s" and "list_all campaign_checks (db_campaigns s')"
    and "map campaign_key (db_campaigns s') = map campaign_key (db_campaigns s)" and "db_screens s' = db_screens s"
    and r: "map reservation_fixed (db_reservations s') = map reservation_fixed (db_reservations s)"
    and d: "map delivery_fixed (db_deliveries s') = map delivery_fixed (db_deliveries s)"
    and "map outbox_key (db_outbox s') = map outbox_key (db_outbox s)" and "db_audit s' = db_audit s"
  shows "schema_ok s'"
proof -
  note rs = reservation_fixed_def and ds = delivery_fixed_def
  have "map reservation_key (db_reservations s') = map reservation_key (db_reservations s)"
    using map_factor [OF r, of "\<lambda>(a, b, _). (a, b)"] by (simp add: rs reservation_key_def [abs_def])
  moreover have "map (\<lambda>r. (rsv_tenant r, rsv_key r)) (db_reservations s') = map (\<lambda>r. (rsv_tenant r, rsv_key r)) (db_reservations s)"
    using map_factor [OF r, of "\<lambda>(a, b, k, _). (a, k)"] by (simp add: rs)
  moreover have "list_all (\<lambda>r. 0 < rsv_cost r) (db_reservations s') = list_all (\<lambda>r. 0 < rsv_cost r) (db_reservations s)"
    using all_factor [OF r, of "\<lambda>(_, _, _, _, _, x). 0 < x"] by (simp add: rs)
  moreover have "list_all (\<lambda>r. (rsv_tenant r, rsv_campaign r) \<in> A \<and> rsv_screen r \<in> B) (db_reservations s') =
      list_all (\<lambda>r. (rsv_tenant r, rsv_campaign r) \<in> A \<and> rsv_screen r \<in> B) (db_reservations s)" for A B
    using all_factor [OF r, of "\<lambda>(a, _, _, c, v, _). (a, c) \<in> A \<and> v \<in> B"] by (simp add: rs)
  moreover have "map delivery_key (db_deliveries s') = map delivery_key (db_deliveries s)"
    using map_factor [OF d, of "\<lambda>(a, b, _). (a, b)"] by (simp add: ds delivery_key_def [abs_def])
  moreover have "map (\<lambda>d. (dr_tenant d, dr_event d)) (db_deliveries s') = map (\<lambda>d. (dr_tenant d, dr_event d)) (db_deliveries s)"
    using map_factor [OF d, of "\<lambda>(a, _, e). (a, e)"] by (simp add: ds)
  ultimately show ?thesis using assms(1-4,7,8) unfolding schema_ok_def by presburger
qed

text \<open>Settling or releasing a held reservation leaves balances within their constraints.\<close>

lemma checks_move:
  assumes "sound_db s" and "r \<in> set (db_reservations s)" and "rsv_state r = Held"
  shows "list_all campaign_checks (update_where (\<lambda>c. cmp_tenant c = rsv_tenant r \<and> cmp_id c = rsv_campaign r)
    (\<lambda>c. c\<lparr>cmp_reserved := cmp_reserved c - rsv_cost r, cmp_spent := cmp_spent c + (if b then rsv_cost r else 0)\<rparr>) (db_campaigns s))"
proof -
  note inv = soundD [OF assms(1)]
  have le: "rsv_cost r \<le> in_state (rsv_tenant r) (rsv_campaign r) Held s"
    unfolding in_state_def
    by (rule sum_where_ge) (use schema_parts(8) [OF inv(1)] assms in \<open>auto simp: of_campaign_def less_imp_le\<close>)
  have pos: "0 < rsv_cost r" by (rule schema_parts(8) [OF inv(1) assms(2)])
  have "campaign_checks (if cmp_tenant c = rsv_tenant r \<and> cmp_id c = rsv_campaign r
      then c\<lparr>cmp_reserved := cmp_reserved c - rsv_cost r, cmp_spent := cmp_spent c + (if b then rsv_cost r else 0)\<rparr> else c)"
    if c: "c \<in> set (db_campaigns s)" for c
  proof -
    have "cmp_reserved c = in_state (cmp_tenant c) (cmp_id c) Held s" using inv(2) c by (simp add: balanced_def)
    with le pos schema_parts(9) [OF inv(1) c] show ?thesis by (auto simp: campaign_checks_def)
  qed
  then show ?thesis by (rule all_update_where)
qed

lemma schema_settle_money:
  assumes "sound_db s" and "r \<in> set (db_reservations s)" and "rsv_state r = Held" and "rsv_tenant r = tenant"
  shows "schema_ok (settle_money tenant r s)"
  by (rule schema_keys [OF soundD(1) [OF assms(1)]])
     (use checks_move [OF assms(1-3), of True] assms(4) in
       \<open>simp_all add: settle_money_def update_where_map reservation_fixed_def campaign_key_def\<close>)

lemma schema_decided:
  assumes "sound_db s" and "decision now tenant body s = (st, reason, moved)"
  shows "schema_ok (decided tenant i st reason moved s)"
  using assms(2)
proof (cases rule: decision_cases)
  case no
  show ?thesis
    by (rule schema_keys [OF soundD(1) [OF assms(1)]])
       (use no soundD(1) [OF assms(1)] in \<open>simp_all add: decided_def Let_def update_where_map delivery_fixed_def list_all_iff schema_parts(9)\<close>)
next
  case (pays r)
  note ok = schema_settle_money [OF assms(1) pays(3,5,4)]
  show ?thesis
    by (rule schema_keys [OF ok])
       (use pays ok in \<open>simp_all add: decided_def Let_def update_where_map delivery_fixed_def list_all_iff schema_parts(9)\<close>)
qed


lemma schema_add_hold:
  assumes "sound_db s" and "(rsv_tenant r, rsv_id r) \<notin> set (map reservation_key (db_reservations s))"
    and "(rsv_tenant r, rsv_key r) \<notin> set (map (\<lambda>r. (rsv_tenant r, rsv_key r)) (db_reservations s))"
    and "(rsv_tenant r, rsv_campaign r) \<in> set (map campaign_key (db_campaigns s))"
    and "rsv_screen r \<in> set (map scr_id (db_screens s))" and "0 < rsv_cost r"
  shows "schema_ok (add_hold r s)"
proof -
  note ok = soundD(1) [OF assms(1)]
  let ?cs = "db_campaigns (add_hold r s)"
  have "list_all campaign_checks ?cs"
    unfolding add_hold_def using schema_parts(9) [OF ok] assms(6)
    by (simp, intro all_update_where) (auto simp: campaign_checks_def)
  moreover have "map campaign_key ?cs = map campaign_key (db_campaigns s)"
    by (simp add: add_hold_def update_where_map campaign_key_def)
  moreover have "db_screens (add_hold r s) = db_screens s" "db_audit (add_hold r s) = db_audit s"
    "db_reservations (add_hold r s) = db_reservations s @ [r]" by (simp_all add: add_hold_def)
  ultimately show ?thesis
    using ok assms(2-6) unfolding schema_ok_def by (auto simp: reservation_key_def image_iff)
qed

lemma schema_release:
  assumes "sound_db s" and "r \<in> set (db_reservations s)" and "rsv_state r = Held" and "rsv_tenant r = tenant"
  shows "schema_ok (s\<lparr>db_reservations := update_where w (\<lambda>x. x\<lparr>rsv_state := Released\<rparr>) (db_reservations s),
    db_campaigns := update_where (\<lambda>c. cmp_tenant c = tenant \<and> cmp_id c = rsv_campaign r)
      (\<lambda>c. c\<lparr>cmp_reserved := cmp_reserved c - rsv_cost r\<rparr>) (db_campaigns s)\<rparr>)"
  by (rule schema_keys [OF soundD(1) [OF assms(1)]])
     (use checks_move [OF assms(1-3), of False] assms(4) in
       \<open>simp_all add: update_where_map reservation_fixed_def campaign_key_def\<close>)

lemma schema_queue:
  assumes "schema_ok s" and "\<And>b. outbox_key (f b) = outbox_key b" and "\<And>d. delivery_fixed (g d) = delivery_fixed d"
  shows "schema_ok (s\<lparr>db_outbox := update_where w f (db_outbox s)\<rparr>)"
    "schema_ok (s\<lparr>db_outbox := update_where w f (db_outbox s), db_deliveries := update_where v g (db_deliveries s)\<rparr>)"
    "schema_ok (s\<lparr>db_deliveries := update_where v g (db_deliveries s), db_outbox := update_where w f (db_outbox s)\<rparr>)"
  by (rule schema_keys [OF assms(1)];
      use schema_parts(9) [OF assms(1)] assms(2,3) in \<open>simp add: update_where_map list_all_iff\<close>)+

subsection \<open>Transactions that commit\<close>

lemma commit_ok: "schema_ok s' \<Longrightarrow> commit s s' a = (s', Inr a)"
  by (simp add: commit_def)

text \<open>Identifiers that no row uses yet.\<close>

definition fresh :: "ids \<Rightarrow> string \<Rightarrow> database \<Rightarrow> bool" where
  "fresh u tenant s \<longleftrightarrow> list_all (\<lambda>i. i \<notin> set (map aud_id (db_audit s)) \<and>
     (tenant, i) \<notin> set (map reservation_key (db_reservations s)) \<and>
     (tenant, i) \<notin> set (map delivery_key (db_deliveries s))) [u 0, u 1]"

lemma reserve_commits:
  assumes "sound_db s" and "fresh u tenant s"
  shows "snd (reserve digest u t tenant k inp s) \<noteq> Inl ErrStorage"
proof -
  let ?own = "\<lambda>c. cmp_tenant c = tenant \<and> cmp_id c = inp_campaign inp"
  let ?g = "granted digest u t tenant k inp"
  let ?guards = "valid_id k \<and> valid_id (inp_campaign inp) \<and> valid_id (inp_screen inp) \<and>
      0 < inp_cost inp \<and> inp_cost inp \<le> 1000000000 \<and> affected ?own (db_campaigns s) \<noteq> 0 \<and>
      array_find (\<lambda>r. rsv_tenant r = tenant \<and> rsv_key r = k) (db_reservations s) = None \<and>
      list_ex (\<lambda>v. scr_id v = inp_screen inp) (db_screens s) \<and>
      affected (\<lambda>c. ?own c \<and> inp_cost inp \<le> cmp_budget c - cmp_spent c - cmp_reserved c) (db_campaigns s) \<noteq> 0"
  show ?thesis
  proof (cases ?guards)
    case True
    have sel: "rsv_tenant ?g = tenant" "rsv_id ?g = u 0" "rsv_key ?g = k" "rsv_campaign ?g = inp_campaign inp"
      "rsv_screen ?g = inp_screen inp" "rsv_cost ?g = inp_cost inp" by (simp_all add: granted_def)
    have "inp_screen inp \<in> set (map scr_id (db_screens s))" using True by (auto simp: list_ex_iff intro: rev_image_eqI)
    then have "schema_ok (add_hold ?g s)"
      by (intro schema_add_hold [OF assms(1)])
         (use True assms(2) in \<open>auto simp: sel fresh_def affected_iff campaign_key_def image_iff\<close>)
    moreover have "u 1 \<notin> set (map aud_id (db_audit (add_hold ?g s)))"
      using assms(2) by (simp add: fresh_def add_hold_def)
    ultimately have "schema_ok (add_audit (u 1) (t 2) tenant ''reserved'' (u 0)
        (dec (nat (inp_cost inp)) @ '' micros held; '' @ inp_screen inp) (add_hold ?g s))" by (rule schema_audit)
    moreover from True have "reserve digest u t tenant k inp s = commit s
        (add_audit (u 1) (t 2) tenant ''reserved'' (u 0)
          (dec (nat (inp_cost inp)) @ '' micros held; '' @ inp_screen inp) (add_hold ?g s))
        (reservation.truncate ?g, False)"
      by (simp add: reserve_def Let_def add_hold_def granted_def reservation.defs del: array_find_None_iff)
    ultimately show ?thesis by (simp add: commit_ok)
  qed (auto simp: reserve_def Let_def split: option.split)
qed

lemma accept_commits:
  assumes "schema_ok s" and "fresh u tenant s"
  shows "snd (accept digest u t tenant p s) \<noteq> Inl ErrStorage"
proof -
  let ?d = "\<lparr>dr_tenant = tenant, dr_id = u 0, dr_event = rcp_event p, dr_print = digest (P_receipt p),
    dr_payload = P_receipt p, dr_status = Accepted, dr_reason = [], dr_created = t 0, dr_attempts = 0\<rparr>"
  let ?b = "\<lparr>ob_tenant = tenant, ob_id = u 0, ob_state = O_pending, ob_owner = [], ob_lease = 0, ob_next = 0, ob_attempts = 0\<rparr>"
  have "schema_ok (s\<lparr>db_deliveries := db_deliveries s @ [?d], db_outbox := db_outbox s @ [?b]\<rparr>)"
    if new: "array_find (\<lambda>d. dr_tenant d = tenant \<and> dr_event d = rcp_event p) (db_deliveries s) = None"
  proof -
    have "delivery_key ?d = outbox_key ?b" by (simp add: delivery_key_def outbox_key_def)
    moreover have "delivery_key ?d \<notin> set (map delivery_key (db_deliveries s))"
      using assms(2) by (simp add: fresh_def delivery_key_def)
    ultimately show ?thesis using assms(1) new unfolding schema_ok_def by auto
  qed
  then show ?thesis
    using assms(2) schema_audit [of _ "u 1"]
    by (auto simp: accept_def Let_def commit_ok fresh_def simp del: array_find_None_iff split: option.split)
qed

lemma release_commits:
  assumes "sound_db s" and "fresh u tenant s"
  shows "snd (release u t tenant i now s) \<noteq> Inl ErrStorage"
  using schema_audit [OF schema_release [OF assms(1)], of _ tenant "u 0"] assms(2)
  by (auto simp: release_def fresh_def commit_ok split: option.split dest!: array_find_SomeD)

lemma queue_commits:
  assumes "schema_ok s" and "u 0 \<notin> set (map aud_id (db_audit s))"
  shows "snd (claim u now s) \<noteq> Inl ErrStorage" "snd (dispatched j s) \<noteq> Inl ErrStorage"
    "snd (fail_job u t j next s) \<noteq> Inl ErrStorage" "snd (replay u t tenant i s) \<noteq> Inl ErrStorage"
    "(tenant, i) \<in> set (map delivery_key (db_deliveries s)) \<Longrightarrow> snd (complete tenant i s) \<noteq> Inl ErrStorage"
proof -
  note ok = schema_queue [OF assms(1)] and keys = outbox_key_def delivery_fixed_def
  show "snd (claim u now s) \<noteq> Inl ErrStorage" "snd (dispatched j s) \<noteq> Inl ErrStorage"
    by (auto simp: claim_def dispatched_def commit_ok ok keys split: option.split)
  show "snd (fail_job u t j next s) \<noteq> Inl ErrStorage" "snd (replay u t tenant i s) \<noteq> Inl ErrStorage"
    using assms(2) by (auto simp: fail_job_def replay_def Let_def commit_ok schema_audit ok keys)
  assume "(tenant, i) \<in> set (map delivery_key (db_deliveries s))"
  then show "snd (complete tenant i s) \<noteq> Inl ErrStorage"
    by (auto simp: complete_def commit_ok ok keys delivery_key_def split: option.split)
qed

lemma decided_deliveries:
  "db_deliveries (decided tenant i st reason moved s) = update_where (\<lambda>d. delivery_key d = (tenant, i))
     (\<lambda>d. d\<lparr>dr_status := st, dr_reason := reason\<rparr>) (db_deliveries s)"
  by (simp add: decided_def settle_money_sel Let_def split: option.split)

lemma touched_keys [simp]:
  "map delivery_key (db_deliveries (touched tenant i s)) = map delivery_key (db_deliveries s)"
  by (simp add: touched_def update_where_map delivery_key_def)

lemma touched_key_set [simp]:
  "delivery_key ` set (db_deliveries (touched tenant i s)) = delivery_key ` set (db_deliveries s)"
  by (metis touched_keys list.set_map)

lemma touched_sel:
  "db_deliveries (touched tenant i s) = update_where (\<lambda>d. delivery_key d = (tenant, i))
     (\<lambda>d. d\<lparr>dr_attempts := Suc (dr_attempts d)\<rparr>) (db_deliveries s)"
  "db_campaigns (touched tenant i s) = db_campaigns s" "db_reservations (touched tenant i s) = db_reservations s"
  "db_outbox (touched tenant i s) = db_outbox s" "db_audit (touched tenant i s) = db_audit s"
  "db_screens (touched tenant i s) = db_screens s"
  by (simp_all add: touched_def)

lemma process_missing:
  assumes "process u t tenant i s = (s, Inl ErrNotFound)"
  shows "(tenant, i) \<notin> set (map delivery_key (db_deliveries s))"
proof -
  have "(tenant, i) \<notin> set (map delivery_key (db_deliveries (touched tenant i s)))"
    using assms by (auto simp: process_def own_delivery touched_def Let_def commit_def
      split: option.splits if_splits prod.splits)
  then show ?thesis by simp
qed

text \<open>Reconciling a receipt gives it a final status, and touches nothing else of the queue.\<close>

lemma process_result:
  assumes "sound_db s" and "process u t tenant i s = (s', Inr st)"
  shows "st \<noteq> Accepted" and "(tenant, i) \<in> set (map delivery_key (db_deliveries s'))"
    and "d \<in> set (db_deliveries s') \<Longrightarrow> delivery_key d = (tenant, i) \<Longrightarrow> dr_status d = st"
    and "map delivery_key (db_deliveries s') = map delivery_key (db_deliveries s)" and "db_outbox s' = db_outbox s"
    and "set (map aud_id (db_audit s')) \<subseteq> insert (u 0) (set (map aud_id (db_audit s)))"
proof -
  have "st \<noteq> Accepted \<and> (tenant, i) \<in> set (map delivery_key (db_deliveries s')) \<and>
    (\<forall>d \<in> set (db_deliveries s'). delivery_key d = (tenant, i) \<longrightarrow> dr_status d = st) \<and>
    map delivery_key (db_deliveries s') = map delivery_key (db_deliveries s) \<and> db_outbox s' = db_outbox s \<and>
    set (map aud_id (db_audit s')) \<subseteq> insert (u 0) (set (map aud_id (db_audit s)))"
  proof (cases rule: process_cases [of u t tenant i s])
    case missing
    with assms(2) show ?thesis by simp
  next
    case (seen d)
    have s': "s' = touched tenant i s" "st = dr_status d"
      using assms(2) seen(4) touched_sound [OF assms(1)] by (auto simp: commit_def sound_db_def)
    have "dr_status x = st" if "x \<in> set (db_deliveries s')" "delivery_key x = (tenant, i)" for x
      using same_delivery [OF soundD(1) [OF touched_sound [OF assms(1)]] _ seen(1)] that seen(2) s' by simp
    moreover have "(tenant, i) \<in> set (map delivery_key (db_deliveries s'))"
      using imageI [OF seen(1), of delivery_key] seen(2) s' by simp
    ultimately show ?thesis using seen(3) unfolding s' by (auto simp: touched_sel(4,5))
  next
    case (now d st' reason moved)
    let ?s' = "decided tenant i st' reason moved (touched tenant i s)"
    have s': "s' = add_audit (u 0) (t 1) tenant (status_name st') i reason ?s'" "st = st'"
      using assms(2) now(5) by (auto simp: commit_def split: if_splits)
    have "db_audit ?s' = db_audit s" "db_outbox ?s' = db_outbox s"
      by (simp_all add: decided_def touched_def settle_money_def Let_def split: option.split)
    moreover from now(4) have "st \<noteq> Accepted" by (cases rule: decision_cases) (auto simp: s')
    moreover have "dr_status x = st" if "x \<in> set (db_deliveries ?s')" "delivery_key x = (tenant, i)" for x
    proof -
      from that(1) obtain y where "x = (if delivery_key y = (tenant, i) then y\<lparr>dr_status := st', dr_reason := reason\<rparr> else y)"
        unfolding decided_deliveries set_update_where by blast
      with that(2) show ?thesis by (cases "delivery_key y = (tenant, i)") (simp_all add: s')
    qed
    moreover have keys: "map delivery_key (db_deliveries ?s') = map delivery_key (db_deliveries (touched tenant i s))"
      by (simp add: decided_deliveries update_where_map delivery_key_def)
    moreover have "(tenant, i) \<in> set (map delivery_key (db_deliveries ?s'))"
      unfolding keys using imageI [OF now(1), of delivery_key] now(2) by simp
    ultimately show ?thesis unfolding s' by (auto simp: add_audit_def)
  qed
  then show "st \<noteq> Accepted" "(tenant, i) \<in> set (map delivery_key (db_deliveries s'))"
    "d \<in> set (db_deliveries s') \<Longrightarrow> delivery_key d = (tenant, i) \<Longrightarrow> dr_status d = st"
    "map delivery_key (db_deliveries s') = map delivery_key (db_deliveries s)" "db_outbox s' = db_outbox s"
    "set (map aud_id (db_audit s')) \<subseteq> insert (u 0) (set (map aud_id (db_audit s)))" by blast+
qed

text \<open>With a fresh audit identifier a receipt that is there is decided.\<close>

lemma process_commits:
  assumes "sound_db s" and "u 0 \<notin> set (map aud_id (db_audit s))"
  shows "snd (process u t tenant i s) \<noteq> Inl ErrStorage"
    and "(tenant, i) \<in> set (map delivery_key (db_deliveries s)) \<Longrightarrow> \<exists>s' st. process u t tenant i s = (s', Inr st)"
proof -
  note s1 = touched_sound [OF assms(1), of tenant i]
  have "snd (process u t tenant i s) \<noteq> Inl ErrStorage \<and>
    ((tenant, i) \<in> set (map delivery_key (db_deliveries s)) \<longrightarrow> (\<exists>s' st. process u t tenant i s = (s', Inr st)))"
  proof (cases rule: process_cases [of u t tenant i s])
    case missing
    with process_missing [OF missing] show ?thesis by simp
  next
    case (seen d)
    then show ?thesis by (simp add: commit_ok soundD(1) [OF s1])
  next
    case (now d st reason moved)
    have "schema_ok (add_audit (u 0) (t 1) tenant (status_name st) i reason (decided tenant i st reason moved (touched tenant i s)))"
      by (rule schema_audit [OF schema_decided [OF s1 now(4)]])
         (use assms(2) in \<open>simp add: decided_def touched_def settle_money_def Let_def split: option.split\<close>)
    with now(5) show ?thesis by (simp add: commit_ok)
  qed
  then show "snd (process u t tenant i s) \<noteq> Inl ErrStorage"
    "(tenant, i) \<in> set (map delivery_key (db_deliveries s)) \<Longrightarrow> \<exists>s' st. process u t tenant i s = (s', Inr st)" by blast+
qed

lemma process_again:
  assumes "sound_db s" and "process u t tenant i s = (s', Inr st)"
  shows "process u' t' tenant i s' = (touched tenant i s', Inr st)"
proof -
  note res = process_result [OF assms]
  have s': "sound_db s'" using process_sound [OF assms(1), of u t tenant i] assms(2) by simp
  have status: "dr_status d = st" if "d \<in> set (db_deliveries (touched tenant i s'))" "delivery_key d = (tenant, i)" for d
  proof -
    from that(1) obtain y where y: "y \<in> set (db_deliveries s')"
      "d = (if delivery_key y = (tenant, i) then y\<lparr>dr_attempts := Suc (dr_attempts y)\<rparr> else y)"
      unfolding touched_sel set_update_where by blast
    with that(2) res(3) [OF y(1)] show ?thesis by (cases "delivery_key y = (tenant, i)") simp_all
  qed
  show ?thesis
  proof (cases rule: process_cases [of u' t' tenant i s'])
    case missing
    with res(2) process_missing [OF missing] show ?thesis by blast
  next
    case (seen d)
    with status show ?thesis by (simp add: commit_ok soundD(1) [OF touched_sound [OF s']])
  next
    case (now d)
    with status res(1) show ?thesis by blast
  qed
qed

subsection \<open>No constraint stops a transaction\<close>

text \<open>
  C29. The guards in the code imply the constraints of the schema: on a database the engine can reach, a
  transaction with identifiers that no row uses yet is never rejected by a check, a unique index
  or a foreign key. In particular no reservation, settlement or expiry ever drives a balance out of
  its bounds.
\<close>

theorem transactions_commit:
  assumes "engine_reaches digest s" and "fresh u tenant s"
  shows "snd (reserve digest u t tenant k inp s) \<noteq> Inl ErrStorage \<and> snd (accept digest u t tenant p s) \<noteq> Inl ErrStorage \<and>
    snd (process u t tenant i s) \<noteq> Inl ErrStorage \<and> snd (release u t tenant i now s) \<noteq> Inl ErrStorage \<and>
    snd (claim u now s) \<noteq> Inl ErrStorage \<and> snd (dispatched j s) \<noteq> Inl ErrStorage \<and>
    snd (fail_job u t j next s) \<noteq> Inl ErrStorage \<and> snd (replay u t tenant i s) \<noteq> Inl ErrStorage \<and>
    ((tenant, i) \<in> set (map delivery_key (db_deliveries s)) \<longrightarrow> snd (complete tenant i s) \<noteq> Inl ErrStorage)"
proof -
  note s = reaches_sound_db [OF assms(1)]
  have u: "u 0 \<notin> set (map aud_id (db_audit s))" using assms(2) by (simp add: fresh_def)
  note queue = queue_commits [where u = u, OF soundD(1) [OF s] u]
  show ?thesis
    by (intro conjI impI reserve_commits [OF s assms(2)] accept_commits [OF soundD(1) [OF s] assms(2)]
      process_commits(1) [where u = u, OF s u] release_commits [OF s assms(2)] queue)
qed

theorem transactions_commit_witness:
  "snd (process (day_ids ''c'') day_times ''t'' ''a'' day2) \<noteq> Inl ErrStorage"
  using transactions_commit [OF day_reaches(3), of "day_ids ''c''" "''t''"]
  by (simp add: fresh_def day_simps reservation_key_def delivery_key_def)

text \<open>
  C20. A redelivered receipt has no further effect: once reconciling it has returned a status, doing it
  again, as after a crash between commit and acknowledgement, returns the same status and
  changes no balance, reservation, outbox row or audit entry; only the count of attempts rises.
\<close>

theorem redelivery_changes_nothing:
  assumes "engine_reaches digest s" and "process u t tenant i s = (s', Inr st)"
  shows "\<exists>s''. process u' t' tenant i s' = (s'', Inr st) \<and> st \<noteq> Accepted \<and>
    db_campaigns s'' = db_campaigns s' \<and> db_reservations s'' = db_reservations s' \<and>
    db_outbox s'' = db_outbox s' \<and> db_audit s'' = db_audit s' \<and>
    map (\<lambda>d. d\<lparr>dr_attempts := 0\<rparr>) (db_deliveries s'') = map (\<lambda>d. d\<lparr>dr_attempts := 0\<rparr>) (db_deliveries s')"
  using process_again [OF reaches_sound_db [OF assms(1)] assms(2)]
    process_result(1) [OF reaches_sound_db [OF assms(1)] assms(2)]
  by (simp add: touched_sel update_where_map)

theorem redelivery_changes_nothing_witness:
  "\<exists>s''. process (day_ids ''d'') day_times ''t'' ''a'' (fst (process (day_ids ''c'') day_times ''t'' ''a'' day2)) = (s'', Inr Settled) \<and>
    db_campaigns s'' = db_campaigns (fst (process (day_ids ''c'') day_times ''t'' ''a'' day2))"
proof -
  have "snd (process (day_ids ''c'') day_times ''t'' ''a'' day2) = Inr Settled"
    by (simp add: process_def decision_def envelope_reason_def match_reason_def reservation_of_def settle_money_def add_audit_def
      Let_def day_simps schema_simps)
  then show ?thesis
    using redelivery_changes_nothing [OF day_reaches(3), of "day_ids ''c''" day_times "''t''" "''a''" _ Settled]
    by (metis prod.collapse)
qed

end
