(* ===== verification/Dispatch.thy ===== *)
theory Dispatch
  imports Constraints
begin

text \<open>
  \<open>internal/pipeline/worker.go\<close>: the worker that claims rows of the outbox and reconciles them, with its
  pause switch, its circuit breaker, the faults of the failure lab and its backoff. Its mutex
  makes a tick, a sweep and a reset exclude each other, so each is one function of the worker and the
  database. Readings of the clock are nanoseconds since the epoch, numbered in the order of the
  calls of a tick; the random source is a parameter. A deadline that cuts a transaction short is not
  modelled. The publisher is the interface of a transport, a parameter: the local worker has none.
\<close>

subsection \<open>The worker\<close>

text \<open>\<open>openUntil\<close> is \<open>None\<close> for the zero time.\<close>

record worker =
  wk_paused :: bool
  wk_fail_next :: int
  wk_drop_ack :: bool
  wk_failures :: nat
  wk_open_until :: "int option"

datatype tick_error = Injected_failure | Ack_lost | Publish_failed | Engine_failed engine_error

record tick_env =
  te_clock :: "nat \<Rightarrow> int"
  te_ids :: "nat \<Rightarrow> ids"
  te_times :: "nat \<Rightarrow> times"
  te_random :: "int \<Rightarrow> int"

definition unix_milli :: "int \<Rightarrow> int" where
  "unix_milli n = n div 1000000"

definition breaker_open :: "int \<Rightarrow> worker \<Rightarrow> bool" where
  "breaker_open now w = (case wk_open_until w of None \<Rightarrow> False | Some x \<Rightarrow> now < x)"

definition mark_failure :: "int \<Rightarrow> worker \<Rightarrow> worker" where
  "mark_failure now w =
     (let w1 = w\<lparr>wk_failures := Suc (wk_failures w)\<rparr>
      in if 3 \<le> wk_failures w1 then w1\<lparr>wk_open_until := Some (now + 2 * 1000000000)\<rparr> else w1)"

definition mark_success :: "worker \<Rightarrow> worker" where
  "mark_success w = w\<lparr>wk_failures := 0, wk_open_until := None\<rparr>"

definition backoff :: "(int \<Rightarrow> int) \<Rightarrow> int \<Rightarrow> int" where
  "backoff rnd attempt =
     (let a1 = (if attempt < 1 then 1 else attempt);
          a2 = (if 6 < a1 then 6 else a1);
          base = push_bit (nat (a2 - 1)) 1 * 250 * 1000000
      in base + rnd (base div 2 + 1))"

definition consume_fault :: "worker \<Rightarrow> worker \<times> bool" where
  "consume_fault w = (if wk_fail_next w \<le> 0 then (w, False) else (w\<lparr>wk_fail_next := wk_fail_next w - 1\<rparr>, True))"

definition consume ::
  "ids \<Rightarrow> times \<Rightarrow> string \<Rightarrow> string \<Rightarrow> worker \<Rightarrow> database \<Rightarrow> worker \<times> database \<times> tick_error option" where
  "consume u t tenant i w s =
     (case consume_fault w of
        (w1, True) \<Rightarrow> (w1, s, Some Injected_failure)
      | (w1, False) \<Rightarrow>
          (case process u t tenant i s of
             (s1, Inl x) \<Rightarrow> (w1, s1, Some (Engine_failed x))
           | (s1, Inr status) \<Rightarrow>
               if wk_drop_ack w1 then (w1\<lparr>wk_drop_ack := False\<rparr>, s1, Some Ack_lost)
               else (case complete tenant i s1 of
                       (s2, Inl x) \<Rightarrow> (w1, s2, Some (Engine_failed x))
                     | (s2, Inr _) \<Rightarrow> (w1, s2, None))))"

definition dispatch_job ::
  "(job \<Rightarrow> bool) option \<Rightarrow> tick_env \<Rightarrow> job \<Rightarrow> worker \<Rightarrow> database \<Rightarrow> worker \<times> database \<times> tick_error option" where
  "dispatch_job publisher e j w s =
     (case publisher of
        Some publish \<Rightarrow>
          if publish j
          then (case dispatched j s of
                  (s1, Inl x) \<Rightarrow> (w, s1, Some (Engine_failed x))
                | (s1, Inr _) \<Rightarrow> (w, s1, None))
          else (w, s, Some Publish_failed)
      | None \<Rightarrow> consume (te_ids e 1) (te_times e 1) (job_tenant j) (job_id j) w s)"

definition tick ::
  "(job \<Rightarrow> bool) option \<Rightarrow> tick_env \<Rightarrow> worker \<Rightarrow> database \<Rightarrow> worker \<times> database \<times> tick_error option" where
  "tick publisher e w s =
     (if wk_paused w \<or> breaker_open (te_clock e 0) w then (w, s, None)
      else case claim (te_ids e 0) (unix_milli (te_clock e 1)) s of
          (s1, Inl x) \<Rightarrow> (w, s1, Some (Engine_failed x))
        | (s1, Inr None) \<Rightarrow> (w, s1, None)
        | (s1, Inr (Some j)) \<Rightarrow>
            (case dispatch_job publisher e j w s1 of
               (w2, s2, None) \<Rightarrow> (mark_success w2, s2, None)
             | (w2, s2, Some x) \<Rightarrow>
                 let w3 = mark_failure (te_clock e 2) w2
                 in (case fail_job (te_ids e 2) (te_times e 2) j
                         (unix_milli (te_clock e 3 + backoff (te_random e) (int (job_attempts j)))) s2 of
                       (s3, Inl y) \<Rightarrow> (w3, s3, Some (Engine_failed y))
                     | (s3, Inr _) \<Rightarrow> (w3, s3, Some x))))"

definition worker_release :: "(nat \<Rightarrow> ids) \<Rightarrow> (nat \<Rightarrow> times) \<Rightarrow> int \<Rightarrow> database \<Rightarrow> database \<times> (engine_error + unit)" where
  "worker_release u t now s = release_expired u t (unix_milli now) s"

definition reset_local_demo ::
  "bool \<Rightarrow> (job \<Rightarrow> bool) option \<Rightarrow> ids \<Rightarrow> worker \<Rightarrow> database \<Rightarrow> worker \<times> database \<times> (engine_error + string)" where
  "reset_local_demo postgres publisher u w s =
     (if postgres \<or> publisher \<noteq> None
      then (w, s, Inl ErrStorage)
      else case reset_demo u s of
          (s1, Inl x) \<Rightarrow> (w, s1, Inl x)
        | (s1, Inr g) \<Rightarrow> ((mark_success (w\<lparr>wk_fail_next := 0, wk_drop_ack := False\<rparr>))\<lparr>wk_paused := False\<rparr>, s1, Inr g))"

text \<open>\<open>Run\<close>: ticks and sweeps in the order the tickers fire; an error is only logged.\<close>

datatype worker_event = W_tick tick_env | W_sweep "nat \<Rightarrow> ids" "nat \<Rightarrow> times" int

fun run_worker :: "(job \<Rightarrow> bool) option \<Rightarrow> worker_event list \<Rightarrow> worker \<Rightarrow> database \<Rightarrow> worker \<times> database" where
  "run_worker publisher [] w s = (w, s)"
| "run_worker publisher (W_tick e # evs) w s =
     (case tick publisher e w s of (w', s', _) \<Rightarrow> run_worker publisher evs w' s')"
| "run_worker publisher (W_sweep u t now # evs) w s =
     run_worker publisher evs w (fst (worker_release u t now s))"

subsection \<open>A worker only takes the engine's steps\<close>

text \<open>A property that every transaction keeps, and what keeps it.\<close>

locale step_closed =
  fixes digest :: "payload \<Rightarrow> string" and holds :: "database \<Rightarrow> bool"
  assumes closed: "holds s \<Longrightarrow> engine_step digest s s' \<Longrightarrow> holds s'"
begin

lemma transactions:
  assumes "holds s"
  shows "claim u now s = (s', r1) \<Longrightarrow> holds s'"
    and "process u t tenant i s = (s', r2) \<Longrightarrow> holds s'"
    and "complete tenant i s = (s', r3) \<Longrightarrow> holds s'"
    and "dispatched j s = (s', r4) \<Longrightarrow> holds s'"
    and "fail_job u t j next s = (s', r5) \<Longrightarrow> holds s'"
    and "release u t tenant i now s = (s', r6) \<Longrightarrow> holds s'"
  using closed [OF assms e_claim [of digest s u now]] closed [OF assms e_process [of digest s u t tenant i]]
    closed [OF assms e_complete [of digest s tenant i]] closed [OF assms e_dispatched [of digest s j]]
    closed [OF assms e_fail [of digest s u t j "next"]] closed [OF assms e_release [of digest s u t tenant i now]]
  by simp_all

lemma consumed:
  assumes "holds s" and "consume u t tenant i w s = (w', s', x)" shows "holds s'"
  using assms
  by (auto simp: consume_def consume_fault_def split: prod.splits sum.splits bool.splits if_splits dest: transactions(2,3))

lemma job_dispatched:
  assumes "holds s" and "dispatch_job publisher e j w s = (w', s', x)" shows "holds s'"
  using assms
  by (auto simp: dispatch_job_def split: option.splits prod.splits sum.splits if_splits dest: transactions(4) consumed)

lemma ticked:
  assumes "holds s" shows "holds (fst (snd (tick publisher e w s)))"
  using assms
  by (auto simp: tick_def Let_def split: prod.split sum.split option.split; metis transactions(1,5) job_dispatched)

lemma swept: "holds s \<Longrightarrow> holds (fst (release_all u t now xs s))"
  by (induction xs arbitrary: s) (auto split: prod.split sum.split dest: transactions(6))

lemma worked: "holds s \<Longrightarrow> holds (snd (run_worker publisher evs w s))"
proof (induction publisher evs w s rule: run_worker.induct)
  case (2 publisher e evs w s)
  then show ?case using ticked [of s publisher e w] by (auto split: prod.split)
qed (simp_all add: worker_release_def release_expired_def swept)

end

interpretation reached_db: step_closed digest "engine_reaches digest" for digest
  by unfold_locales (auto simp: engine_reaches_def demo_step_def intro: rtranclp.rtrancl_into_rtrancl)

interpretation later_db: step_closed digest "(engine_step digest)\<^sup>*\<^sup>* s0" for digest s0
  by unfold_locales (rule rtranclp.rtrancl_into_rtrancl)

subsection \<open>A healthy worker drains the queue\<close>

definition live :: "outbox_row \<Rightarrow> bool" where
  "live b \<longleftrightarrow> ob_state b \<in> {O_pending, O_leased}"

definition waiting :: "database \<Rightarrow> nat" where
  "waiting s = length (filter live (db_outbox s))"

text \<open>All open work may be claimed from time \<open>T\<close> on, and none is with another transport.\<close>

definition due_by :: "int \<Rightarrow> database \<Rightarrow> bool" where
  "due_by T s \<longleftrightarrow> list_all (\<lambda>b. ob_state b \<noteq> O_dispatched \<and> (live b \<longrightarrow> ob_next b \<le> T \<and> ob_lease b \<le> T)) (db_outbox s)"

text \<open>
  No row is out with a publisher, and the time from which every open row may be claimed: its backoff
  and its lease have run out.
\<close>

definition none_dispatched :: "database \<Rightarrow> bool" where
  "none_dispatched s = list_all (\<lambda>b. ob_state b \<noteq> O_dispatched) (db_outbox s)"

definition last_due :: "database \<Rightarrow> int" where
  "last_due s = fold max (concat (map (\<lambda>b. [ob_next b, ob_lease b]) (filter live (db_outbox s)))) 0"

lemma fold_max_ge: "z \<le> fold max xs z \<and> (\<forall>x \<in> set xs. x \<le> fold max xs z)" for z :: int
proof (induction xs arbitrary: z)
  case (Cons x xs)
  show ?case using Cons.IH [of "max x z"] by auto
qed simp

lemma due_by_last: "none_dispatched s \<Longrightarrow> due_by (last_due s) s"
  using fold_max_ge [of 0 "concat (map (\<lambda>b. [ob_next b, ob_lease b]) (filter live (db_outbox s)))"]
  by (auto simp: none_dispatched_def due_by_def last_due_def list_all_iff)

definition healthy :: "worker \<Rightarrow> bool" where
  "healthy w \<longleftrightarrow> \<not> wk_paused w \<and> wk_fail_next w \<le> 0 \<and> \<not> wk_drop_ack w"

lemma array_at_in: "array_at xs i = Some x \<Longrightarrow> x \<in> set xs"
  by (auto simp: array_at_def split: if_splits)

lemma next_due_Some: "next_due now s = Some b \<Longrightarrow> b \<in> set (db_outbox s) \<and> due now b"
  unfolding next_due_def by (drule array_at_in) simp

lemma next_due_None: "next_due now s = None \<Longrightarrow> \<forall>b \<in> set (db_outbox s). \<not> due now b"
  by (auto simp: next_due_def array_at_def filter_empty_conv split: if_splits)

lemma filter_update_fewer:
  assumes "\<And>x. p (f x) = p x" and "\<And>x. \<not> q (g x)" and "x \<in> set rows" and "p x" and "q x"
  shows "length (filter q (update_where p g (update_where p f rows))) < length (filter q rows)"
proof -
  have "filter q (update_where p g (update_where p f rows)) = filter (\<lambda>x. q x \<and> \<not> p x) rows"
    using assms(1,2) by (induction rows) auto
  moreover have "length (filter (\<lambda>x. q x \<and> \<not> p x) rows) < length (filter q rows)"
    using length_filter_less [of x "filter q rows" "\<lambda>x. \<not> p x"] assms(3-5) by (simp add: conj_commute)
  ultimately show ?thesis by simp
qed

lemma all_update_twice:
  assumes "\<And>x. p (f x) = p x" and "\<And>x. q (g x)" and "list_all q rows"
  shows "list_all q (update_where p g (update_where p f rows))"
  using assms by (induction rows) simp_all

text \<open>What completing a claimed row makes of the outbox.\<close>

definition finished :: "string \<Rightarrow> string \<Rightarrow> outbox_row list \<Rightarrow> outbox_row list" where
  "finished tenant i rows = update_where (\<lambda>b. ob_tenant b = tenant \<and> ob_id b = i)
     (\<lambda>b. b\<lparr>ob_state := O_done, ob_owner := [], ob_lease := 0\<rparr>) rows"

lemma claim_result:
  assumes "schema_ok s" and "next_due now s = Some b"
  shows "claim u now s = (s\<lparr>db_outbox := update_where (\<lambda>x. ob_tenant x = ob_tenant b \<and> ob_id x = ob_id b)
       (\<lambda>x. x\<lparr>ob_state := O_leased, ob_owner := u 0, ob_lease := now + lease_time, ob_attempts := Suc (ob_attempts x)\<rparr>)
       (db_outbox s)\<rparr>,
     Inr (Some \<lparr>job_tenant = ob_tenant b, job_id = ob_id b, job_owner = u 0, job_attempts = Suc (ob_attempts b)\<rparr>))"
  using schema_queue(1) [OF assms(1)] assms(2) by (simp add: claim_def commit_ok outbox_key_def delivery_fixed_def)

lemma complete_result:
  assumes "schema_ok s" and "(tenant, i) \<in> set (map delivery_key (db_deliveries s))"
    and "\<And>d. d \<in> set (db_deliveries s) \<Longrightarrow> delivery_key d = (tenant, i) \<Longrightarrow> dr_status d \<noteq> Accepted"
  shows "complete tenant i s = (s\<lparr>db_outbox := finished tenant i (db_outbox s)\<rparr>, Inr ())"
proof (cases "array_find (\<lambda>d. dr_tenant d = tenant \<and> dr_id d = i) (db_deliveries s)")
  case None
  with assms(2) show ?thesis by (auto simp: delivery_key_def)
next
  case (Some d)
  then have "dr_status d \<noteq> Accepted" using assms(3) by (auto simp: delivery_key_def dest!: array_find_SomeD)
  with Some show ?thesis
    using schema_queue(1) [OF assms(1)] by (simp add: complete_def commit_ok outbox_key_def delivery_fixed_def finished_def)
qed

lemma healthy_consume:
  assumes "sound_db s" and "healthy w" and "(tenant, i) \<in> set (map delivery_key (db_deliveries s))"
    and "u 0 \<notin> set (map aud_id (db_audit s))"
  obtains s' where "consume u t tenant i w s = (w, s', None)" and "db_outbox s' = finished tenant i (db_outbox s)"
    and "set (map aud_id (db_audit s')) \<subseteq> insert (u 0) (set (map aud_id (db_audit s)))"
proof -
  obtain s1 st where run: "process u t tenant i s = (s1, Inr st)"
    using process_commits(2) [where u = u, OF assms(1,4,3)] by blast
  note res = process_result [OF assms(1) run]
  have "schema_ok s1" using process_sound [OF assms(1), of u t tenant i] run by (simp add: sound_db_def)
  then have "complete tenant i s1 = (s1\<lparr>db_outbox := finished tenant i (db_outbox s1)\<rparr>, Inr ())"
    by (rule complete_result) (use res(1-3) in auto)
  with run assms(2) have "consume u t tenant i w s = (w, s1\<lparr>db_outbox := finished tenant i (db_outbox s1)\<rparr>, None)"
    by (simp add: consume_def consume_fault_def healthy_def)
  then show thesis by (rule that) (use res(5,6) in auto)
qed

lemma healthy_tick:
  assumes "sound_db s" and "healthy w" and "\<not> breaker_open (te_clock e 0) w" and "due_by T s"
    and "te_ids e 1 0 \<notin> set (map aud_id (db_audit s))"
  obtains (idle) "T \<le> unix_milli (te_clock e 1) \<longrightarrow> waiting s = 0" and "tick None e w s = (w, s, None)"
  | (works) s' where "tick None e w s = (mark_success w, s', None)" and "waiting s' < waiting s" and "due_by T s'"
      and "set (map aud_id (db_audit s')) \<subseteq> insert (te_ids e 1 0) (set (map aud_id (db_audit s)))"
proof (cases "next_due (unix_milli (te_clock e 1)) s")
  case None
  have "T \<le> unix_milli (te_clock e 1) \<longrightarrow> waiting s = 0"
    using next_due_None [OF None] assms(4)
    by (fastforce simp: waiting_def due_by_def list_all_iff live_def due_def filter_empty_conv)
  moreover have "tick None e w s = (w, s, None)" using None assms(2,3) by (simp add: tick_def claim_def healthy_def)
  ultimately show thesis by (rule idle)
next
  case (Some b)
  let ?k = "\<lambda>x. ob_tenant x = ob_tenant b \<and> ob_id x = ob_id b"
  note ok = soundD(1) [OF assms(1)] and b = next_due_Some [OF Some]
  note cl = claim_result [OF ok Some, of "te_ids e 0"]
  define s1 where "s1 = fst (claim (te_ids e 0) (unix_milli (te_clock e 1)) s)"
  have s1: "sound_db s1" unfolding s1_def by (rule claim_sound [OF assms(1)])
  have same: "db_deliveries s1 = db_deliveries s" "db_audit s1 = db_audit s" unfolding s1_def cl by simp_all
  have out1: "db_outbox s1 = update_where ?k (\<lambda>x. x\<lparr>ob_state := O_leased, ob_owner := te_ids e 0 0,
      ob_lease := unix_milli (te_clock e 1) + lease_time, ob_attempts := Suc (ob_attempts x)\<rparr>) (db_outbox s)"
    unfolding s1_def cl by simp
  have "outbox_key b \<in> set (map delivery_key (db_deliveries s1))"
    using ok b unfolding same by (auto simp: schema_ok_def)
  then obtain s' where run: "consume (te_ids e 1) (te_times e 1) (ob_tenant b) (ob_id b) w s1 = (w, s', None)"
    and out: "db_outbox s' = finished (ob_tenant b) (ob_id b) (db_outbox s1)"
    and aud: "set (map aud_id (db_audit s')) \<subseteq> insert (te_ids e 1 0) (set (map aud_id (db_audit s)))"
    using healthy_consume [OF s1 assms(2), of "ob_tenant b" "ob_id b" "te_ids e 1" "te_times e 1"] assms(5)
    by (metis outbox_key_def same(2))
  have "tick None e w s = (mark_success w, s', None)"
    using run assms(2,3) unfolding s1_def cl by (simp add: tick_def dispatch_job_def cl healthy_def del: One_nat_def)
  moreover have "waiting s' < waiting s"
    unfolding waiting_def out finished_def out1
    by (rule filter_update_fewer [where x = b]) (use b in \<open>auto simp: live_def due_def\<close>)
  moreover have "due_by T s'"
    using assms(4) unfolding due_by_def out finished_def out1
    by (rule all_update_twice [rotated -1]) (simp_all add: live_def)
  ultimately show thesis using aud by (rule works)
qed

text \<open>The audit identifiers that a list of ticks uses up are new and different.\<close>

definition fresh_ticks :: "tick_env list \<Rightarrow> database \<Rightarrow> bool" where
  "fresh_ticks es s \<longleftrightarrow> distinct (map (\<lambda>e. te_ids e 1 0) es) \<and>
     list_all (\<lambda>e. te_ids e 1 0 \<notin> set (map aud_id (db_audit s))) es"

text \<open>A tick that can make progress: every open row has come due and the breaker is closed.\<close>

definition useful :: "int \<Rightarrow> worker \<Rightarrow> tick_env \<Rightarrow> bool" where
  "useful T w e \<longleftrightarrow> T \<le> unix_milli (te_clock e 1) \<and> \<not> breaker_open (te_clock e 0) w"

lemma useful_success: "length (filter (useful T w) es) \<le> length (filter (useful T (mark_success w)) es)"
  by (induction es) (auto simp: useful_def breaker_open_def mark_success_def)

lemma ticks_drain:
  assumes "engine_reaches digest s" and "healthy w" and "due_by T s" and "fresh_ticks es s"
    and "waiting s \<le> length (filter (useful T w) es)"
  shows "waiting (snd (run_worker None (map W_tick es) w s)) = 0 \<and> due_by T (snd (run_worker None (map W_tick es) w s))"
  using assms
proof (induction es arbitrary: w s)
  case (Cons e es)
  have new: "te_ids e 1 0 \<notin> set (map aud_id (db_audit s))" and rest: "fresh_ticks es s"
    using Cons.prems(4) by (simp_all add: fresh_ticks_def)
  show ?case
  proof (cases "breaker_open (te_clock e 0) w")
    case True
    then have "tick None e w s = (w, s, None)" by (simp add: tick_def)
    moreover have "waiting s \<le> length (filter (useful T w) es)" using True Cons.prems(5) by (simp add: useful_def [of T w e])
    ultimately show ?thesis using Cons.IH [OF Cons.prems(1-3) rest] by simp
  next
    case False
    show ?thesis
      using reaches_sound_db [OF Cons.prems(1)] Cons.prems(2) False Cons.prems(3) new
    proof (cases rule: healthy_tick)
      case idle
      then have "waiting s \<le> length (filter (useful T w) es)" using Cons.prems(5) by (auto simp: useful_def [of T w e] split: if_splits)
      then show ?thesis using idle(2) Cons.IH [OF Cons.prems(1-3) rest] by simp
    next
      case (works s')
      have "te_ids x 1 0 \<notin> set (map aud_id (db_audit s'))" if "x \<in> set es" for x
      proof -
        from that Cons.prems(4) have "te_ids x 1 0 \<noteq> te_ids e 1 0" "te_ids x 1 0 \<notin> set (map aud_id (db_audit s))"
          by (auto simp: fresh_ticks_def list_all_iff rev_image_eqI)
        with works(4) show ?thesis by blast
      qed
      then have "fresh_ticks es s'" using Cons.prems(4) by (simp add: fresh_ticks_def list_all_iff)
      moreover have "engine_reaches digest s'" using reached_db.ticked [OF Cons.prems(1), of None e w] works(1) by simp
      moreover have "healthy (mark_success w)" using Cons.prems(2) by (simp add: healthy_def mark_success_def)
      moreover have "waiting s' \<le> length (filter (useful T (mark_success w)) es)"
        using works(2) Cons.prems(5) useful_success [of T w es] by (auto split: if_splits)
      ultimately show ?thesis using Cons.IH [of s' "mark_success w"] works(1,3) by simp
    qed
  qed
qed simp

text \<open>
  C19. A healthy worker drains the queue. From any database the engine can reach in which no row is out with
  a publisher, let a local worker that is not paused and has no fault injected tick any number of times, with
  fresh audit identifiers. If at least as many of these ticks as there are open rows come when every
  open row's backoff and lease have run out and the breaker is closed, then in the end no work is open and every
  accepted receipt has its decision. Ticks that come too early do no harm.
\<close>

theorem queue_drains:
  assumes "engine_reaches digest s" and "healthy w" and "none_dispatched s" and "fresh_ticks es s"
    and "waiting s \<le> length (filter (useful (last_due s) w) es)"
  shows "waiting (snd (run_worker None (map W_tick es) w s)) = 0 \<and>
    (\<forall>d \<in> set (db_deliveries (snd (run_worker None (map W_tick es) w s))). dr_status d \<noteq> Accepted)"
proof -
  let ?s' = "snd (run_worker None (map W_tick es) w s)"
  have "queued ?s'" by (rule soundD(4) [OF reaches_sound_db [OF reached_db.worked [OF assms(1)]]])
  with ticks_drain [OF assms(1,2) due_by_last [OF assms(3)] assms(4,5)] show ?thesis
    by (fastforce simp: queued_def waiting_def due_by_def filter_empty_conv live_def list_all_iff)
qed

definition day_worker :: worker where
  "day_worker = \<lparr>wk_paused = False, wk_fail_next = 0, wk_drop_ack = False, wk_failures = 0, wk_open_until = None\<rparr>"

definition day_tick :: "string \<Rightarrow> tick_env" where
  "day_tick p = \<lparr>te_clock = (\<lambda>_. 1000000000), te_ids = (\<lambda>n. day_ids (dec n @ p)), te_times = (\<lambda>_. day_times), te_random = (\<lambda>n. n - 1)\<rparr>"

lemma day_due:
  "healthy day_worker" "none_dispatched day2" "fresh_ticks [day_tick ''c'', day_tick ''d''] day2"
  "waiting day2 \<le> length (filter (useful (last_due day2) day_worker) [day_tick ''c'', day_tick ''d''])"
  by (simp_all add: healthy_def day_worker_def none_dispatched_def useful_def last_due_def fresh_ticks_def waiting_def live_def day_tick_def breaker_open_def
      unix_milli_def day_simps)

theorem queue_drains_witness:
  "list_all (\<lambda>d. dr_status d \<noteq> Accepted)
     (db_deliveries (snd (run_worker None (map W_tick [day_tick ''c'', day_tick ''d'']) day_worker day2)))"
  using queue_drains [OF day_reaches(3) day_due] by (simp add: list_all_iff)

subsection \<open>Failed dispatches\<close>

lemma backoff_bounds:
  assumes "\<And>n. 0 < n \<Longrightarrow> 0 \<le> rnd n \<and> rnd n < n"
  shows "250000000 \<le> backoff rnd a \<and> backoff rnd a \<le> 12000000000"
proof -
  define c where "c = (if 6 < (if a < 1 then 1 else a) then 6 else if a < 1 then 1 else a)"
  define base :: int where "base = push_bit (nat (c - 1)) 1 * 250 * 1000000"
  have "nat (c - 1) \<in> {0, 1, 2, 3, 4, 5}" by (auto simp: c_def)
  then have base: "250000000 \<le> base \<and> base \<le> 8000000000" by (auto simp: base_def)
  moreover from base have "0 \<le> base div 2" "base div 2 \<le> 4000000000" by linarith+
  moreover from this(1) have "0 \<le> rnd (base div 2 + 1) \<and> rnd (base div 2 + 1) < base div 2 + 1" by (intro assms) linarith
  moreover have "backoff rnd a = base + rnd (base div 2 + 1)" by (simp add: backoff_def c_def base_def Let_def)
  ultimately show ?thesis by linarith
qed

lemma milli_after:
  assumes "k * 1000000 \<le> d" and "d \<le> m * 1000000"
  shows "unix_milli n + k \<le> unix_milli (n + d) \<and> unix_milli (n + d) \<le> unix_milli n + m"
  unfolding unix_milli_def using assms by linarith

lemma fail_job_result:
  assumes "schema_ok s" and "u 0 \<notin> set (map aud_id (db_audit s))" and "b \<in> set (db_outbox s)" and "owned j b"
  obtains s' where "fail_job u t j next s = (s', Inr ())"
    and "db_campaigns s' = db_campaigns s" and "db_reservations s' = db_reservations s"
    and "b\<lparr>ob_state := (if 5 \<le> job_attempts j then O_dead else O_pending), ob_owner := [], ob_lease := 0, ob_next := next\<rparr>
      \<in> set (db_outbox s')"
    and "job_attempts j < 5 \<longrightarrow> db_deliveries s' = db_deliveries s"
    and "5 \<le> job_attempts j \<longrightarrow> db_deliveries s' = update_where
      (\<lambda>d. dr_tenant d = job_tenant j \<and> dr_id d = job_id j \<and> dr_status d = Accepted)
      (\<lambda>d. d\<lparr>dr_status := Failed, dr_reason := ''dispatch_retries_exhausted''\<rparr>) (db_deliveries s)"
proof -
  have run: "snd (fail_job u t j next s) = Inr ()"
    using queue_commits(3) [where u = u, OF assms(1,2), of t j "next"]
    by (auto simp: fail_job_def Let_def commit_def split: if_splits)
  have on: "affected (owned j) (db_outbox s) \<noteq> 0" using assms(3,4) by (auto simp: affected_iff)
  let ?s' = "fst (fail_job u t j next s)"
  have "?s' = add_audit (u 0) (t 0) (job_tenant j) ''retry'' (job_id j) (ostate_name (if 5 \<le> job_attempts j then O_dead else O_pending))
      (if 5 \<le> job_attempts j
       then s\<lparr>db_outbox := update_where (owned j) (\<lambda>b. b\<lparr>ob_state := O_dead, ob_owner := [], ob_lease := 0, ob_next := next\<rparr>) (db_outbox s),
         db_deliveries := update_where (\<lambda>d. dr_tenant d = job_tenant j \<and> dr_id d = job_id j \<and> dr_status d = Accepted)
           (\<lambda>d. d\<lparr>dr_status := Failed, dr_reason := ''dispatch_retries_exhausted''\<rparr>) (db_deliveries s)\<rparr>
       else s\<lparr>db_outbox := update_where (owned j) (\<lambda>b. b\<lparr>ob_state := O_pending, ob_owner := [], ob_lease := 0, ob_next := next\<rparr>) (db_outbox s)\<rparr>)"
    using run on by (auto simp: fail_job_def Let_def commit_def split: if_splits)
  note s' = this
  show thesis
  proof (rule that [of ?s'])
    show "fail_job u t j next s = (?s', Inr ())" using run by (simp add: prod_eq_iff)
    show "b\<lparr>ob_state := (if 5 \<le> job_attempts j then O_dead else O_pending), ob_owner := [], ob_lease := 0, ob_next := next\<rparr>
        \<in> set (db_outbox ?s')"
      unfolding s' using assms(3,4) by (auto simp: set_update_where intro!: bexI [of _ b])
  qed (auto simp: s')
qed

text \<open>The transport refuses the job: a fault of the failure lab, or a publisher that fails.\<close>

definition transport_fails :: "(job \<Rightarrow> bool) option \<Rightarrow> job \<Rightarrow> worker \<Rightarrow> bool" where
  "transport_fails publisher j w = (case publisher of None \<Rightarrow> 0 < wk_fail_next w | Some publish \<Rightarrow> \<not> publish j)"

definition claimed_job :: "tick_env \<Rightarrow> outbox_row \<Rightarrow> job" where
  "claimed_job e b = \<lparr>job_tenant = ob_tenant b, job_id = ob_id b, job_owner = te_ids e 0 0, job_attempts = Suc (ob_attempts b)\<rparr>"

text \<open>
  C30. A dispatch whose transport fails, because the publisher refuses the job or a fault of the failure
  lab is injected before the reconciliation, is bounded: it moves no money, and the claimed row is either
  pending again, to be retried between 250 ms and 12 s later, with every receipt as it was, or, from
  the fifth attempt on, dead: then its receipt, if it was still accepted, is failed with the reason
  \<open>dispatch_retries_exhausted\<close> and every other receipt is as it was. The third failure in a row opens the
  breaker for two seconds. (A lost acknowledgement is another matter: the reconciliation is committed by then.)
\<close>

theorem failed_dispatch_is_bounded:
  assumes "engine_reaches digest s" and "\<not> wk_paused w" and "\<not> breaker_open (te_clock e 0) w"
    and "next_due (unix_milli (te_clock e 1)) s = Some b" and "transport_fails publisher (claimed_job e b) w"
    and "te_ids e 2 0 \<notin> set (map aud_id (db_audit s))" and "\<And>n. 0 < n \<Longrightarrow> 0 \<le> te_random e n \<and> te_random e n < n"
  shows "\<exists>w' s' x b'. tick publisher e w s = (w', s', Some x) \<and> x \<in> {Injected_failure, Publish_failed} \<and>
    db_campaigns s' = db_campaigns s \<and> db_reservations s' = db_reservations s \<and>
    wk_failures w' = Suc (wk_failures w) \<and>
    (2 \<le> wk_failures w \<longrightarrow> wk_open_until w' = Some (te_clock e 2 + 2000000000)) \<and>
    b' \<in> set (db_outbox s') \<and> outbox_key b' = outbox_key b \<and> ob_attempts b' = Suc (ob_attempts b) \<and>
    (if ob_attempts b < 4
     then ob_state b' = O_pending \<and> db_deliveries s' = db_deliveries s \<and>
       unix_milli (te_clock e 3) + 250 \<le> ob_next b' \<and> ob_next b' \<le> unix_milli (te_clock e 3) + 12000
     else ob_state b' = O_dead \<and> db_deliveries s' =
       map (\<lambda>d. if delivery_key d = outbox_key b \<and> dr_status d = Accepted
                 then d\<lparr>dr_status := Failed, dr_reason := ''dispatch_retries_exhausted''\<rparr> else d) (db_deliveries s))"
proof -
  note s = reaches_sound_db [OF assms(1)]
  note cl = claim_result [OF soundD(1) [OF s] assms(4), of "te_ids e 0", folded claimed_job_def]
  let ?j = "claimed_job e b" and ?now = "unix_milli (te_clock e 1)"
  let ?at = "te_clock e 3 + backoff (te_random e) (int (job_attempts ?j))"
  define s1 where "s1 = fst (claim (te_ids e 0) ?now s)"
  define b1 where "b1 = b\<lparr>ob_state := O_leased, ob_owner := te_ids e 0 0, ob_lease := ?now + lease_time, ob_attempts := Suc (ob_attempts b)\<rparr>"
  have ok: "schema_ok s1" unfolding s1_def by (rule soundD(1) [OF claim_sound [OF s]])
  have same: "db_audit s1 = db_audit s" "db_campaigns s1 = db_campaigns s" "db_reservations s1 = db_reservations s"
    "db_deliveries s1 = db_deliveries s" unfolding s1_def cl by simp_all
  have b1: "b1 \<in> set (db_outbox s1)"
    using next_due_Some [OF assms(4)] unfolding s1_def cl b1_def by (auto simp: set_update_where)
  have own: "owned ?j b1" by (simp add: owned_def b1_def claimed_job_def)
  obtain w2 x where run: "dispatch_job publisher e ?j w s1 = (w2, s1, Some x)" "x \<in> {Injected_failure, Publish_failed}"
    "wk_failures w2 = wk_failures w"
    using assms(5) by (auto simp: dispatch_job_def transport_fails_def consume_def consume_fault_def split: option.splits)
  have new: "te_ids e 2 0 \<notin> set (map aud_id (db_audit s1))" unfolding same by (rule assms(6))
  obtain s' where "fail_job (te_ids e 2) (te_times e 2) ?j (unix_milli ?at) s1 = (s', Inr ())"
    and s': "db_campaigns s' = db_campaigns s" "db_reservations s' = db_reservations s"
      "b1\<lparr>ob_state := (if 5 \<le> job_attempts ?j then O_dead else O_pending), ob_owner := [], ob_lease := 0, ob_next := unix_milli ?at\<rparr>
        \<in> set (db_outbox s')"
      "job_attempts ?j < 5 \<longrightarrow> db_deliveries s' = db_deliveries s"
      "5 \<le> job_attempts ?j \<longrightarrow> db_deliveries s' = update_where
        (\<lambda>d. dr_tenant d = job_tenant ?j \<and> dr_id d = job_id ?j \<and> dr_status d = Accepted)
        (\<lambda>d. d\<lparr>dr_status := Failed, dr_reason := ''dispatch_retries_exhausted''\<rparr>) (db_deliveries s)"
    by (rule fail_job_result [where u = "te_ids e 2", OF ok new b1 own, of "te_times e 2" "unix_milli ?at", unfolded same]) blast
  moreover have "claim (te_ids e 0) ?now s = (s1, Inr (Some ?j))" by (simp only: s1_def cl fst_conv)
  ultimately have "tick publisher e w s = (mark_failure (te_clock e 2) w2, s', Some x)"
    using run assms(2,3) by (simp add: tick_def Let_def del: One_nat_def)
  moreover have "unix_milli (te_clock e 3) + 250 \<le> unix_milli ?at \<and> unix_milli ?at \<le> unix_milli (te_clock e 3) + 12000"
    using backoff_bounds [OF assms(7)] by (intro milli_after) auto
  moreover have "wk_failures (mark_failure (te_clock e 2) w2) = Suc (wk_failures w)"
    "2 \<le> wk_failures w \<longrightarrow> wk_open_until (mark_failure (te_clock e 2) w2) = Some (te_clock e 2 + 2000000000)"
    using run(3) by (simp_all add: mark_failure_def Let_def)
  ultimately show ?thesis using run(2) s'
    by (intro exI [of _ "mark_failure (te_clock e 2) w2"] exI [of _ s'] exI [of _ x] exI, intro conjI)
       (assumption | rule s'(3) | simp add: b1_def claimed_job_def outbox_key_def delivery_key_def update_where_def)+
qed

lemma day_next: "next_due 1000 day2 = Some (day_job ''a'')"
  by (simp add: next_due_def due_def day2_def day_db_def day_job_def)

theorem failed_dispatch_is_bounded_witness:
  "\<exists>w' s' x. tick None (day_tick ''c'') (day_worker\<lparr>wk_fail_next := 1\<rparr>) day2 = (w', s', Some x) \<and>
    db_campaigns s' = db_campaigns day2 \<and> db_deliveries s' = db_deliveries day2"
proof -
  let ?w = "day_worker\<lparr>wk_fail_next := 1\<rparr>"
  have "\<not> wk_paused ?w" "\<not> breaker_open (te_clock (day_tick ''c'') 0) ?w"
    "next_due (unix_milli (te_clock (day_tick ''c'') 1)) day2 = Some (day_job ''a'')"
    "transport_fails None (claimed_job (day_tick ''c'') (day_job ''a'')) ?w"
    "te_ids (day_tick ''c'') 2 0 \<notin> set (map aud_id (db_audit day2))"
    by (simp_all add: day_worker_def day_tick_def breaker_open_def unix_milli_def day_next transport_fails_def)
       (simp add: day_simps)
  note ok = this
  have "ob_attempts (day_job ''a'') < 4" by (simp add: day_job_def)
  then show ?thesis
    using failed_dispatch_is_bounded [OF day_reaches(3) ok] by (simp add: day_tick_def) blast
qed

end
