(* ===== verification/Snapshots.thy ===== *)
theory Snapshots
  imports Accounts
begin

text \<open>
  \<open>Snapshot\<close> of \<open>internal/core/store.go\<close>: what the console polls, read in one transaction. The position
  of a screen is not kept, the console's map takes it as an argument; the age of the oldest receipt
  that waits, a field the console does not read, is \<open>oldest_pending\<close>.
\<close>

subsection \<open>The queries\<close>

text \<open>\<open>ORDER BY created DESC,id LIMIT n\<close>.\<close>

definition newest :: "nat \<Rightarrow> ('r \<Rightarrow> int) \<Rightarrow> ('r \<Rightarrow> string) \<Rightarrow> 'r list \<Rightarrow> 'r list" where
  "newest n created ident rows = take n (sort_key (\<lambda>r. - created r) (sort_key ident rows))"

definition delivery_view :: "delivery_row \<Rightarrow> delivery option" where
  "delivery_view d = map_option (\<lambda>p. \<lparr>dlv_id = dr_id d, dlv_receipt = p, dlv_status = dr_status d,
     dlv_reason = dr_reason d, dlv_received = dr_created d, dlv_attempts = dr_attempts d\<rparr>) (as_receipt (dr_payload d))"

definition oldest_pending :: "int \<Rightarrow> string \<Rightarrow> database \<Rightarrow> int" where
  "oldest_pending now tenant s =
     (case map dr_created (filter (\<lambda>d. dr_tenant d = tenant \<and> dr_status d = Accepted) (db_deliveries s)) of
        [] \<Rightarrow> 0 | t # ts \<Rightarrow> now - fold min ts t)"

definition snapshot_of :: "int \<Rightarrow> string \<Rightarrow> database \<Rightarrow> engine_error + snapshot" where
  "snapshot_of now tenant s =
     (case those (map delivery_view (newest 100 dr_created dr_id (filter (\<lambda>d. dr_tenant d = tenant) (db_deliveries s)))) of
        None \<Rightarrow> Inl ErrStorage
      | Some ds \<Rightarrow> Inr \<lparr>
          snp_campaigns = map campaign.truncate (sort_key cmp_id (filter (\<lambda>c. cmp_tenant c = tenant) (db_campaigns s))),
          snp_screens = sort_key scr_id (db_screens s),
          snp_reservations = map reservation.truncate
            (newest 100 rsv_created rsv_id (filter (\<lambda>r. rsv_tenant r = tenant) (db_reservations s))),
          snp_deliveries = ds,
          snp_audit = map audit_entry.truncate (newest 80 aud_created aud_id (filter (\<lambda>a. aud_tenant a = tenant) (db_audit s))),
          snp_counts = (\<lambda>st. count_where (\<lambda>d. dr_tenant d = tenant \<and> dr_status d = st) (db_deliveries s)),
          snp_now = now\<rparr>)"

subsection \<open>Stored payloads are receipts\<close>

definition payloads_ok :: "database \<Rightarrow> bool" where
  "payloads_ok s \<longleftrightarrow> list_all (\<lambda>b. as_receipt b \<noteq> None) (map dr_payload (db_deliveries s))"

text \<open>All transactions but acceptance keep the list of payloads.\<close>

lemma payloads_same: "payloads_ok s \<Longrightarrow> map dr_payload (db_deliveries s') = map dr_payload (db_deliveries s) \<Longrightarrow> payloads_ok s'"
  by (simp add: payloads_ok_def)

lemma payloads_step:
  assumes "engine_step digest s s'" and "payloads_ok s" shows "payloads_ok s'"
  using assms
proof cases
  case (e_accept u t tenant p)
  then show ?thesis using assms(2)
    by (auto simp: accept_def Let_def payloads_ok_def fst_commit add_audit_def split: option.split)
qed (auto simp: seed_def reserve_def process_def settle_money_def release_def claim_def dispatched_def complete_def
       fail_job_def replay_def Let_def add_audit_def update_where_map fst_commit
       intro!: payloads_same [OF assms(2)] split: option.split prod.split simp del: array_find_None_iff)

lemma payloads_reset: "payloads_ok s \<Longrightarrow> payloads_ok (fst (reset_demo u s))"
  by (simp add: reset_demo_def payloads_ok_def fst_commit)

lemma reaches_payloads:
  assumes "engine_reaches digest s" shows "payloads_ok s"
  using assms unfolding engine_reaches_def
proof (induction rule: rtranclp_induct)
  case (step s s')
  then show ?case by (auto simp: demo_step_def intro: payloads_step payloads_reset)
qed (simp add: payloads_ok_def empty_database_def)

subsection \<open>A snapshot agrees with the books\<close>

lemma newest_all: "length rows \<le> n \<Longrightarrow> newest n created ident rows = sort_key (\<lambda>r. - created r) (sort_key ident rows)"
  by (simp add: newest_def)

lemma set_newest: "set (newest n created ident rows) \<subseteq> set rows"
  unfolding newest_def by (auto dest: in_set_takeD)

lemma newest_sorted: "sorted_wrt (\<lambda>r r'. created r' \<le> created r) (newest n created ident rows)"
proof -
  have "sorted (map (\<lambda>r. - created r) (sort_key (\<lambda>r. - created r) (sort_key ident rows)))" by simp
  then have "sorted_wrt (\<lambda>r r'. created r' \<le> created r) (sort_key (\<lambda>r. - created r) (sort_key ident rows))"
    by (simp add: sorted_map)
  then show ?thesis unfolding newest_def by (rule sorted_wrt_take)
qed

lemma sum_newest:
  assumes "length rows \<le> n"
  shows "sum_list (map g (filter p (newest n created ident rows))) = sum_where p g rows"
proof -
  have filt: "sum_list (map g (filter p xs)) = sum_list (map (\<lambda>r. if p r then g r else 0) xs)" for xs
    by (induction xs) auto
  show ?thesis by (simp only: filt newest_all [OF assms] sum_list_sort_key sum_where_def)
qed

lemma filter_newest_le:
  assumes "\<forall>r \<in> set rows. 0 \<le> g r"
  shows "sum_list (map g (filter p (newest n created ident rows))) \<le> sum_where p g rows"
proof -
  let ?xs = "sort_key (\<lambda>r. - created r) (sort_key ident rows)"
  have "0 \<le> sum_list (map g (filter p (drop n ?xs)))"
    using assms by (intro sum_list_nonneg) (auto dest: in_set_dropD)
  moreover have "sum_list (map g (filter p (take n ?xs))) + sum_list (map g (filter p (drop n ?xs))) = sum_list (map g (filter p ?xs))"
    by (metis append_take_drop_id filter_append map_append sum_list_append)
  moreover have "sum_list (map g (filter p ?xs)) = sum_where p g rows"
    using sum_newest [of rows "length rows" g p created ident] by (simp add: newest_def)
  ultimately show ?thesis by (simp add: newest_def)
qed

lemma length_as_sum: "int (length xs) = sum_list (map (\<lambda>_. 1) xs)" for xs :: "'a list"
  by (induction xs) auto

lemma count_newest_le: "int (length (filter p (newest n created ident rows))) \<le> count_where p rows"
  using filter_newest_le [of rows "\<lambda>_. 1" p n created ident] by (simp add: length_as_sum count_where_def)

lemma count_newest:
  assumes "length rows \<le> n"
  shows "int (length (filter p (newest n created ident rows))) = count_where p rows"
  using sum_newest [OF assms, of "\<lambda>_. 1" p] by (simp add: length_as_sum count_where_def)

lemma sum_where_filter: "sum_where p g (filter q rows) = sum_where (\<lambda>r. q r \<and> p r) g rows"
  by (induction rows) auto

lemma views_of:
  assumes "list_all (\<lambda>b. as_receipt b \<noteq> None) (map dr_payload rows)"
  shows "\<exists>ds. those (map delivery_view rows) = Some ds \<and> map dlv_status ds = map dr_status rows \<and>
    map dlv_received ds = map dr_created rows \<and> map dlv_id ds = map dr_id rows"
  using assms by (induction rows) (auto simp: delivery_view_def)

lemma length_filter_map: "length (filter (\<lambda>x. f x = a) xs) = length (filter (\<lambda>y. y = a) (map f xs))"
  by (induction xs) auto

text \<open>
  C28. What the console polls agrees with the books. A snapshot of a database the engine has written is always
  readable. The balances of its campaigns are the sums of all held and of all settled reservations the
  database has for the campaign, listed or not, and within the budget; its counters count all receipts of the
  tenant by status. It lists the hundred newest reservations and receipts, newest first, so what it lists
  never adds up to more than the balances and counters it shows, and to exactly these
  while the tenant has at most a hundred reservations, respectively receipts.
\<close>

theorem snapshot_agrees_with_books:
  assumes "engine_reaches digest s"
  shows "\<exists>v. snapshot_of now tenant s = Inr v \<and>
    (\<forall>c \<in> set (snp_campaigns v).
       cmp_reserved c = in_state tenant (cmp_id c) Held s \<and> cmp_spent c = in_state tenant (cmp_id c) RSettled s \<and>
       0 \<le> cmp_reserved c \<and> 0 \<le> cmp_spent c \<and> cmp_reserved c + cmp_spent c \<le> cmp_budget c \<and>
       sum_list (map rsv_cost (filter (\<lambda>r. rsv_campaign r = cmp_id c \<and> rsv_state r = Held) (snp_reservations v))) \<le> cmp_reserved c \<and>
       sum_list (map rsv_cost (filter (\<lambda>r. rsv_campaign r = cmp_id c \<and> rsv_state r = RSettled) (snp_reservations v))) \<le> cmp_spent c \<and>
       (length (filter (\<lambda>r. rsv_tenant r = tenant) (db_reservations s)) \<le> 100 \<longrightarrow>
        sum_list (map rsv_cost (filter (\<lambda>r. rsv_campaign r = cmp_id c \<and> rsv_state r = Held) (snp_reservations v))) = cmp_reserved c \<and>
        sum_list (map rsv_cost (filter (\<lambda>r. rsv_campaign r = cmp_id c \<and> rsv_state r = RSettled) (snp_reservations v))) = cmp_spent c)) \<and>
    sorted_wrt (\<lambda>d d'. dlv_received d' \<le> dlv_received d) (snp_deliveries v) \<and>
    (\<forall>st. snp_counts v st = count_where (\<lambda>d. dr_tenant d = tenant \<and> dr_status d = st) (db_deliveries s) \<and>
       int (length (filter (\<lambda>d. dlv_status d = st) (snp_deliveries v))) \<le> snp_counts v st \<and>
       (length (filter (\<lambda>d. dr_tenant d = tenant) (db_deliveries s)) \<le> 100 \<longrightarrow>
        int (length (filter (\<lambda>d. dlv_status d = st) (snp_deliveries v))) = snp_counts v st))"
proof -
  note inv = soundD [OF reaches_sound_db [OF assms]]
  let ?ds = "filter (\<lambda>d. dr_tenant d = tenant) (db_deliveries s)" and ?rs = "filter (\<lambda>r. rsv_tenant r = tenant) (db_reservations s)"
  have "list_all (\<lambda>b. as_receipt b \<noteq> None) (map dr_payload (newest 100 dr_created dr_id ?ds))"
    using reaches_payloads [OF assms] set_newest [of 100 dr_created dr_id ?ds] by (auto simp: payloads_ok_def list_all_iff)
  from views_of [OF this] obtain ds where ds: "those (map delivery_view (newest 100 dr_created dr_id ?ds)) = Some ds"
    "map dlv_status ds = map dr_status (newest 100 dr_created dr_id ?ds)"
    "map dlv_received ds = map dr_created (newest 100 dr_created dr_id ?ds)" by blast
  then obtain v where v: "snapshot_of now tenant s = Inr v" "snp_deliveries v = ds"
    "snp_campaigns v = map campaign.truncate (sort_key cmp_id (filter (\<lambda>c. cmp_tenant c = tenant) (db_campaigns s)))"
    "snp_reservations v = map reservation.truncate (newest 100 rsv_created rsv_id ?rs)"
    "snp_counts v = (\<lambda>st. count_where (\<lambda>d. dr_tenant d = tenant \<and> dr_status d = st) (db_deliveries s))"
    by (auto simp: snapshot_of_def)
  have listed: "sum_list (map rsv_cost (filter (\<lambda>r. rsv_campaign r = c \<and> rsv_state r = st) (snp_reservations v))) =
      sum_list (map rsv_cost (filter (\<lambda>r. rsv_campaign r = c \<and> rsv_state r = st) (newest 100 rsv_created rsv_id ?rs)))" for c st
    by (simp add: v(4) filter_map o_def reservation.defs)
  have all: "sum_where (\<lambda>r. rsv_campaign r = c \<and> rsv_state r = st) rsv_cost ?rs = in_state tenant c st s" for c st
    by (simp add: sum_where_filter in_state_def of_campaign_def [abs_def])
  have "\<forall>r \<in> set ?rs. 0 \<le> rsv_cost r" using schema_parts(8) [OF inv(1)] by (auto intro: less_imp_le)
  note most = filter_newest_le [OF this, of "\<lambda>r. rsv_campaign r = _ \<and> rsv_state r = _" 100 rsv_created rsv_id, folded listed, unfolded all]
  note money = sum_newest [of ?rs 100 rsv_cost "\<lambda>r. rsv_campaign r = _ \<and> rsv_state r = _" rsv_created rsv_id, folded listed, unfolded all]
  have "\<forall>c \<in> set (snp_campaigns v). cmp_reserved c = in_state tenant (cmp_id c) Held s \<and>
      cmp_spent c = in_state tenant (cmp_id c) RSettled s \<and>
      0 \<le> cmp_reserved c \<and> 0 \<le> cmp_spent c \<and> cmp_reserved c + cmp_spent c \<le> cmp_budget c"
    using inv(2) schema_parts(9) [OF inv(1)] by (auto simp: v(3) campaign.defs balanced_def campaign_checks_def)
  moreover have "sorted_wrt (\<lambda>a b. b \<le> a) (map dlv_received ds)"
    unfolding ds(3) sorted_wrt_map by (rule newest_sorted)
  then have "sorted_wrt (\<lambda>d d'. dlv_received d' \<le> dlv_received d) ds" by (simp add: sorted_wrt_map)
  moreover have shown: "length (filter (\<lambda>d. dlv_status d = st) ds) = length (filter (\<lambda>d. dr_status d = st) (newest 100 dr_created dr_id ?ds))"
    and kept: "count_where (\<lambda>d. dr_status d = st) ?ds = snp_counts v st" for st
    by (simp only: length_filter_map [of dlv_status] length_filter_map [of dr_status] ds(2))
       (simp add: v(5) count_where_def sum_where_filter)
  note counts = count_newest_le [of "\<lambda>d. dr_status d = _" 100 dr_created dr_id ?ds, unfolded kept, folded shown]
    count_newest [of ?ds 100 "\<lambda>d. dr_status d = _" dr_created dr_id, unfolded kept, folded shown]
  ultimately show ?thesis using v(1,2) money most counts by (intro exI [of _ v]) (simp add: v(5), metis)
qed

theorem snapshot_agrees_with_books_witness:
  "\<exists>v. snapshot_of 5000 ''t'' day3 = Inr v \<and> snp_counts v Settled = 1 \<and> length (filter (\<lambda>d. dlv_status d = Settled) (snp_deliveries v)) = 1"
proof -
  from snapshot_agrees_with_books [OF day_reaches(4), of 5000 "''t''"] obtain v where
    v: "snapshot_of 5000 ''t'' day3 = Inr v"
    and n: "int (length (filter (\<lambda>d. dlv_status d = Settled) (snp_deliveries v))) = snp_counts v Settled"
    by (auto simp: day3_def day_db_def day_delivery_def)
  from v have "snp_counts v Settled = 1"
    by (auto simp: snapshot_of_def day3_def day_db_def day_delivery_def split: option.splits)
  with v n show ?thesis by simp
qed

end
