(* ===== verification/HttpApi.thy ===== *)
theory HttpApi
  imports Dispatch Snapshots
begin

text \<open>
  The HTTP API of the engine, \<open>internal/httpapi\<close>: admission of a call (\<open>Handler\<close> and \<open>allowCost\<close> of
  \<open>server.go\<close>: credentials, origin, token bucket, concurrency, generation), the routes that read or
  change the engine, the partner batches of \<open>batch.go\<close> and the failure lab of \<open>demo.go\<close>. A call is what
  the handlers read of a request under \<open>/api/\<close>; its body is the value of the JSON text, \<open>None\<close> when the
  decoder refuses it. A body whose fields the console does not read is \<open>P_empty\<close>. The tokens are exact
  numbers where the code has doubles. The 32 reservations that race for a budget are made one after the
  other. Response headers, deadlines, panics and the remaining routes (metrics, airports;
  foot traffic is in theory \<open>TrafficHttp\<close>) are not modelled.
\<close>

subsection \<open>Calls and the server\<close>

record api_call =
  apc_post :: bool
  apc_path :: string
  apc_auth :: string
  apc_origin :: string
  apc_host :: string
  apc_key :: string
  apc_generation :: string
  apc_json :: bool
  apc_body :: "payload option"
  apc_trailing :: bool

record server_config =
  cfg_tenant :: string
  cfg_key :: string
  cfg_previous_key :: string
  cfg_demo :: bool
  cfg_reset :: bool
  cfg_transport :: string
  cfg_postgres :: bool
  cfg_digest :: "payload \<Rightarrow> string"
  cfg_hash :: "string \<Rightarrow> string"

record server =
  srv_db :: database
  srv_worker :: worker
  srv_generation :: string
  srv_tokens :: rat
  srv_last :: rat

text \<open>
  What one call reads from its environment: the time in seconds, the clock and the identifiers of its
  transactions, numbered in their order, whether all slots are taken, and the time in nanoseconds that
  the breaker of the worker is compared with.
\<close>

record call_env =
  cev_now :: rat
  cev_ids :: "nat \<Rightarrow> ids"
  cev_times :: "nat \<Rightarrow> times"
  cev_full :: bool
  cev_clock :: int

subsection \<open>Admission\<close>

definition strip_prefix :: "string \<Rightarrow> string \<Rightarrow> string" where
  "strip_prefix p t = (if take (length p) t = p then drop (length p) t else t)"

definition bearer :: string where "bearer = ''Bearer ''"

definition authorized :: "server_config \<Rightarrow> api_call \<Rightarrow> bool" where
  "authorized cfg c \<longleftrightarrow> cfg_demo cfg \<or>
     (let got = cfg_hash cfg (strip_prefix bearer (apc_auth c)) in
      cfg_key cfg \<noteq> [] \<and> take (length bearer) (apc_auth c) = bearer \<and>
      (got = cfg_hash cfg (cfg_key cfg) \<or> 24 \<le> length (cfg_previous_key cfg) \<and> got = cfg_hash cfg (cfg_previous_key cfg)))"

definition cross_origin :: "api_call \<Rightarrow> bool" where
  "cross_origin c \<longleftrightarrow> apc_origin c \<noteq> [] \<and> apc_origin c \<noteq> ''http://'' @ apc_host c \<and> apc_origin c \<noteq> ''https://'' @ apc_host c"

text \<open>\<open>allowCost\<close>: 30 tokens a second, at most 60.\<close>

definition allow_cost :: "rat \<Rightarrow> rat \<Rightarrow> 'a server_scheme \<Rightarrow> 'a server_scheme \<times> bool" where
  "allow_cost now cost srv =
     (let tokens = min 60 (srv_tokens srv + (now - srv_last srv) * 30) in
      if tokens < cost then (srv\<lparr>srv_tokens := tokens, srv_last := now\<rparr>, False)
      else (srv\<lparr>srv_tokens := tokens - cost, srv_last := now\<rparr>, True))"

definition stale_generation :: "server_config \<Rightarrow> api_call \<Rightarrow> server \<Rightarrow> bool" where
  "stale_generation cfg c srv \<longleftrightarrow> cfg_demo cfg \<and> cfg_reset cfg \<and> apc_post c \<and> apc_generation c \<noteq> [] \<and>
     apc_generation c \<noteq> srv_generation srv"

type_synonym api_answer = "server \<times> int \<times> payload"

text \<open>The checks before a handler runs: the answer of a refused call, or the server it runs on.\<close>

definition admit :: "server_config \<Rightarrow> call_env \<Rightarrow> api_call \<Rightarrow> server \<Rightarrow> api_answer + server" where
  "admit cfg env c srv =
     (if \<not> authorized cfg c then Inl (srv, 401, P_problem ''unauthorized'')
      else if apc_post c \<and> cross_origin c then Inl (srv, 403, P_problem ''cross_origin_request'')
      else let (srv1, admitted) = (if apc_post c then allow_cost (cev_now env) 1 srv else (srv, True)) in
        if \<not> admitted then Inl (srv1, 429, P_problem ''rate_limited'')
        else if cev_full env then Inl (srv1, 503, P_problem ''overloaded'')
        else if stale_generation cfg c srv1 then Inl (srv1, 409, P_problem ''demo_was_reset_reload_page'')
        else Inr srv1)"

subsection \<open>Replies\<close>

fun error_text :: "engine_error \<Rightarrow> string" where
  "error_text ErrConflict = ''idempotency key reused with different content''"
| "error_text ErrBudget = ''insufficient uncommitted campaign budget''"
| "error_text ErrNotFound = ''resource not found''"
| "error_text (ErrInvalid m) = ''invalid request: '' @ m"
| "error_text ErrStorage = []"

fun fail_api :: "engine_error \<Rightarrow> int \<times> payload" where
  "fail_api ErrConflict = (409, P_problem (error_text ErrConflict))"
| "fail_api ErrBudget = (409, P_problem (error_text ErrBudget))"
| "fail_api ErrNotFound = (404, P_problem ''not_found'')"
| "fail_api (ErrInvalid m) = (422, P_problem (error_text (ErrInvalid m)))"
| "fail_api ErrStorage = (503, P_problem ''temporarily_unavailable'')"

text \<open>\<open>decode\<close>: the status and detail of a refused body, or the value it has.\<close>

definition decode_body :: "(payload \<Rightarrow> 'b option) \<Rightarrow> api_call \<Rightarrow> int \<times> payload + 'b" where
  "decode_body f c =
     (if \<not> apc_json c then Inl (415, P_problem ''application_json_required'')
      else case Option.bind (apc_body c) f of
          None \<Rightarrow> Inl (400, P_problem ''invalid_json'')
        | Some b \<Rightarrow> if apc_trailing c then Inl (400, P_problem ''single_json_object_required'') else Inr b)"

fun as_batch :: "payload \<Rightarrow> batch_item list option" where
  "as_batch (P_batch items) = Some items" | "as_batch _ = None"
fun as_reservation_input :: "payload \<Rightarrow> reservation_input option" where
  "as_reservation_input (P_reservation_input inp) = Some inp" | "as_reservation_input _ = None"
fun as_confirm :: "payload \<Rightarrow> bool option" where
  "as_confirm (P_confirm b) = Some b" | "as_confirm _ = None"
fun as_control :: "payload \<Rightarrow> bool option" where
  "as_control (P_control b) = Some b" | "as_control _ = None"
fun as_scenario :: "payload \<Rightarrow> string option" where
  "as_scenario (P_scenario k) = Some k" | "as_scenario _ = None"

subsection \<open>Partner batches\<close>

text \<open>One item of a batch in its own transaction.\<close>

definition accept_item ::
  "server_config \<Rightarrow> call_env \<Rightarrow> nat \<Rightarrow> batch_item \<Rightarrow> database \<Rightarrow> database \<times> batch_result" where
  "accept_item cfg env i item s =
     (let result = (\<lambda>status ident replayed retryable detail. \<lparr>brs_index = i, brs_status = status, brs_id = ident,
            brs_replayed = replayed, brs_retryable = retryable, brs_detail = detail\<rparr>) in
      case item of
        Malformed _ \<Rightarrow> (s, result 400 None False False ''invalid_receipt_object'')
      | Item p \<Rightarrow> (case accept (cfg_digest cfg) (cev_ids env i) (cev_times env i) (cfg_tenant cfg) p s of
            (s', Inr (ident, replayed)) \<Rightarrow> (s', result 202 (Some ident) replayed False ''database_and_outbox_committed'')
          | (s', Inl (ErrInvalid m)) \<Rightarrow> (s', result 422 None False False (error_text (ErrInvalid m)))
          | (s', Inl ErrConflict) \<Rightarrow> (s', result 409 None False False ''event_id_conflicts_with_prior_content'')
          | (s', Inl _) \<Rightarrow> (s', result 503 None False True ''temporarily_unavailable'')))"

fun accept_items ::
  "server_config \<Rightarrow> call_env \<Rightarrow> nat \<Rightarrow> batch_item list \<Rightarrow> database \<Rightarrow> database \<times> batch_result list" where
  "accept_items cfg env i [] s = (s, [])"
| "accept_items cfg env i (item # items) s =
     (let (s1, r) = accept_item cfg env i item s; (s2, rs) = accept_items cfg env (Suc i) items s1 in (s2, r # rs))"

definition batch_answer :: "batch_result list \<Rightarrow> int \<times> batch_response" where
  "batch_answer rs =
     (let rejected = int (length (filter (\<lambda>r. brs_status r \<noteq> 202) rs)) in
      (if 0 < rejected then 207 else 202,
       \<lparr>bat_accepted = int (length (filter (\<lambda>r. brs_status r = 202) rs)), bat_rejected = rejected,
        bat_replayed = int (length (filter (\<lambda>r. brs_status r = 202 \<and> brs_replayed r) rs)), bat_results = rs\<rparr>))"

definition accept_batch :: "server_config \<Rightarrow> call_env \<Rightarrow> api_call \<Rightarrow> server \<Rightarrow> api_answer" where
  "accept_batch cfg env c srv = (case decode_body as_batch c of
     Inl answer \<Rightarrow> (srv, answer)
   | Inr items \<Rightarrow>
       if length items < 1 \<or> 50 < length items then (srv, 422, P_problem ''receipts_must_contain_1_to_50_items'')
       else let (srv1, admitted) = allow_cost (cev_now env) (of_nat (length items - 1)) srv in
         if \<not> admitted then (srv1, 429, P_problem ''batch_rate_limited'')
         else let (s, rs) = accept_items cfg env 0 items (srv_db srv1); (status, b) = batch_answer rs in
           (srv1\<lparr>srv_db := s\<rparr>, status, P_batch_response b))"

subsection \<open>The failure lab\<close>

definition scenario_screens :: "string list" where
  "scenario_screens = [''sea-01'', ''sea-02'', ''pdx-01'', ''sfo-01'', ''lax-01'', ''den-01'', ''ord-01'', ''jfk-01'']"

definition scenario_campaigns :: "string list" where
  "scenario_campaigns = [''cmp-cascade'', ''cmp-northstar'', ''cmp-solstice'']"

text \<open>A transaction with a fresh identifier drawn before it.\<close>

definition reserve_fresh :: "server_config \<Rightarrow> call_env \<Rightarrow> nat \<Rightarrow> reservation_input \<Rightarrow> database \<Rightarrow> database \<times> (engine_error + reservation \<times> bool)" where
  "reserve_fresh cfg env j inp s =
     reserve (cfg_digest cfg) (\<lambda>n. cev_ids env j (Suc n)) (cev_times env j) (cfg_tenant cfg) (cev_ids env j 0) inp s"

definition accept_fresh :: "server_config \<Rightarrow> call_env \<Rightarrow> nat \<Rightarrow> receipt \<Rightarrow> database \<Rightarrow> database \<times> (engine_error + string \<times> bool)" where
  "accept_fresh cfg env j p s =
     accept (cfg_digest cfg) (\<lambda>n. cev_ids env j (Suc n)) (cev_times env j) (cfg_tenant cfg) (p\<lparr>rcp_event := cev_ids env j 0\<rparr>) s"

fun budget_race :: "server_config \<Rightarrow> call_env \<Rightarrow> nat \<Rightarrow> database \<Rightarrow> database \<times> nat" where
  "budget_race cfg env 0 s = (s, 0)"
| "budget_race cfg env (Suc j) s =
     (let (s1, n) = budget_race cfg env j s;
          (s2, r) = reserve_fresh cfg env j \<lparr>inp_campaign = ''cmp-solstice'', inp_screen = ''sea-01'', inp_cost = 10000000\<rparr> s1 in
      (s2, case r of Inr _ \<Rightarrow> Suc n | Inl _ \<Rightarrow> n))"

text \<open>Several receipts for one play; the first failure ends the loop.\<close>

fun accept_plays :: "server_config \<Rightarrow> call_env \<Rightarrow> nat \<Rightarrow> nat \<Rightarrow> receipt \<Rightarrow> database \<Rightarrow> database \<times> (engine_error + unit)" where
  "accept_plays cfg env j 0 p s = (s, Inr ())"
| "accept_plays cfg env j (Suc n) p s =
     (case accept_fresh cfg env j p s of (s1, Inl e) \<Rightarrow> (s1, Inl e) | (s1, Inr _) \<Rightarrow> accept_plays cfg env (Suc j) n p s1)"

definition scenario_input :: "nat \<Rightarrow> reservation_input" where
  "scenario_input i = \<lparr>inp_campaign = scenario_campaigns ! (i mod 3), inp_screen = scenario_screens ! (i mod 8),
     inp_cost = 1250000 + int i * 75000\<rparr>"

definition scenario_receipt :: "string \<Rightarrow> reservation \<Rightarrow> receipt" where
  "scenario_receipt kind r = \<lparr>rcp_version = (if kind = ''poison'' then 99 else 1), rcp_event = [], rcp_reservation = rsv_id r,
     rcp_screen = rsv_screen r, rcp_played_at = rsv_created r + 1, rcp_duration = 10000\<rparr>"

definition scenario_play :: "server_config \<Rightarrow> call_env \<Rightarrow> string \<Rightarrow> nat \<Rightarrow> database \<Rightarrow> database \<times> (engine_error + unit)" where
  "scenario_play cfg env kind i s =
     (case reserve_fresh cfg env (6 * i) (scenario_input i) s of
        (s1, Inl e) \<Rightarrow> (s1, Inl e)
      | (s1, Inr (r, _)) \<Rightarrow>
          accept_plays cfg env (6 * i + 1) (if kind = ''duplicate'' then 5 else 1) (scenario_receipt kind r) s1)"

fun scenario_plays :: "server_config \<Rightarrow> call_env \<Rightarrow> string \<Rightarrow> nat \<Rightarrow> database \<Rightarrow> database \<times> (engine_error + unit)" where
  "scenario_plays cfg env kind 0 s = (s, Inr ())"
| "scenario_plays cfg env kind (Suc n) s =
     (case scenario_plays cfg env kind n s of
        (s1, Inl e) \<Rightarrow> (s1, Inl e)
      | (s1, Inr _) \<Rightarrow> scenario_play cfg env kind n s1)"

definition lab_messages :: "(string \<times> string) list" where
  "lab_messages = [
     (''traffic'', ''12 playback receipts accepted. Follow the pipeline as reservations settle.''),
     (''duplicate'', ''5 distinct receipts reference one reservation. Only one can move money.''),
     (''poison'', ''Schema v99 accepted durably. The consumer will quarantine it without charging.''),
     (''crash'', ''Next receipt will commit, then lose its acknowledgement. Redelivery must preserve the balance.''),
     (''retry'', ''Next five processing attempts will fail. With no other traffic, the receipt reaches the recovery queue; replay it after recovery.'')]"

definition race_message :: string where
  "race_message = ''32 concurrent $10 reservations competed for remaining Solstice budget. Holds remain visible and expire after the grace period.''"

definition run_scenario :: "server_config \<Rightarrow> call_env \<Rightarrow> string \<Rightarrow> server \<Rightarrow> api_answer" where
  "run_scenario cfg env kind srv =
     (if kind = ''budget-race''
      then let (s, n) = budget_race cfg env 32 (srv_db srv) in
        (srv\<lparr>srv_db := s\<rparr>, 200, P_scenario_result race_message (Some (int n, 32 - int n)))
      else case map_of lab_messages kind of
          None \<Rightarrow> (srv, 422, P_problem ''unknown_scenario'')
        | Some m \<Rightarrow>
            let w = srv_worker srv;
                w1 = (if kind = ''crash'' then w\<lparr>wk_drop_ack := True\<rparr> else if kind = ''retry'' then w\<lparr>wk_fail_next := 5\<rparr> else w) in
            case scenario_plays cfg env kind (if kind = ''traffic'' then 12 else 1) (srv_db srv) of
              (s, Inl e) \<Rightarrow> (srv\<lparr>srv_db := s, srv_worker := w1\<rparr>, fail_api e)
            | (s, Inr _) \<Rightarrow> (srv\<lparr>srv_db := s, srv_worker := w1\<rparr>, 202, P_scenario_result m None))"

subsection \<open>Routes\<close>

text \<open>The segment that a pattern \<open>prefix{id}suffix\<close> matches.\<close>

definition path_value :: "string \<Rightarrow> string \<Rightarrow> string \<Rightarrow> string option" where
  "path_value p q path =
     (let mid = drop (length p) (take (length path - length q) path) in
      if path = p @ mid @ q \<and> mid \<noteq> [] \<and> CHR ''/'' \<notin> set mid then Some (decode_uri mid) else None)"

definition on_db :: "server \<Rightarrow> ('b \<Rightarrow> int \<times> payload) \<Rightarrow> database \<times> (engine_error + 'b) \<Rightarrow> api_answer" where
  "on_db srv f r = (case r of (s, Inl e) \<Rightarrow> (srv\<lparr>srv_db := s\<rparr>, fail_api e) | (s, Inr b) \<Rightarrow> (srv\<lparr>srv_db := s\<rparr>, f b))"

definition route_reset :: "server_config \<Rightarrow> call_env \<Rightarrow> api_call \<Rightarrow> server \<Rightarrow> api_answer" where
  "route_reset cfg env c srv =
     (if \<not> cfg_demo cfg \<or> \<not> cfg_reset cfg then (srv, 404, P_problem ''not_found'')
      else case decode_body as_confirm c of
          Inl answer \<Rightarrow> (srv, answer)
        | Inr confirm \<Rightarrow>
            if \<not> confirm then (srv, 422, P_problem ''confirm_demo_data_reset'')
            else case reset_local_demo False None (cev_ids env 0) (srv_worker srv) (srv_db srv) of
                (w, s, Inl e) \<Rightarrow> (srv\<lparr>srv_db := s, srv_worker := w\<rparr>, fail_api e)
              | (w, s, Inr g) \<Rightarrow> (srv\<lparr>srv_db := s, srv_worker := w, srv_generation := g\<rparr>, 200, P_reset True g))"

definition route_demo :: "server_config \<Rightarrow> call_env \<Rightarrow> api_call \<Rightarrow> server \<Rightarrow> api_answer" where
  "route_demo cfg env c srv =
     (if \<not> cfg_demo cfg then (srv, 404, P_problem ''not_found'')
      else if apc_path c = ''/api/demo/control'' then
        if \<not> apc_post c then (srv, 405, P_empty)
        else (case decode_body as_control c of
            Inl answer \<Rightarrow> (srv, answer)
          | Inr paused \<Rightarrow> (srv\<lparr>srv_worker := (srv_worker srv)\<lparr>wk_paused := paused\<rparr>\<rparr>, 200, P_control paused))
      else if apc_path c = ''/api/demo/scenario'' then
        if \<not> apc_post c then (srv, 405, P_empty)
        else (case decode_body as_scenario c of Inl answer \<Rightarrow> (srv, answer) | Inr kind \<Rightarrow> run_scenario cfg env kind srv)
      else (srv, 404, P_empty))"

definition route_reserve :: "server_config \<Rightarrow> call_env \<Rightarrow> api_call \<Rightarrow> server \<Rightarrow> api_answer" where
  "route_reserve cfg env c srv = (case decode_body as_reservation_input c of
     Inl answer \<Rightarrow> (srv, answer)
   | Inr inp \<Rightarrow> on_db srv (\<lambda>(r, again). (if again then 200 else 201, P_reservation r))
       (reserve (cfg_digest cfg) (cev_ids env 0) (cev_times env 0) (cfg_tenant cfg) (apc_key c) inp (srv_db srv)))"

definition route_accept :: "server_config \<Rightarrow> call_env \<Rightarrow> api_call \<Rightarrow> server \<Rightarrow> api_answer" where
  "route_accept cfg env c srv = (case decode_body as_receipt c of
     Inl answer \<Rightarrow> (srv, answer)
   | Inr p \<Rightarrow> on_db srv (\<lambda>(i, again). (202, P_accepted i again))
       (accept (cfg_digest cfg) (cev_ids env 0) (cev_times env 0) (cfg_tenant cfg) p (srv_db srv)))"

text \<open>\<open>api.Runtime\<close> as \<open>main.go\<close> sets it.\<close>

definition runtime_of :: "server_config \<Rightarrow> call_env \<Rightarrow> server \<Rightarrow> runtime_info" where
  "runtime_of cfg env srv = \<lparr>rt_storage = (if cfg_postgres cfg then ''PostgreSQL'' else ''SQLite WAL''),
     rt_transport = cfg_transport cfg, rt_demo = cfg_demo cfg, rt_paused = wk_paused (srv_worker srv),
     rt_breaker_open = breaker_open (cev_clock env) (srv_worker srv), rt_can_reset = cfg_reset cfg\<rparr>"

text \<open>\<open>None\<close> for the routes that are not modelled; none of them writes to the engine.\<close>

definition other_routes :: "string list" where
  "other_routes = [''/api/v1/metrics'', ''/api/v1/airports'']"

definition api_route :: "server_config \<Rightarrow> call_env \<Rightarrow> api_call \<Rightarrow> server \<Rightarrow> api_answer option" where
  "api_route cfg env c srv =
     (let path = apc_path c; post = apc_post c; tenant = cfg_tenant cfg; now = cev_times env 0 0; s = srv_db srv in
      if take 21 path = ''/api/v1/foot-traffic/'' \<or> \<not> post \<and> path \<in> set other_routes then None
      else Some (
        if post \<and> path = ''/api/demo/reset'' then route_reset cfg env c srv
        else if take 10 path = ''/api/demo/'' then route_demo cfg env c srv
        else if \<not> post \<and> path = ''/api/v1/runtime'' then (srv, 200, P_runtime (runtime_of cfg env srv))
        else if \<not> post \<and> path = ''/api/v1/snapshot'' then on_db srv (\<lambda>v. (200, P_snapshot v)) (s, snapshot_of now tenant s)
        else if post \<and> path = ''/api/v1/receipts/batch'' then accept_batch cfg env c srv
        else if post \<and> path = ''/api/v1/reservations'' then route_reserve cfg env c srv
        else if post \<and> path = ''/api/v1/receipts'' then route_accept cfg env c srv
        else case (path_value ''/api/v1/campaigns/'' ''/assurance'' path, path_value ''/api/v1/deliveries/'' [] path,
                   path_value ''/api/v1/deliveries/'' ''/replay'' path) of
            (Some i, _, _) \<Rightarrow> if post then (srv, 404, P_problem ''not_found'') 
              else on_db srv (\<lambda>v. (200, P_assurance v)) (s, assurance_of now tenant i s)
          | (_, Some i, _) \<Rightarrow> if post then (srv, 404, P_problem ''not_found'') 
              else on_db srv (\<lambda>v. (200, P_evidence v)) (s, evidence_of now tenant i s)
          | (_, _, Some i) \<Rightarrow> if post then on_db srv (\<lambda>_. (202, P_empty)) (replay (cev_ids env 0) (cev_times env 0) tenant i s)
              else (srv, 404, P_problem ''not_found'')
          | _ \<Rightarrow> (srv, 404, P_problem ''not_found'')))"

definition handle_api :: "server_config \<Rightarrow> call_env \<Rightarrow> api_call \<Rightarrow> server \<Rightarrow> api_answer option" where
  "handle_api cfg env c srv = (case admit cfg env c srv of Inl answer \<Rightarrow> Some answer | Inr srv1 \<Rightarrow> api_route cfg env c srv1)"

subsection \<open>Calls are transactions of the engine\<close>

lemma steps_one: "engine_step digest s s' \<Longrightarrow> (engine_step digest)\<^sup>*\<^sup>* s s'"
  by (rule r_into_rtranclp)

lemma steps_more: "(engine_step digest)\<^sup>*\<^sup>* s s' \<Longrightarrow> engine_step digest s' s'' \<Longrightarrow> (engine_step digest)\<^sup>*\<^sup>* s s''"
  by (rule rtranclp.rtrancl_into_rtrancl)

lemma accept_item_step: "engine_step (cfg_digest cfg) s (fst (accept_item cfg env i (Item p) s))"
proof -
  have "fst (accept_item cfg env i (Item p) s) = fst (accept (cfg_digest cfg) (cev_ids env i) (cev_times env i) (cfg_tenant cfg) p s)"
    by (auto simp: accept_item_def Let_def split: prod.split sum.split engine_error.split)
  then show ?thesis by (simp add: e_accept)
qed

lemma accept_items_steps: "(engine_step (cfg_digest cfg))\<^sup>*\<^sup>* s (fst (accept_items cfg env i items s))"
proof (induction items arbitrary: i s)
  case (Cons item items)
  have "(engine_step (cfg_digest cfg))\<^sup>*\<^sup>* s (fst (accept_item cfg env i item s))"
    using accept_item_step [of cfg s env i] by (cases item) (auto simp: accept_item_def intro: steps_one)
  then show ?case
    using Cons.IH [of "fst (accept_item cfg env i item s)" "Suc i"]
    by (auto simp: Let_def split: prod.split intro: rtranclp_trans)
qed simp

lemma budget_race_steps: "(engine_step (cfg_digest cfg))\<^sup>*\<^sup>* s (fst (budget_race cfg env n s))"
proof (induction n)
  case (Suc n)
  define s1 where "s1 = fst (budget_race cfg env n s)"
  let ?inp = "\<lparr>inp_campaign = ''cmp-solstice'', inp_screen = ''sea-01'', inp_cost = 10000000\<rparr>"
  have "fst (budget_race cfg env (Suc n) s) = fst (reserve_fresh cfg env n ?inp s1)"
    by (simp add: Let_def s1_def split_def)
  moreover have "engine_step (cfg_digest cfg) s1 (fst (reserve_fresh cfg env n ?inp s1))"
    unfolding reserve_fresh_def by (rule e_reserve)
  ultimately show ?case using steps_more [OF Suc [folded s1_def]] by simp
qed simp

lemma accept_plays_steps: "(engine_step (cfg_digest cfg))\<^sup>*\<^sup>* s (fst (accept_plays cfg env j n p s))"
proof (induction n arbitrary: j s)
  case (Suc n)
  have "engine_step (cfg_digest cfg) s (fst (accept_fresh cfg env j p s))"
    unfolding accept_fresh_def by (rule e_accept)
  then show ?case
    using Suc.IH by (auto split: prod.split sum.split intro: steps_one converse_rtranclp_into_rtranclp)
qed simp

lemma scenario_play_steps: "(engine_step (cfg_digest cfg))\<^sup>*\<^sup>* s (fst (scenario_play cfg env kind i s))"
proof -
  obtain s1 x where x: "reserve_fresh cfg env (6 * i) (scenario_input i) s = (s1, x)" by fastforce
  then have step: "engine_step (cfg_digest cfg) s s1"
    using e_reserve [of "cfg_digest cfg" s] unfolding reserve_fresh_def by (metis fst_conv)
  show ?thesis
  proof (cases x)
    case (Inl e)
    then show ?thesis using x step by (simp add: scenario_play_def steps_one)
  next
    case (Inr r)
    then show ?thesis
      using x converse_rtranclp_into_rtranclp [OF step accept_plays_steps]
      by (cases r) (simp add: scenario_play_def del: accept_plays.simps)
  qed
qed

lemma scenario_plays_steps: "(engine_step (cfg_digest cfg))\<^sup>*\<^sup>* s (fst (scenario_plays cfg env kind n s))"
proof (induction n)
  case (Suc n)
  obtain s1 x where "scenario_plays cfg env kind n s = (s1, x)" by fastforce
  then show ?case
    using Suc rtranclp_trans [OF _ scenario_play_steps, of cfg s s1 env kind n] by (cases x) auto
qed simp

lemma steps_demo: "(engine_step digest)\<^sup>*\<^sup>* s s' \<Longrightarrow> (demo_step digest)\<^sup>*\<^sup>* s s'"
  by (rule rtranclp_mono [THEN predicate2D]) (auto simp: demo_step_def)

lemma run_scenario_steps: "(demo_step (cfg_digest cfg))\<^sup>*\<^sup>* (srv_db srv) (srv_db (fst (run_scenario cfg env kind srv)))"
proof (rule steps_demo, cases "kind = ''budget-race''")
  case True
  then show "(engine_step (cfg_digest cfg))\<^sup>*\<^sup>* (srv_db srv) (srv_db (fst (run_scenario cfg env kind srv)))"
    using budget_race_steps [of cfg "srv_db srv" env 32] by (simp add: run_scenario_def Let_def split_def)
next
  case False
  let ?r = "scenario_plays cfg env kind (if kind = ''traffic'' then 12 else 1) (srv_db srv)"
  have "srv_db (fst (run_scenario cfg env kind srv)) \<in> {srv_db srv, fst ?r}"
    using False by (auto simp: run_scenario_def Let_def split_def split: option.split sum.split)
  then show "(engine_step (cfg_digest cfg))\<^sup>*\<^sup>* (srv_db srv) (srv_db (fst (run_scenario cfg env kind srv)))"
    using scenario_plays_steps [of cfg "srv_db srv" env kind] by auto
qed

lemma on_db_fst [simp]: "srv_db (fst (on_db srv f r)) = fst r" "srv_tokens (fst (on_db srv f r)) = srv_tokens srv"
  "srv_last (fst (on_db srv f r)) = srv_last srv"
  by (auto simp: on_db_def split: prod.split sum.split)

lemma allow_cost_db [simp]: "srv_db (fst (allow_cost now cost srv)) = srv_db srv"
  "srv_worker (fst (allow_cost now cost srv)) = srv_worker srv"
  "srv_generation (fst (allow_cost now cost srv)) = srv_generation srv"
  by (auto simp: allow_cost_def Let_def)

text \<open>What a call may reach: the handlers that write, or none of them.\<close>

lemma api_route_cases:
  assumes "api_route cfg env c srv = Some a"
  obtains (reset) "apc_path c = ''/api/demo/reset''" "a = route_reset cfg env c srv"
  | (demo) "take 10 (apc_path c) = ''/api/demo/''" "a = route_demo cfg env c srv"
  | (batch) "apc_post c" "apc_path c = ''/api/v1/receipts/batch''" "a = accept_batch cfg env c srv"
  | (reserve) "a = route_reserve cfg env c srv" | (accept) "a = route_accept cfg env c srv"
  | (replay) i f where "a = on_db srv f (replay (cev_ids env 0) (cev_times env 0) (cfg_tenant cfg) i (srv_db srv))"
  | (none) "srv_db (fst a) = srv_db srv" "srv_tokens (fst a) = srv_tokens srv" "srv_last (fst a) = srv_last srv"
  using assms unfolding api_route_def by (auto simp: Let_def split: if_splits option.splits)

lemma route_reset_step: "(demo_step digest)\<^sup>*\<^sup>* (srv_db srv) (srv_db (fst (route_reset cfg env c srv)))"
proof -
  have "srv_db (fst (route_reset cfg env c srv)) \<in> {srv_db srv, fst (reset_demo (cev_ids env 0) (srv_db srv))}"
    by (auto simp: route_reset_def reset_local_demo_def split: prod.split sum.split)
  moreover have "demo_step digest (srv_db srv) (fst (reset_demo (cev_ids env 0) (srv_db srv)))"
    by (auto simp: demo_step_def)
  ultimately show ?thesis by auto
qed

lemma route_demo_steps: "(demo_step (cfg_digest cfg))\<^sup>*\<^sup>* (srv_db srv) (srv_db (fst (route_demo cfg env c srv)))"
  using run_scenario_steps [of cfg srv env] by (auto simp: route_demo_def split: sum.split)

lemma accept_batch_steps: "(engine_step (cfg_digest cfg))\<^sup>*\<^sup>* (srv_db srv) (srv_db (fst (accept_batch cfg env c srv)))"
proof (cases "decode_body as_batch c")
  case (Inr items)
  obtain srv1 ok where a: "allow_cost (cev_now env) (of_nat (length items - 1)) srv = (srv1, ok)" by fastforce
  then have "srv_db srv1 = srv_db srv" using allow_cost_db(1) [of "cev_now env" "of_nat (length items - 1)" srv] by simp
  then show ?thesis
    using Inr a accept_items_steps [of cfg "srv_db srv" env 0 items] by (simp add: accept_batch_def Let_def split_def)
qed (simp add: accept_batch_def)

lemma route_reserve_step: "(engine_step (cfg_digest cfg))\<^sup>*\<^sup>* (srv_db srv) (srv_db (fst (route_reserve cfg env c srv)))"
  by (auto simp: route_reserve_def split: sum.split intro!: steps_one e_reserve)

lemma route_accept_step: "(engine_step (cfg_digest cfg))\<^sup>*\<^sup>* (srv_db srv) (srv_db (fst (route_accept cfg env c srv)))"
  by (auto simp: route_accept_def split: sum.split intro!: steps_one e_accept)

lemma api_route_steps:
  assumes "api_route cfg env c srv = Some a"
  shows "(demo_step (cfg_digest cfg))\<^sup>*\<^sup>* (srv_db srv) (srv_db (fst a))"
  using assms
proof (cases rule: api_route_cases)
  case (replay i f)
  then show ?thesis by (auto intro!: steps_demo steps_one e_replay)
qed (simp_all add: route_reset_step route_demo_steps steps_demo accept_batch_steps route_reserve_step route_accept_step)

lemma admit_keeps:
  shows "admit cfg env c srv = Inl a \<Longrightarrow> srv_db (fst a) = srv_db srv \<and> srv_worker (fst a) = srv_worker srv \<and>
      srv_generation (fst a) = srv_generation srv \<and> fst (snd a) \<in> {401, 403, 429, 503, 409}"
    and "admit cfg env c srv = Inr srv1 \<Longrightarrow> srv_db srv1 = srv_db srv \<and> authorized cfg c \<and>
      (apc_post c \<longrightarrow> \<not> cross_origin c) \<and> \<not> cev_full env \<and> \<not> stale_generation cfg c srv"
  by (auto simp: admit_def stale_generation_def allow_cost_def Let_def split: if_splits)

lemma reads_change_nothing:
  assumes "\<not> apc_post c" and "api_route cfg env c srv = Some a" shows "fst a = srv"
  using assms by (auto simp: api_route_def route_demo_def on_db_def Let_def split: if_splits option.splits sum.splits)

text \<open>
  C17. The API is a guarded door to the engine: an answered call changes the database only through the
  engine's transactions and the reset of the demo; a call that reads changes nothing at all; and without
  a valid key, from a foreign origin, with all slots taken or for a generation that was reset a call
  that writes is refused and changes neither the books nor the worker nor the generation.
\<close>

theorem api_calls_guarded:
  assumes "handle_api cfg env c srv = Some (srv', status, body)"
  shows "(demo_step (cfg_digest cfg))\<^sup>*\<^sup>* (srv_db srv) (srv_db srv') \<and>
    (\<not> apc_post c \<longrightarrow> srv' = srv) \<and>
    (\<not> authorized cfg c \<or> apc_post c \<and> cross_origin c \<or> cev_full env \<or> stale_generation cfg c srv \<longrightarrow>
       srv_db srv' = srv_db srv \<and> srv_worker srv' = srv_worker srv \<and> srv_generation srv' = srv_generation srv \<and>
       status \<in> {401, 403, 429, 503, 409})"
proof (cases "admit cfg env c srv")
  case (Inl a)
  then have "a = (srv', status, body)" using assms by (simp add: handle_api_def)
  moreover have "\<not> apc_post c \<Longrightarrow> fst a = srv"
    using Inl by (auto simp: admit_def split: if_splits)
  ultimately show ?thesis using admit_keeps(1) [OF Inl] by simp
next
  case (Inr srv1)
  then have r: "api_route cfg env c srv1 = Some (srv', status, body)" using assms by (simp add: handle_api_def)
  have "\<not> apc_post c \<Longrightarrow> srv1 = srv" using Inr by (auto simp: admit_def split: if_splits)
  then show ?thesis using admit_keeps(2) [OF Inr] api_route_steps [OF r] reads_change_nothing [OF _ r] by auto
qed

subsection \<open>The admission budget\<close>

text \<open>
  What a served call counts for: nothing when it reads or was refused at the door, the receipts it decides
  on when it is an admitted batch, one otherwise.
\<close>

definition call_work :: "api_call \<Rightarrow> payload \<Rightarrow> rat" where
  "call_work c p = (if \<not> apc_post c then 0
     else if apc_path c \<noteq> ''/api/v1/receipts/batch'' then 1
     else case p of P_batch_response b \<Rightarrow> of_nat (length (bat_results b)) | _ \<Rightarrow> 1)"

definition serve_call :: "server_config \<Rightarrow> call_env \<Rightarrow> api_call \<Rightarrow> server \<Rightarrow> server \<times> rat" where
  "serve_call cfg env c srv = (case admit cfg env c srv of
     Inl (srv1, _) \<Rightarrow> (srv1, 0)
   | Inr srv1 \<Rightarrow> (case api_route cfg env c srv1 of
         None \<Rightarrow> (srv1, if apc_post c then 1 else 0)
       | Some (srv2, _, p) \<Rightarrow> (srv2, call_work c p)))"

text \<open>Calls of all clients in any order, with the worker's transactions between them.\<close>

inductive api_run :: "server_config \<Rightarrow> server \<Rightarrow> rat \<Rightarrow> server \<Rightarrow> bool" for cfg where
  run_start: "api_run cfg srv 0 srv"
| run_call: "api_run cfg srv n srv1 \<Longrightarrow> srv_last srv1 \<le> cev_now env \<Longrightarrow> serve_call cfg env c srv1 = (srv2, w) \<Longrightarrow>
    api_run cfg srv (n + w) srv2"
| run_background: "api_run cfg srv n srv1 \<Longrightarrow> (engine_step (cfg_digest cfg))\<^sup>*\<^sup>* (srv_db srv1) s \<Longrightarrow>
    api_run cfg srv n (srv1\<lparr>srv_db := s, srv_worker := wk\<rparr>)"

text \<open>The level of the bucket is within its bounds, and time does not go back.\<close>

definition bucket_ok :: "rat \<Rightarrow> server \<Rightarrow> bool" where
  "bucket_ok now srv \<longleftrightarrow> 0 \<le> srv_tokens srv \<and> srv_tokens srv \<le> 60 \<and> srv_last srv \<le> now"

definition budget :: "server \<Rightarrow> rat" where
  "budget srv = srv_tokens srv - 30 * srv_last srv"

lemma allow_cost_budget:
  assumes "bucket_ok now srv" and "0 \<le> cost" and "allow_cost now cost srv = (srv', allowed)"
  shows "bucket_ok now srv' \<and> budget srv' + (if allowed then cost else 0) \<le> budget srv \<and> srv_last srv' = now"
  using assms by (auto simp: allow_cost_def bucket_ok_def budget_def Let_def min_def algebra_simps split: if_splits)

lemma admit_budget:
  assumes "bucket_ok (cev_now env) srv"
  shows "admit cfg env c srv = Inl a \<Longrightarrow> bucket_ok (cev_now env) (fst a) \<and> budget (fst a) \<le> budget srv"
    and "admit cfg env c srv = Inr srv1 \<Longrightarrow>
      bucket_ok (cev_now env) srv1 \<and> budget srv1 + (if apc_post c then 1 else 0) \<le> budget srv"
proof -
  obtain srv2 allowed where a: "allow_cost (cev_now env) 1 srv = (srv2, allowed)" by fastforce
  from allow_cost_budget [OF assms _ a]
  have b: "bucket_ok (cev_now env) srv2" "budget srv2 + (if allowed then 1 else 0) \<le> budget srv" by auto
  show "admit cfg env c srv = Inl a \<Longrightarrow> bucket_ok (cev_now env) (fst a) \<and> budget (fst a) \<le> budget srv"
    using a b assms by (auto simp: admit_def split: if_splits)
  show "admit cfg env c srv = Inr srv1 \<Longrightarrow>
      bucket_ok (cev_now env) srv1 \<and> budget srv1 + (if apc_post c then 1 else 0) \<le> budget srv"
    using a b assms by (auto simp: admit_def split: if_splits)
qed

lemma accept_items_length: "length (snd (accept_items cfg env i items s)) = length items"
  by (induction items arbitrary: i s) (simp_all add: Let_def split_def)

lemma batch_budget:
  assumes "bucket_ok (cev_now env) srv" and "accept_batch cfg env c srv = (srv2, status, p)"
    and "apc_post c" and "apc_path c = ''/api/v1/receipts/batch''"
  shows "bucket_ok (cev_now env) srv2 \<and> budget srv2 + call_work c p \<le> budget srv + 1"
proof (cases "decode_body as_batch c")
  case (Inl a)
  then have "(status, p) = a" "srv2 = srv" using assms(2) by (auto simp: accept_batch_def)
  moreover from Inl have "\<exists>m. snd a = P_problem m" by (auto simp: decode_body_def split: if_splits option.splits)
  ultimately show ?thesis using assms(1) by (auto simp: call_work_def)
next
  case (Inr items)
  obtain srv1 allowed where a: "allow_cost (cev_now env) (of_nat (length items - 1)) srv = (srv1, allowed)" by fastforce
  from allow_cost_budget [OF assms(1) _ a]
  have b: "bucket_ok (cev_now env) srv1" "budget srv1 + (if allowed then of_nat (length items - 1) else 0) \<le> budget srv" by auto
  have "items \<noteq> [] \<Longrightarrow> (of_nat (length items - 1) :: rat) = of_nat (length items) - 1" by (cases items) auto
  with Inr a b assms accept_items_length [of cfg env 0 items "srv_db srv1"] show ?thesis
    by (auto simp: accept_batch_def batch_answer_def call_work_def Let_def split_def bucket_ok_def budget_def split: if_splits)
qed

lemma routes_keep_bucket:
  shows "srv_tokens (fst (route_reset cfg env c srv)) = srv_tokens srv \<and> srv_last (fst (route_reset cfg env c srv)) = srv_last srv"
    and "srv_tokens (fst (route_demo cfg env c srv)) = srv_tokens srv \<and> srv_last (fst (route_demo cfg env c srv)) = srv_last srv"
    and "srv_tokens (fst (route_reserve cfg env c srv)) = srv_tokens srv \<and> srv_last (fst (route_reserve cfg env c srv)) = srv_last srv"
    and "srv_tokens (fst (route_accept cfg env c srv)) = srv_tokens srv \<and> srv_last (fst (route_accept cfg env c srv)) = srv_last srv"
  by (auto simp: route_reset_def route_demo_def run_scenario_def route_reserve_def route_accept_def Let_def
           split: prod.split sum.split option.split)

lemma route_batch: "apc_post c \<Longrightarrow> apc_path c = ''/api/v1/receipts/batch'' \<Longrightarrow>
  api_route cfg env c srv = Some (accept_batch cfg env c srv)"
  by (simp add: api_route_def)

lemma route_budget:
  assumes "bucket_ok (cev_now env) srv" and "api_route cfg env c srv = Some (srv2, status, p)"
  shows "bucket_ok (cev_now env) srv2 \<and> budget srv2 + call_work c p \<le> budget srv + (if apc_post c then 1 else 0)"
proof (cases "apc_post c \<and> apc_path c = ''/api/v1/receipts/batch''")
  case True
  then show ?thesis using batch_budget [OF assms(1)] assms(2) route_batch by auto
next
  case False
  have w: "call_work c p \<le> (if apc_post c then 1 else 0)" using False by (auto simp: call_work_def)
  from assms(2) have "srv_tokens srv2 = srv_tokens srv \<and> srv_last srv2 = srv_last srv"
  proof (cases rule: api_route_cases)
    case (replay i f)
    then show ?thesis by (metis fst_conv on_db_fst(2,3))
  qed (use False routes_keep_bucket [of cfg env c srv] in \<open>metis fst_conv | simp\<close>)+
  then show ?thesis using assms(1) w by (simp add: bucket_ok_def budget_def)
qed

lemma serve_call_budget:
  assumes "bucket_ok (cev_now env) srv" and "serve_call cfg env c srv = (srv', w)"
  shows "bucket_ok (cev_now env) srv' \<and> budget srv' + w \<le> budget srv"
proof (cases "admit cfg env c srv")
  case (Inl a)
  then show ?thesis using admit_budget(1) [OF assms(1) Inl] assms(2) by (auto simp: serve_call_def split: prod.splits)
next
  case (Inr srv1)
  note b = admit_budget(2) [OF assms(1) Inr]
  show ?thesis
  proof (cases "api_route cfg env c srv1")
    case None
    then show ?thesis using b Inr assms(2) by (auto simp: serve_call_def)
  next
    case (Some a)
    obtain srv2 status p where a: "a = (srv2, status, p)" by (cases a)
    then show ?thesis using Some b Inr assms(2) route_budget [OF conjunct1 [OF b] Some [unfolded a]]
      by (auto simp: serve_call_def)
  qed
qed

lemma run_budget:
  assumes "api_run cfg srv n srv'" and "0 \<le> srv_tokens srv" and "srv_tokens srv \<le> 60"
  shows "bucket_ok (srv_last srv') srv' \<and> budget srv' + n \<le> budget srv"
  using assms
proof (induction rule: api_run.induct)
  case (run_call srv n srv1 env c srv2 w)
  then have "bucket_ok (cev_now env) srv1" by (simp add: bucket_ok_def)
  from serve_call_budget [OF this run_call(3)] run_call show ?case by (simp add: bucket_ok_def)
qed (simp_all add: bucket_ok_def budget_def)

lemma serve_call_steps:
  assumes "serve_call cfg env c srv = (srv', w)" shows "(demo_step (cfg_digest cfg))\<^sup>*\<^sup>* (srv_db srv) (srv_db srv')"
proof (cases "admit cfg env c srv")
  case (Inl a)
  then show ?thesis using assms admit_keeps(1) [OF Inl] by (auto simp: serve_call_def split: prod.splits)
next
  case (Inr srv1)
  then show ?thesis using assms admit_keeps(2) [OF Inr] api_route_steps [of cfg env c srv1]
    by (cases "api_route cfg env c srv1") (auto simp: serve_call_def split: prod.splits)
qed

lemma reaches_steps: "engine_reaches digest s \<Longrightarrow> (demo_step digest)\<^sup>*\<^sup>* s s' \<Longrightarrow> engine_reaches digest s'"
  unfolding engine_reaches_def by (rule rtranclp_trans)

lemma run_reaches:
  assumes "api_run cfg srv n srv'" and "engine_reaches (cfg_digest cfg) (srv_db srv)"
  shows "engine_reaches (cfg_digest cfg) (srv_db srv')"
  using assms by (induction rule: api_run.induct) (auto intro: reaches_steps serve_call_steps steps_demo)

text \<open>
  C16. Writes are bounded however they are batched: in every interleaving of calls of any clients with
  the worker, the writes and batched receipts the server has taken on are at most 60 plus 30 for every
  second, the bucket stays within 0 and 60 tokens, and the database stays one the engine reaches.
\<close>

theorem writes_are_rate_limited:
  assumes "api_run cfg srv n srv'" and "0 \<le> srv_tokens srv" and "srv_tokens srv \<le> 60"
    and "engine_reaches (cfg_digest cfg) (srv_db srv)"
  shows "n \<le> 60 + 30 * (srv_last srv' - srv_last srv) \<and> 0 \<le> srv_tokens srv' \<and> srv_tokens srv' \<le> 60 \<and>
    engine_reaches (cfg_digest cfg) (srv_db srv')"
  using run_budget [OF assms(1-3)] run_reaches [OF assms(1,4)] assms(3) by (simp add: bucket_ok_def budget_def)

subsection \<open>Sending a batch again\<close>

lemma accept_item_again:
  assumes "sound_db s" and "accept_item cfg env i item s = (s1, r)" and "brs_status r = 202"
    and "(engine_step (cfg_digest cfg))\<^sup>*\<^sup>* s1 s2"
  shows "accept_item cfg env' i item s2 = (s2, r\<lparr>brs_replayed := True\<rparr>)"
proof (cases item)
  case (Item p)
  with assms(2,3) obtain ident again where
    a: "accept (cfg_digest cfg) (cev_ids env i) (cev_times env i) (cfg_tenant cfg) p s = (s1, Inr (ident, again))"
    by (auto simp: accept_item_def Let_def split: prod.splits sum.splits engine_error.splits)
  have "accept (cfg_digest cfg) (cev_ids env' i) (cev_times env' i) (cfg_tenant cfg) p s2 = (s2, Inr (ident, True))"
    using accept_leaves [OF a] accepted_found [OF assms(1) a assms(4)] by (auto simp: accept_def)
  with a show ?thesis using Item assms(2) by (auto simp: accept_item_def Let_def)
qed (use assms in \<open>auto simp: accept_item_def\<close>)

lemma accept_items_again:
  assumes "sound_db s" and "accept_items cfg env i items s = (s1, rs)"
    and "(engine_step (cfg_digest cfg))\<^sup>*\<^sup>* s1 s2" and "accept_items cfg env' i items s2 = (s3, rs')"
  shows "list_all2 (\<lambda>r r'. brs_status r = 202 \<longrightarrow> r' = r\<lparr>brs_replayed := True\<rparr>) rs rs' \<and>
    ((\<forall>r \<in> set rs. brs_status r = 202) \<longrightarrow> s3 = s2)"
  using assms
proof (induction items arbitrary: i s rs s2 rs')
  case (Cons item items)
  obtain t r where t: "accept_item cfg env i item s = (t, r)" by fastforce
  obtain rs0 where rs0: "accept_items cfg env (Suc i) items t = (s1, rs0)" "rs = r # rs0"
    using Cons.prems(2) t by (auto simp: Let_def split: prod.splits)
  obtain t' r' where t': "accept_item cfg env' i item s2 = (t', r')" by fastforce
  obtain rs0' where rs0': "accept_items cfg env' (Suc i) items t' = (s3, rs0')" "rs' = r' # rs0'"
    using Cons.prems(4) t' by (auto simp: Let_def split: prod.splits)
  have step: "(engine_step (cfg_digest cfg))\<^sup>*\<^sup>* u (fst (accept_item cfg e i item u))" for u e
    using accept_items_steps [of cfg u e i "[item]"] by (simp add: Let_def split_def)
  from steps_continue [OF step Cons.prems(1), of env] t have sound: "sound_db t" by simp
  have "(engine_step (cfg_digest cfg))\<^sup>*\<^sup>* t s2"
    using accept_items_steps [of cfg t env "Suc i" items] rs0(1) Cons.prems(3) by simp
  then have first: "brs_status r = 202 \<Longrightarrow> t' = s2 \<and> r' = r\<lparr>brs_replayed := True\<rparr>"
    using accept_item_again [OF Cons.prems(1) t _ , of s2 env'] t' by simp
  have "(engine_step (cfg_digest cfg))\<^sup>*\<^sup>* s1 t'"
    using Cons.prems(3) step [of s2 env'] t' by simp
  from Cons.IH [OF sound rs0(1) this rs0'(1)] first show ?case by (auto simp: rs0(2) rs0'(2))
qed simp

lemma batch_answered:
  assumes "handle_api cfg env c srv = Some (srv1, status, P_batch_response b)"
    and "apc_post c" and "apc_path c = ''/api/v1/receipts/batch''"
  obtains items rs where "decode_body as_batch c = Inr items" and "accept_items cfg env 0 items (srv_db srv) = (srv_db srv1, rs)"
    and "batch_answer rs = (status, b)"
proof (cases "admit cfg env c srv")
  case (Inl a)
  then show thesis using assms(1) by (auto simp: handle_api_def admit_def Let_def split_def split: if_splits)
next
  case (Inr srv2)
  then have r: "accept_batch cfg env c srv2 = (srv1, status, P_batch_response b)"
    using assms by (simp add: handle_api_def route_batch)
  show thesis
  proof (cases "decode_body as_batch c")
    case (Inl a)
    then show thesis using r by (auto simp: accept_batch_def decode_body_def split: if_splits option.splits)
  next
    case (Inr items)
    have "srv_db srv2 = srv_db srv" using admit_keeps(2) \<open>admit cfg env c srv = Inr srv2\<close> by blast
    with r Inr have "accept_items cfg env 0 items (srv_db srv) = (srv_db srv1, snd (accept_items cfg env 0 items (srv_db srv)))"
      "batch_answer (snd (accept_items cfg env 0 items (srv_db srv))) = (status, b)"
      by (auto simp: accept_batch_def Let_def split_def split: if_splits)
    with Inr show thesis by (rule that)
  qed
qed

lemma all_accepted_again:
  assumes "list_all2 (\<lambda>r r'. brs_status r = 202 \<longrightarrow> r' = r\<lparr>brs_replayed := True\<rparr>) rs rs'" and "\<forall>r \<in> set rs. brs_status r = 202"
  shows "batch_answer rs' = (202, \<lparr>bat_accepted = int (length rs), bat_rejected = 0, bat_replayed = int (length rs), bat_results = rs'\<rparr>)"
proof -
  from assms have "\<forall>r \<in> set rs'. brs_status r = 202 \<and> brs_replayed r" "length rs' = length rs"
    by (induction rule: list_all2_induct) auto
  moreover from this have "filter (\<lambda>r. brs_status r = 202 \<and> brs_replayed r) rs' = rs'" "filter (\<lambda>r. brs_status r = 202) rs' = rs'"
    "filter (\<lambda>r. brs_status r \<noteq> 202) rs' = []" by (auto intro: filter_True)
  ultimately show ?thesis by (simp add: batch_answer_def)
qed

text \<open>
  C15. An interrupted batch can be sent again: whatever the engine did since, each receipt that was
  accepted is answered as before, with the same identifier and marked as replayed; and when all of them
  were accepted, the second sending changes nothing and reports every receipt as a replay.
\<close>

theorem batch_can_be_resent:
  assumes "engine_reaches (cfg_digest cfg) (srv_db srv)" and "apc_post c" and "apc_path c = ''/api/v1/receipts/batch''"
    and "handle_api cfg env c srv = Some (srv1, status, P_batch_response b)"
    and "(engine_step (cfg_digest cfg))\<^sup>*\<^sup>* (srv_db srv1) (srv_db srv2)"
    and "handle_api cfg env' c srv2 = Some (srv3, status', P_batch_response b')"
  shows "list_all2 (\<lambda>r r'. brs_status r = 202 \<longrightarrow> r' = r\<lparr>brs_replayed := True\<rparr>) (bat_results b) (bat_results b') \<and>
    (status = 202 \<longrightarrow> srv_db srv3 = srv_db srv2 \<and> status' = 202 \<and> bat_replayed b' = int (length (bat_results b)))"
proof -
  from batch_answered [OF assms(4,2,3)] obtain items rs where 1: "decode_body as_batch c = Inr items"
    "accept_items cfg env 0 items (srv_db srv) = (srv_db srv1, rs)" "batch_answer rs = (status, b)" by blast
  from batch_answered [OF assms(6,2,3)] 1(1) obtain rs' where 2:
    "accept_items cfg env' 0 items (srv_db srv2) = (srv_db srv3, rs')" "batch_answer rs' = (status', b')" by auto
  note again = accept_items_again [OF reaches_sound_db [OF assms(1)] 1(2) assms(5) 2(1)]
  have "status = 202 \<Longrightarrow> \<forall>r \<in> set rs. brs_status r = 202"
    using 1(3) by (auto simp: batch_answer_def Let_def filter_empty_conv split: if_splits)
  moreover have "bat_results b = rs" "bat_results b' = rs'" using 1(3) 2(2) by (auto simp: batch_answer_def Let_def)
  ultimately show ?thesis using again all_accepted_again [of rs rs'] 2(2) by auto
qed

subsection \<open>A day of calls\<close>

definition day_config :: server_config where
  "day_config = \<lparr>cfg_tenant = ''t'', cfg_key = [], cfg_previous_key = [], cfg_demo = True, cfg_reset = True,
     cfg_transport = ''local'', cfg_postgres = False, cfg_digest = day_digest, cfg_hash = id\<rparr>"

definition day_server :: "rat \<Rightarrow> rat \<Rightarrow> database \<Rightarrow> server" where
  "day_server tokens latest s = \<lparr>srv_db = s, srv_worker = day_worker, srv_generation = ''g'', srv_tokens = tokens, srv_last = latest\<rparr>"

definition day_env :: "rat \<Rightarrow> call_env" where
  "day_env now = \<lparr>cev_now = now, cev_ids = (\<lambda>i. day_ids (if i = 0 then ''a'' else ''b'')), cev_times = (\<lambda>_. day_times), cev_full = False, cev_clock = 0\<rparr>"

definition day_call :: "string \<Rightarrow> api_call" where
  "day_call origin = \<lparr>apc_post = True, apc_path = ''/api/v1/receipts/batch'', apc_auth = [], apc_origin = origin,
     apc_host = ''localhost'', apc_key = [], apc_generation = ''g'', apc_json = True,
     apc_body = Some (P_batch [Item (day_receipt ''e1''), Malformed ''7'', Item (day_receipt ''e2'')]), apc_trailing = False\<rparr>"

definition day_results :: "bool \<Rightarrow> batch_result list" where
  "day_results again = [
     \<lparr>brs_index = 0, brs_status = 202, brs_id = Some ''a'', brs_replayed = again, brs_retryable = False,
      brs_detail = ''database_and_outbox_committed''\<rparr>,
     \<lparr>brs_index = 1, brs_status = 400, brs_id = None, brs_replayed = False, brs_retryable = False, brs_detail = ''invalid_receipt_object''\<rparr>,
     \<lparr>brs_index = 2, brs_status = 202, brs_id = Some ''b'', brs_replayed = again, brs_retryable = False,
      brs_detail = ''database_and_outbox_committed''\<rparr>]"

lemmas day_call_simps = handle_api_def admit_def authorized_def cross_origin_def allow_cost_def stale_generation_def
  day_config_def day_server_def day_env_def day_call_def

lemma day_items:
  "accept_items day_config (day_env now) 0 [Item (day_receipt ''e1''), Malformed ''7'', Item (day_receipt ''e2'')] day1 = (day2, day_results False)"
  "accept_items day_config (day_env now) 0 [Item (day_receipt ''e1''), Malformed ''7'', Item (day_receipt ''e2'')] day3 = (day3, day_results True)"
  by (simp_all add: accept_item_def accept_def add_audit_def day_results_def day_config_def day_env_def Let_def day_simps schema_simps)

lemma day_batch:
  "handle_api day_config (day_env 1) (day_call []) (day_server 60 0 day1) =
     Some (day_server 57 1 day2, 207, P_batch_response \<lparr>bat_accepted = 2, bat_rejected = 1, bat_replayed = 0, bat_results = day_results False\<rparr>)"
  "handle_api day_config (day_env 2) (day_call []) (day_server 57 1 day3) =
     Some (day_server 57 2 day3, 207, P_batch_response \<lparr>bat_accepted = 2, bat_rejected = 1, bat_replayed = 2, bat_results = day_results True\<rparr>)"
  using day_items by (simp_all add: day_call_simps route_batch accept_batch_def decode_body_def batch_answer_def Let_def day_results_def)

theorem api_calls_guarded_witness:
  "cross_origin (day_call ''http://evil'') \<and>
   handle_api day_config (day_env 1) (day_call ''http://evil'') (day_server 60 0 day1) =
     Some (day_server 60 0 day1, 403, P_problem ''cross_origin_request'') \<and>
   (403 :: int) \<in> {401, 403, 429, 503, 409}"
proof -
  have e: "cross_origin (day_call ''http://evil'')" "apc_post (day_call ''http://evil'')" by (simp_all add: cross_origin_def day_call_def)
  have h: "handle_api day_config (day_env 1) (day_call ''http://evil'') (day_server 60 0 day1) =
     Some (day_server 60 0 day1, 403, P_problem ''cross_origin_request'')" by (simp add: day_call_simps)
  from api_calls_guarded [OF h] e h show ?thesis by blast
qed

theorem writes_are_rate_limited_witness:
  "api_run day_config (day_server 60 0 day1) 3 (day_server 57 1 day2) \<and>
   (3 :: rat) \<le> 60 + 30 * (1 - 0) \<and> engine_reaches day_digest day2"
proof -
  have "serve_call day_config (day_env 1) (day_call []) (day_server 60 0 day1) = (day_server 57 1 day2, 3)"
    using day_batch(1) unfolding handle_api_def serve_call_def
    by (auto simp: admit_def call_work_def day_call_def day_results_def split: sum.splits prod.splits if_splits)
  then have r: "api_run day_config (day_server 60 0 day1) 3 (day_server 57 1 day2)"
    using run_call [OF run_start, of "day_server 60 0 day1" "day_env 1" day_config] by (simp add: day_server_def day_env_def)
  have "0 \<le> srv_tokens (day_server 60 0 day1)" "srv_tokens (day_server 60 0 day1) \<le> 60"
    "engine_reaches (cfg_digest day_config) (srv_db (day_server 60 0 day1))"
    by (simp_all add: day_server_def day_config_def day_reaches)
  from writes_are_rate_limited [OF r this] r show ?thesis by (simp add: day_server_def day_config_def)
qed

theorem batch_can_be_resent_witness:
  "list_all2 (\<lambda>r r'. brs_status r = 202 \<longrightarrow> r' = r\<lparr>brs_replayed := True\<rparr>) (day_results False) (day_results True)"
proof -
  have "(engine_step day_digest)\<^sup>*\<^sup>* day2 day3"
    unfolding day3_run [symmetric] by (rule rtranclp.rtrancl_into_rtrancl, rule r_into_rtranclp) (rule e_process)+
  then have "(engine_step (cfg_digest day_config))\<^sup>*\<^sup>* (srv_db (day_server 57 1 day2)) (srv_db (day_server 57 1 day3))"
    by (simp add: day_config_def day_server_def)
  moreover have "engine_reaches (cfg_digest day_config) (srv_db (day_server 60 0 day1))"
    by (simp add: day_server_def day_config_def day_reaches)
  moreover have "apc_post (day_call [])" "apc_path (day_call []) = ''/api/v1/receipts/batch''" by (simp_all add: day_call_def)
  ultimately show ?thesis using batch_can_be_resent [OF _ _ _ day_batch(1) _ day_batch(2)] by simp
qed

end
