(* ===== verification/EndToEnd.thy ===== *)
theory EndToEnd
  imports HttpApi ProofRuns
begin

text \<open>
  The console on the service: a responder that carries each request of a page through a network that
  may lose or garble it to the HTTP API, with the local worker running in between, and brings the answer
  back. With it the live proof of the console (\<open>proof.js\<close>) is composed with the API (\<open>server.go\<close>,
  \<open>batch.go\<close>), the engine (\<open>store.go\<close>) and the worker (\<open>worker.go\<close>): what a finished run claims is
  true of the database.
\<close>

subsection \<open>The network\<close>

datatype fate = Delivered | Request_lost | Reply_lost | Reply_garbled

text \<open>
  What happens to the \<open>n\<close>-th awaited operation: the fate of its request and reply, what the API reads
  from its environment, what the worker does before it, and how long it takes.
\<close>

record network =
  net_host :: string
  net_fate :: "nat \<Rightarrow> fate"
  net_env :: "nat \<Rightarrow> call_env"
  net_work :: "nat \<Rightarrow> worker_event list"
  net_lag :: "nat \<Rightarrow> int"

record wire =
  wir_server :: server
  wir_body :: "payload option"
  wir_no :: nat

text \<open>A request of the console as the API reads it; the console is served from the same origin.\<close>

definition browser_call :: "string \<Rightarrow> http_request \<Rightarrow> api_call" where
  "browser_call host rq = \<lparr>apc_post = rq_post rq, apc_path = rq_path rq, apc_auth = [], apc_origin = ''http://'' @ host,
     apc_host = host, apc_key = (case rq_key rq of None \<Rightarrow> [] | Some k \<Rightarrow> k),
     apc_generation = (case rq_generation rq of None \<Rightarrow> [] | Some g \<Rightarrow> g), apc_json = True,
     apc_body = Some (rq_body rq), apc_trailing = False\<rparr>"

text \<open>The header with the generation is set on every call that reaches the gate of the demo.\<close>

definition generation_header :: "server_config \<Rightarrow> call_env \<Rightarrow> api_call \<Rightarrow> server \<Rightarrow> server \<Rightarrow> string option" where
  "generation_header cfg env c srv srv' =
     (if cfg_demo cfg \<and> cfg_reset cfg \<and> (case admit cfg env c srv of Inl (_, st, _) \<Rightarrow> st = 409 | Inr _ \<Rightarrow> True)
      then Some (srv_generation srv') else None)"

definition retry_header :: "payload \<Rightarrow> string option" where
  "retry_header p = (case p of
     P_problem m \<Rightarrow> if m = ''rate_limited'' \<or> m = ''overloaded'' then Some ''1''
       else if m = ''batch_rate_limited'' then Some ''2'' else None
   | _ \<Rightarrow> None)"

definition let_work :: "network \<Rightarrow> wire \<Rightarrow> wire" where
  "let_work net w = (let srv = wir_server w in
     case run_worker None (net_work net (wir_no w)) (srv_worker srv) (srv_db srv) of (wk, s) \<Rightarrow>
       w\<lparr>wir_server := srv\<lparr>srv_db := s, srv_worker := wk\<rparr>, wir_no := Suc (wir_no w)\<rparr>)"

definition carry :: "server_config \<Rightarrow> network \<Rightarrow> http_request \<Rightarrow> wire \<Rightarrow> reply \<times> wire" where
  "carry cfg net rq w =
     (let n = wir_no w; w1 = let_work net w; srv = wir_server w1; c = browser_call (net_host net) rq in
      if net_fate net n = Request_lost then (Refused ''Failed to fetch'', w1)
      else case handle_api cfg (net_env net n) c srv of
          None \<Rightarrow> (Refused ''Failed to fetch'', w1)
        | Some (srv', status, p) \<Rightarrow>
            (if net_fate net n = Reply_lost then Refused ''Failed to fetch''
             else Responded \<lparr>rs_status = status, rs_generation = generation_header cfg (net_env net n) c srv srv',
               rs_retry_after = retry_header p\<rparr>,
             w1\<lparr>wir_server := srv', wir_body := (if net_fate net n = Delivered then Some p else None)\<rparr>))"

definition on_wire :: "server_config \<Rightarrow> network \<Rightarrow> wire \<Rightarrow> awaiting \<Rightarrow> 'a page_scheme \<Rightarrow> reply \<times> 'a page_scheme \<times> wire" where
  "on_wire cfg net w q s =
     (let later = (\<lambda>ms. s\<lparr>clock := clock s + ms + net_lag net (wir_no w)\<rparr>) in
      case q of
        Fetch rq \<Rightarrow> (case carry cfg net rq w of (r, w') \<Rightarrow> (r, later 0, w'))
      | ReadBody rq \<Rightarrow> (case wir_body w of None \<Rightarrow> BadBody ''Unexpected end of JSON input'' | Some p \<Rightarrow> Body p,
          later 0, let_work net w)
      | Sleep ms \<Rightarrow> (Woken, later ms, let_work net w))"

subsection \<open>Programs on a changing world\<close>

text \<open>
  A responder whose world satisfies \<open>fine\<close> and only moves forward in \<open>later\<close>, as long as the program waits for
  what \<open>asks\<close> allows, and which leaves the program's own fields alone.
\<close>

locale served =
  fixes env :: "'w \<Rightarrow> awaiting \<Rightarrow> 's \<Rightarrow> reply \<times> 's \<times> 'w" and fine :: "'w \<Rightarrow> bool" and later :: "'w \<Rightarrow> 'w \<Rightarrow> bool"
    and asks :: "awaiting \<Rightarrow> 'o \<Rightarrow> bool" and own :: "'s \<Rightarrow> 'o"
  assumes moves: "fine w \<Longrightarrow> asks q (own s) \<Longrightarrow> env w q s = (r, s', w') \<Longrightarrow> fine w' \<and> later w w' \<and> own s' = own s"
    and later_refl: "later w w" and later_trans: "later w1 w2 \<Longrightarrow> later w2 w3 \<Longrightarrow> later w1 w3"
begin

lemma run_moves:
  assumes "keeps own asks (\<lambda>_ _. True) Q E m" and "drive m env w = (x, s', w')" and "fine w"
  shows "fine w' \<and> later w w'"
  using assms
proof (induction m arbitrary: w)
  case (Await s q k)
  obtain r s1 w1 where e: "env w q s = (r, s1, w1)" by (cases "env w q s")
  with Await.prems have m: "fine w1" "later w w1" "own s1 = own s" using moves [of w q s r s1 w1] by auto
  have "keeps own asks (\<lambda>_ _. True) Q E (k r s1)" using Await.prems(1) m(3) by auto
  from Await.IH [OF this _ m(1)] e Await.prems(2) m(2) show ?case by (auto intro: later_trans)
qed (auto simp: later_refl)

text \<open>The replies of a run are known to come from worlds before its end.\<close>

lemma run_keeps:
  assumes "keeps own asks (\<lambda>_ _. True) Q E m" and "keeps own P ans Q' E' m" and "drive m env w = (x, s', w')"
    and "fine w" and "\<And>w1 q s r s1 w2. fine w1 \<Longrightarrow> later w1 w' \<Longrightarrow> env w1 q s = (r, s1, w2) \<Longrightarrow> ans q r"
  shows "case x of Inl e \<Rightarrow> E' e (own s') | Inr a \<Rightarrow> Q' a (own s')"
  using assms
proof (induction m arbitrary: w)
  case (Await s q k)
  obtain r s1 w1 where e: "env w q s = (r, s1, w1)" by (cases "env w q s")
  with Await.prems have m: "fine w1" "later w w1" "own s1 = own s" using moves [of w q s r s1 w1] by auto
  have k: "keeps own asks (\<lambda>_ _. True) Q E (k r s1)" "drive (k r s1) env w1 = (x, s', w')"
    using Await.prems(1,3) m(3) e by auto
  then have "ans q r" using run_moves [OF k m(1)] m(2) Await.prems(4,5) e later_trans by blast
  then have "keeps own P ans Q' E' (k r s1)" using Await.prems(2) m(3) by auto
  then show ?case using Await.IH [OF k(1) _ k(2) m(1)] Await.prems(5) by blast
qed auto

end

subsection \<open>What the API tells is in the database\<close>

lemma handle_engine_steps:
  assumes "handle_api cfg env c srv = Some (srv', status, p)" and "apc_post c \<Longrightarrow> take 10 (apc_path c) \<noteq> ''/api/demo/''"
  shows "(engine_step (cfg_digest cfg))\<^sup>*\<^sup>* (srv_db srv) (srv_db srv')"
proof (cases "admit cfg env c srv")
  case (Inl a)
  then show ?thesis using assms(1) admit_keeps(1) [OF Inl] by (simp add: handle_api_def)
next
  case (Inr srv1)
  then have r: "api_route cfg env c srv1 = Some (srv', status, p)" and db: "srv_db srv1 = srv_db srv"
    using assms(1) admit_keeps(2) [OF Inr] by (auto simp: handle_api_def)
  show ?thesis
  proof (cases "apc_post c")
    case False
    then show ?thesis using reads_change_nothing [OF _ r] db by simp
  next
    case True
    from r have "(engine_step (cfg_digest cfg))\<^sup>*\<^sup>* (srv_db srv1) (srv_db (fst (srv', status, p)))"
    proof (cases rule: api_route_cases)
      case (replay i f)
      then show ?thesis by (auto intro!: steps_one e_replay)
    qed (use True assms(2) in \<open>simp_all add: accept_batch_steps route_reserve_step route_accept_step\<close>)
    then show ?thesis using db by simp
  qed
qed

lemma fail_api_problem: "\<exists>st m. fail_api e = (st, P_problem m)"
  by (cases e) auto

definition told :: "api_answer \<Rightarrow> evidence \<Rightarrow> bool" where
  "told a e \<longleftrightarrow> snd (snd a) = P_evidence e"

lemma told_pair [simp]: "told (srv, st, p) e \<longleftrightarrow> p = P_evidence e"
  by (simp add: told_def)

lemma fail_not_told [simp]: "\<not> told (srv, fail_api x) e"
  using fail_api_problem [of x] by auto

lemma decode_not_told: "decode_body f c = Inl a \<Longrightarrow> \<not> told (srv, a) e"
  by (auto simp: decode_body_def split: if_splits option.splits)

lemma on_db_not_told: "(\<And>b. snd (f b) \<noteq> P_evidence e) \<Longrightarrow> \<not> told (on_db srv f x) e"
  by (auto simp: on_db_def told_def split: prod.split sum.split) (metis fail_not_told told_def snd_conv)

lemma reset_not_told: "\<not> told (route_reset cfg env c srv) e"
  by (auto simp: route_reset_def split: sum.split prod.split dest: decode_not_told)

lemma scenario_not_told: "\<not> told (run_scenario cfg env kind srv) e"
  by (auto simp: run_scenario_def Let_def split: option.split sum.split prod.split)

lemma demo_not_told: "\<not> told (route_demo cfg env c srv) e"
  by (auto simp: route_demo_def scenario_not_told split: sum.split dest: decode_not_told)

lemma batch_not_told: "\<not> told (accept_batch cfg env c srv) e"
  by (auto simp: accept_batch_def Let_def split: sum.split prod.split dest: decode_not_told)

lemma reserve_not_told: "\<not> told (route_reserve cfg env c srv) e"
  by (auto simp: route_reserve_def split: sum.split dest: decode_not_told intro!: on_db_not_told)

lemma accept_not_told: "\<not> told (route_accept cfg env c srv) e"
  by (auto simp: route_accept_def split: sum.split dest: decode_not_told intro!: on_db_not_told)

lemma evidence_told:
  assumes "api_route cfg env c srv = Some a" and "told a e"
  shows "srv_db (fst a) = srv_db srv \<and> (\<exists>now i. evidence_of now (cfg_tenant cfg) i (srv_db srv) = Inr e)"
  using assms
  by (auto simp: api_route_def Let_def reset_not_told demo_not_told batch_not_told reserve_not_told accept_not_told on_db_def
      split: if_splits option.splits sum.splits prod.splits) blast

text \<open>Evidence that the database had at some time before, for a tenant.\<close>

definition genuine :: "server_config \<Rightarrow> database \<Rightarrow> evidence \<Rightarrow> bool" where
  "genuine cfg db e \<longleftrightarrow> (\<exists>s now i. engine_reaches (cfg_digest cfg) s \<and> (engine_step (cfg_digest cfg))\<^sup>*\<^sup>* s db \<and>
     evidence_of now (cfg_tenant cfg) i s = Inr e)"

abbreviation "wire_db w \<equiv> srv_db (wir_server w)"

definition later_wire :: "server_config \<Rightarrow> wire \<Rightarrow> wire \<Rightarrow> bool" where
  "later_wire cfg w w' \<longleftrightarrow> (engine_step (cfg_digest cfg))\<^sup>*\<^sup>* (wire_db w) (wire_db w')"

definition wire_ok :: "server_config \<Rightarrow> wire \<Rightarrow> bool" where
  "wire_ok cfg w \<longleftrightarrow> engine_reaches (cfg_digest cfg) (wire_db w) \<and>
     (\<forall>e. wir_body w = Some (P_evidence e) \<longrightarrow> genuine cfg (wire_db w) e)"

lemma genuine_later: "genuine cfg db e \<Longrightarrow> (engine_step (cfg_digest cfg))\<^sup>*\<^sup>* db db' \<Longrightarrow> genuine cfg db' e"
  unfolding genuine_def by (meson rtranclp_trans)

lemma steps_reach: "engine_reaches digest s \<Longrightarrow> (engine_step digest)\<^sup>*\<^sup>* s s' \<Longrightarrow> engine_reaches digest s'"
  by (rule reaches_steps [OF _ steps_demo])

lemma let_work_later: "later_wire cfg w (let_work net w)"
  using later_db.worked [of "cfg_digest cfg" "wire_db w" "wire_db w" None "net_work net (wir_no w)" "srv_worker (wir_server w)"]
  by (simp add: later_wire_def let_work_def Let_def split_def)

lemma wire_ok_later: "wire_ok cfg w \<Longrightarrow> later_wire cfg w w' \<Longrightarrow> wir_body w' = wir_body w \<Longrightarrow> wire_ok cfg w'"
  by (auto simp: wire_ok_def later_wire_def intro: genuine_later steps_reach)

lemma let_work_ok: "wire_ok cfg w \<Longrightarrow> wire_ok cfg (let_work net w)"
  by (rule wire_ok_later [OF _ let_work_later]) (simp_all add: let_work_def Let_def split_def)

lemma handle_evidence:
  assumes "handle_api cfg env c srv = Some (srv', status, P_evidence e)"
  shows "srv_db srv' = srv_db srv \<and> (\<exists>now i. evidence_of now (cfg_tenant cfg) i (srv_db srv) = Inr e)"
proof (cases "admit cfg env c srv")
  case (Inl a)
  then show ?thesis using assms by (auto simp: handle_api_def admit_def Let_def split_def split: if_splits)
next
  case (Inr srv1)
  then show ?thesis
    using assms admit_keeps(2) [OF Inr] evidence_told [of cfg env c srv1 "(srv', status, P_evidence e)" e] by (simp add: handle_api_def)
qed

lemma carry_fine:
  assumes "wire_ok cfg w" and "rq_post rq \<Longrightarrow> take 10 (rq_path rq) \<noteq> ''/api/demo/''" and "carry cfg net rq w = (r, w')"
  shows "wire_ok cfg w' \<and> later_wire cfg w w'"
proof (cases "net_fate net (wir_no w) = Request_lost \<or>
    handle_api cfg (net_env net (wir_no w)) (browser_call (net_host net) rq) (wir_server (let_work net w)) = None")
  case True
  then have "w' = let_work net w" using assms(3) by (auto simp: carry_def Let_def split: if_splits)
  then show ?thesis using assms(1) by (simp add: let_work_ok let_work_later)
next
  case False
  let ?w1 = "let_work net w"
  from False obtain srv' status p where h: "handle_api cfg (net_env net (wir_no w)) (browser_call (net_host net) rq) (wir_server ?w1) =
      Some (srv', status, p)" by auto
  with False assms(3) have w': "wire_db w' = srv_db srv'" "wir_body w' = Some (P_evidence e) \<Longrightarrow> p = P_evidence e" for e
    by (auto simp: carry_def Let_def split: if_splits)
  have "(engine_step (cfg_digest cfg))\<^sup>*\<^sup>* (wire_db ?w1) (srv_db srv')"
    using handle_engine_steps [OF h] assms(2) by (simp add: browser_call_def)
  then have later: "later_wire cfg w w'" and "later_wire cfg ?w1 w'"
    using let_work_later [of cfg w net] w'(1) by (auto simp: later_wire_def)
  moreover have "genuine cfg (wire_db w') e" if "wir_body w' = Some (P_evidence e)" for e
    using handle_evidence [of cfg _ _ "wir_server ?w1" srv' status e] h w' that let_work_ok [OF assms(1), of net]
    by (auto simp: genuine_def wire_ok_def)
  ultimately show ?thesis using let_work_ok [OF assms(1), of net] by (auto simp: wire_ok_def later_wire_def intro: steps_reach)
qed

interpretation live: served "on_wire cfg net" "wire_ok cfg" "later_wire cfg" proof_sends proof_own for cfg net
proof (unfold_locales, goal_cases)
  case (1 w q s r s' w')
  have own: "proof_own (s\<lparr>clock := x\<rparr>) = proof_own s" for x by (simp add: proof_own_def)
  show ?case
  proof (cases q)
    case (Fetch rq)
    then obtain r' w'' where c: "carry cfg net rq w = (r', w'')" "w'' = w'" "s' = s\<lparr>clock := clock s + 0 + net_lag net (wir_no w)\<rparr>"
      using 1(3) by (auto simp: on_wire_def Let_def split: prod.splits)
    have "rq_post rq \<Longrightarrow> take 10 (rq_path rq) \<noteq> ''/api/demo/''" using 1(2) Fetch by (auto simp: proof_sends_def)
    with c carry_fine [OF 1(1)] own show ?thesis by auto
  next
    case (ReadBody rq)
    then show ?thesis using 1(1,3) let_work_ok let_work_later own by (auto simp: on_wire_def Let_def)
  next
    case (Sleep ms)
    then show ?thesis using 1(1,3) let_work_ok let_work_later own by (auto simp: on_wire_def Let_def)
  qed
qed (auto simp: later_wire_def)

subsection \<open>Where the final reading of a run comes from\<close>

text \<open>The rows of the final reading all satisfy \<open>good\<close>, and what a program must do to keep it so.\<close>

definition finals :: "(evidence \<Rightarrow> bool) \<Rightarrow> proof_vars \<Rightarrow> bool" where
  "finals good v \<longleftrightarrow> (\<forall>r rows. pv_run v = Some r \<longrightarrow> run_final r = Some rows \<longrightarrow> list_all good rows)"

definition honest_evidence :: "(evidence \<Rightarrow> bool) \<Rightarrow> awaiting \<Rightarrow> reply \<Rightarrow> bool" where
  "honest_evidence good q r \<longleftrightarrow> (\<forall>e. r = Body (P_evidence e) \<longrightarrow> good e)"

definition safe :: "(evidence \<Rightarrow> bool) \<Rightarrow> ('b \<Rightarrow> bool) \<Rightarrow> ('a proof_page_scheme, 'b) prog \<Rightarrow> bool" where
  "safe good R m \<longleftrightarrow> (\<forall>s. finals good (proof_own s) \<longrightarrow>
     keeps proof_own (\<lambda>_. finals good) (honest_evidence good) (\<lambda>a v. finals good v \<and> R a) (\<lambda>_. finals good) (m s))"

lemma safe_bind: "safe good R' m \<Longrightarrow> (\<And>a. R' a \<Longrightarrow> safe good R (f a)) \<Longrightarrow> safe good R (bind m f)"
  unfolding safe_def by (auto intro!: keeps_bind)

lemma safe_seq: "safe good R' m \<Longrightarrow> safe good R n \<Longrightarrow> safe good R (seq m n)"
  unfolding safe_def by (auto intro!: keeps_seq)

lemma safe_ret: "R a \<Longrightarrow> safe good R (ret a)"
  by (simp add: safe_def ret_def)

lemma safe_throw: "safe good R (throw e)"
  by (simp add: safe_def throw_def)

lemma safe_gets: "safe good (\<lambda>_. True) (gets f)"
  by (simp add: safe_def gets_def)

lemma safe_the_run: "safe good (\<lambda>_. True) the_run"
  by (auto simp: safe_def the_run_def split: option.split)

lemma safe_defined: "safe good (\<lambda>_. True) (defined x)"
  by (cases x) (simp_all add: defined_def safe_ret safe_throw)

lemma safe_assert: "safe good (\<lambda>_. True) (assert b m)"
  by (simp add: assert_def safe_ret safe_throw)

lemma safe_modify: "(\<And>s. finals good (proof_own s) \<Longrightarrow> finals good (proof_own (f s))) \<Longrightarrow> safe good (\<lambda>_. True) (modify f)"
  by (simp add: safe_def modify_def)

lemma safe_update: "(\<And>r rows. run_final (f r) = Some rows \<Longrightarrow> run_final r = Some rows \<or> list_all good rows) \<Longrightarrow> safe good (\<lambda>_. True) (update_run f)"
  unfolding update_run_def by (rule safe_modify) (fastforce simp: finals_def proof_own_def)

lemma safe_request: "(\<And>p. honest_evidence good (ReadBody rq) (Body p) \<Longrightarrow> R p) \<Longrightarrow> safe good R (request rq)"
  unfolding safe_def by (auto intro!: keeps_request [OF page_frame_proof])

lemma safe_shaped:
  "(\<And>p x. honest_evidence good (ReadBody rq) (Body p) \<Longrightarrow> f p = Some x \<Longrightarrow> R x) \<Longrightarrow> safe good R (bind (request rq) (shaped f))"
  unfolding safe_def by (auto intro!: keeps_shaped [OF page_frame_proof])

lemma safe_send: "safe good (\<lambda>_. True) (send rq b)"
  unfolding safe_def by (auto intro!: keeps_send [OF page_frame_proof])

lemma safe_read_json: "safe good (\<lambda>_. True) (read_json rq)"
  unfolding safe_def by (auto intro!: keeps_read_json)

lemma safe_await: "safe good (\<lambda>_. True) (await q)"
  by (simp add: safe_def await_def)

lemma safe_refresh: "safe good (\<lambda>_. True) (refresh collate)"
  unfolding safe_def by (auto intro!: keeps_refresh [OF console_frame_proof])

lemmas safe_intros = safe_ret safe_throw safe_gets safe_the_run safe_defined safe_assert safe_send safe_read_json safe_await
  safe_refresh

lemma safe_any: "safe good R m \<Longrightarrow> safe good (\<lambda>_. True) m"
  unfolding safe_def by (blast intro: keeps_mono)

lemma safe_read_rows: "safe good (list_all good) (read_rows ids)"
proof (induction ids)
  case (Cons i ids)
  have "safe good good (bind (request (delivery_request i)) (shaped as_evidence))"
  proof (rule safe_shaped)
    fix p e assume "honest_evidence good (ReadBody (delivery_request i)) (Body p)" and "as_evidence p = Some e"
    then show "good e" by (cases p) (auto simp: honest_evidence_def)
  qed
  then show ?case unfolding read_rows.simps
    by (rule safe_bind) (auto intro!: safe_bind [OF Cons.IH] safe_ret)
qed (simp add: safe_ret)

lemma safe_observe: "safe good (list_all good) (observe ids)"
proof -
  have "safe good (list_all good) (observe_until n d ids)" for n d
  proof (induction n)
    case (Suc n)
    then show ?case by (auto intro!: safe_bind [OF safe_read_rows] safe_bind [OF safe_gets] safe_seq [OF safe_await] safe_intros)
  qed (simp add: safe_throw)
  then show ?thesis unfolding observe_def by (rule safe_bind [OF safe_gets])
qed

lemma safe_mixed_batch: "safe good (\<lambda>_. True) (mixed_batch items)"
  unfolding mixed_batch_def
  by (auto intro!: safe_bind [OF safe_send] safe_bind [OF safe_read_json] safe_seq [OF safe_assert] safe_bind [OF safe_defined] safe_intros
      split: option.split)

lemma safe_reserve_holds: "safe good (\<lambda>_. True) (reserve_holds ks)"
proof (induction ks)
  case (Cons k ks)
  then show ?case
    by (auto intro!: safe_bind [OF safe_the_run] safe_bind [OF safe_shaped, where R' = "\<lambda>_. True"] safe_seq [OF safe_update])
qed (simp add: safe_ret)

lemma safe_stages:
  "safe good (\<lambda>_. True) stage_reserve" "safe good (\<lambda>_. True) stage_accept" "safe good (\<lambda>_. True) stage_retry"
  "safe good (\<lambda>_. True) stage_reconcile" "safe good (\<lambda>_. True) stage_correct" "safe good (\<lambda>_. True) stage_verify"
  unfolding stage_reserve_def stage_accept_def stage_retry_def stage_reconcile_def stage_correct_def stage_verify_def
  by (auto intro!: safe_bind [OF safe_the_run] safe_bind [OF safe_defined] safe_seq [OF safe_update] safe_update safe_bind [OF safe_observe]
      safe_seq [OF safe_reserve_holds] safe_bind [OF safe_mixed_batch] safe_seq [OF safe_assert] safe_assert safe_bind [OF safe_gets]
      safe_bind [OF safe_shaped, where R' = "\<lambda>_. True"])

lemma safe_step: "safe good (\<lambda>_. True) fn \<Longrightarrow> safe good (\<lambda>_. True) (step i fn)"
  unfolding step_def
  by (auto intro!: safe_bind [OF safe_the_run] safe_ret safe_seq [OF safe_update] safe_seq [OF safe_modify] safe_seq [where R' = "\<lambda>_. True" and m = fn]
      safe_bind [OF safe_gets] safe_modify simp: proof_own_def proof_own_save)

lemma safe_six_steps: "safe good (\<lambda>_. True) six_steps"
  unfolding six_steps_def by (intro safe_seq [where R' = "\<lambda>_. True"] safe_step safe_stages)

lemma safe_fresh_uuids: "safe good (\<lambda>_. True) (fresh_uuids n)"
proof (induction n)
  case (Suc n)
  have "safe good (\<lambda>_. True) (random_uuid :: ('a proof_page_scheme, _) prog)" by (simp add: safe_def random_uuid_def proof_own_def)
  with Suc show ?case by (auto intro!: safe_bind [where R' = "\<lambda>_. True"] safe_ret)
qed (simp add: safe_ret)

lemma safe_random_uuid: "safe good (\<lambda>_. True) random_uuid"
  by (simp add: safe_def random_uuid_def proof_own_def)

lemma safe_new_run: "safe good (\<lambda>_. True) (new_run campaign)"
proof -
  have fresh: "run_final r = None \<Longrightarrow> finals good (proof_own (save (s\<lparr>pf_run := Some r\<rparr>)))" for r and s :: "'a proof_page_scheme"
    by (simp add: proof_own_save finals_def proof_own_def)
  show ?thesis unfolding new_run_def
    by (auto intro!: safe_bind [OF safe_shaped, where R' = "\<lambda>_. True"] safe_throw safe_bind [OF safe_random_uuid]
        safe_bind [OF safe_gets] safe_bind [OF safe_fresh_uuids] safe_modify fresh split: option.split list.split)
qed

lemma safe_execute_body: "safe good (\<lambda>_. True) (execute_body collate campaign)"
  unfolding execute_body_def
  by (auto intro!: safe_bind [OF safe_gets] safe_seq [OF safe_new_run] safe_seq [OF safe_ret, where R' = "\<lambda>_. True"]
      safe_seq [OF safe_six_steps] safe_seq [OF safe_modify] safe_refresh simp: proof_own_def)

lemma execute_finals:
  assumes "finals good (proof_own s)"
  shows "keeps proof_own (\<lambda>_. finals good) (honest_evidence good) (\<lambda>_. finals good) (\<lambda>_. finals good) (execute collate campaign s)"
proof (cases "pf_running s \<or> \<not> rt_demo (runtime s)")
  case False
  have f: "finals good (proof_own (run_failed e s'))" if "finals good (proof_own s')" for e and s' :: "'a proof_page_scheme"
    unfolding run_failed_own using that by (auto simp: finals_def proof_own_def)
  have stop: "finals good (proof_own (s'\<lparr>pf_running := y\<rparr>)) = finals good (proof_own s')" for s' :: "'a proof_page_scheme" and y
    by (simp add: finals_def proof_own_def)
  have s1: "finals good (proof_own (s\<lparr>pf_running := True\<rparr>))" using assms by (simp add: finals_def proof_own_def)
  have b: "keeps proof_own (\<lambda>_. finals good) (honest_evidence good) (\<lambda>_. finals good) (\<lambda>_. finals good)
      (execute_body collate campaign (s\<lparr>pf_running := True\<rparr>))"
    using safe_execute_body [unfolded safe_def, rule_format, OF s1] by simp
  show ?thesis using False unfolding execute_def try_finally_def try_catch_def
    by (auto intro!: keeps_afinally [OF keeps_acatch [OF b]] simp: modify_def f stop)
qed (use assms in \<open>simp add: execute_def\<close>)

subsection \<open>A verified run is true\<close>

lemma as_receipt_SomeD: "as_receipt b = Some p \<Longrightarrow> b = P_receipt p"
  by (cases b) auto

lemma genuine_rows:
  assumes "genuine cfg db e"
  shows "evd_reservation e = Some h \<Longrightarrow> rsv_state h = RSettled \<Longrightarrow>
      \<exists>row \<in> set (db_reservations db). rsv_tenant row = cfg_tenant cfg \<and> reservation.truncate row = h"
    and "dlv_status (evd_delivery e) \<in> {Settled, Duplicate} \<Longrightarrow>
      \<exists>d \<in> set (db_deliveries db). dr_tenant d = cfg_tenant cfg \<and> dr_id d = dlv_id (evd_delivery e) \<and>
        dr_status d = dlv_status (evd_delivery e) \<and> dr_payload d = P_receipt (dlv_receipt (evd_delivery e))"
proof -
  from assms obtain s now i where s: "engine_reaches (cfg_digest cfg) s" "(engine_step (cfg_digest cfg))\<^sup>*\<^sup>* s db"
    and ev: "evidence_of now (cfg_tenant cfg) i s = Inr e" by (auto simp: genuine_def)
  have c: "continues s db" using steps_continue [OF s(2) reaches_sound_db [OF s(1)]] by simp
  from ev obtain d p where d: "array_find (\<lambda>d. dr_tenant d = cfg_tenant cfg \<and> dr_id d = i) (db_deliveries s) = Some d"
    "as_receipt (dr_payload d) = Some p" "evd_delivery e = \<lparr>dlv_id = i, dlv_receipt = p, dlv_status = dr_status d,
       dlv_reason = dr_reason d, dlv_received = dr_created d, dlv_attempts = dr_attempts d\<rparr>"
    and h: "evd_reservation e = map_option reservation.truncate
      (array_find (\<lambda>r. rsv_tenant r = cfg_tenant cfg \<and> rsv_id r = rcp_reservation p) (db_reservations s))"
    by (auto simp: evidence_of_def split: if_splits option.splits)
  note d1 = array_find_SomeD [OF d(1)] as_receipt_SomeD [OF d(2)]
  show "\<exists>d \<in> set (db_deliveries db). dr_tenant d = cfg_tenant cfg \<and> dr_id d = dlv_id (evd_delivery e) \<and>
        dr_status d = dlv_status (evd_delivery e) \<and> dr_payload d = P_receipt (dlv_receipt (evd_delivery e))"
    if "dlv_status (evd_delivery e) \<in> {Settled, Duplicate}"
  proof -
    from c d1 obtain d' where d': "d' \<in> set (db_deliveries db)" "continues_delivery d d'" by (auto simp: continues_def)
    have eq: "d' = d\<lparr>dr_status := dr_status d', dr_reason := dr_reason d', dr_attempts := dr_attempts d'\<rparr>"
      using d'(2) unfolding continues_delivery_def by (rule conjunct1)
    have st: "dr_status d' = dr_status d" using that d(3) d'(2) by (auto simp: continues_delivery_def)
    have "dr_tenant d' = dr_tenant d" "dr_id d' = dr_id d" "dr_payload d' = dr_payload d" by (subst eq, simp)+
    with d' d1 d(3) st show ?thesis by (intro bexI [of _ d']) auto
  qed
  show "\<exists>row \<in> set (db_reservations db). rsv_tenant row = cfg_tenant cfg \<and> reservation.truncate row = h"
    if st: "evd_reservation e = Some h" "rsv_state h = RSettled"
  proof -
    from st(1) h obtain row where row: "array_find (\<lambda>r. rsv_tenant r = cfg_tenant cfg \<and> rsv_id r = rcp_reservation p) (db_reservations s) = Some row"
      "h = reservation.truncate row" by auto
    from c array_find_SomeD [OF row(1)] obtain row' where row': "row' \<in> set (db_reservations db)" "continues_reservation row row'"
      by (auto simp: continues_def)
    have "rsv_state row = RSettled" using st(2) row(2) by (simp add: reservation.defs)
    with row'(2) have "row' = row" by (metis continues_reservation_def rstate.distinct(1) reservation.surjective
          reservation.update_convs(5))
    with row' row array_find_SomeD [OF row(1)] show ?thesis by auto
  qed
qed

text \<open>
  C2. A verified live proof is true of the database: run the proof of the console through a network that
  may lose or garble any request or reply, with the API and the worker in any state and order; if it ends
  with all six stages verified, then the database holds two different reservations of one cent that are
  settled, each by exactly one receipt, and a receipt that was suppressed as a duplicate.
\<close>

theorem verified_run_is_true:
  assumes "engine_reaches (cfg_digest cfg) (srv_db (wir_server w))" and "wir_body w = None"
    and "\<not> pf_running s" and "\<forall>r0. pf_run s = Some r0 \<longrightarrow> run_ok r0 \<and> run_final r0 = None"
    and "drive (execute collate campaign s) (on_wire cfg net) w = (x, s', w')"
    and "pf_run s' = Some r" and "all_done r"
  shows "(\<exists>h1 \<in> set (db_reservations (srv_db (wir_server w'))). \<exists>h2 \<in> set (db_reservations (srv_db (wir_server w'))).
      rsv_id h1 \<noteq> rsv_id h2 \<and> (\<forall>h \<in> {h1, h2}. rsv_tenant h = cfg_tenant cfg \<and> rsv_cost h = 10000 \<and> rsv_state h = RSettled \<and>
        count_where (settles h) (db_deliveries (srv_db (wir_server w'))) = 1)) \<and>
    (\<exists>d \<in> set (db_deliveries (srv_db (wir_server w'))). dr_tenant d = cfg_tenant cfg \<and> dr_status d = Duplicate)"
proof -
  let ?good = "genuine cfg (wire_db w')"
  have w: "wire_ok cfg w" using assms(1,2) by (simp add: wire_ok_def)
  have ok: "runs_ok (proof_own s)" using assms(4) by (auto simp: runs_ok_def proof_own_def)
  have owns: "keeps proof_own proof_sends (\<lambda>_ _. True) (\<lambda>_ v. runs_ok v) (\<lambda>_ v. runs_ok v) (execute collate campaign s)"
    by (rule keeps_mono [OF owns_execute [OF assms(3) ok, unfolded owns_def]]) auto
  from live.run_moves [OF owns assms(5) w] have w': "wire_ok cfg w'" by simp
  have runs: "runs_ok (proof_own s')"
    using live.run_keeps [OF owns owns assms(5) w] by (auto split: sum.splits)
  have "finals ?good (proof_own s')"
  proof -
    have told: "honest_evidence ?good q reply" if "wire_ok cfg w1" "later_wire cfg w1 w'" "on_wire cfg net w1 q s0 = (reply, s1, w2)"
      for w1 q s0 reply s1 w2
      using that by (auto simp: honest_evidence_def on_wire_def wire_ok_def later_wire_def Let_def carry_def
          split: awaiting.splits option.splits prod.splits if_splits intro: genuine_later)
    have "finals ?good (proof_own s)" using assms(4) by (auto simp: finals_def proof_own_def)
    from live.run_keeps [OF owns execute_finals [OF this] assms(5) w told] show ?thesis by (auto split: sum.splits)
  qed
  have "run_ok r" using runs assms(6) by (simp add: runs_ok_def proof_own_def)
  from finished_rows [OF this assms(7)] obtain a b rest where final: "run_final r = Some (a # b # rest)"
    "{dlv_status (evd_delivery a), dlv_status (evd_delivery b)} = {Duplicate, Settled}" "settled_pair (a # b # rest)" by blast
  define rows where "rows = a # b # rest"
  have rows: "list_all ?good rows" "settled_pair rows" "\<exists>e \<in> set rows. dlv_status (evd_delivery e) = Duplicate"
    using \<open>finals ?good (proof_own s')\<close> assms(6) final by (auto simp: finals_def proof_own_def rows_def doubleton_eq_iff)
  have settled: "\<exists>row \<in> set (db_reservations (wire_db w')). rsv_id row = k \<and> rsv_tenant row = cfg_tenant cfg \<and> rsv_cost row = 10000 \<and>
      rsv_state row = RSettled \<and> count_where (settles row) (db_deliveries (wire_db w')) = 1"
    if k: "Some k \<in> (\<lambda>e. map_option rsv_id (evd_reservation e)) ` set rows" for k
  proof -
    from rows(2) k obtain e h where e: "e \<in> set rows" "evd_reservation e = Some h" "k = rsv_id h" "rsv_state h = RSettled" "rsv_cost h = 10000"
      unfolding settled_pair_def Let_def by fastforce
    then have "?good e" using rows(1) by (auto simp: list_all_iff)
    from genuine_rows(1) [OF this e(2,4)] obtain row where row: "row \<in> set (db_reservations (wire_db w'))"
      "rsv_tenant row = cfg_tenant cfg" "reservation.truncate row = h" by blast
    then have "rsv_id row = k" "rsv_cost row = 10000" "rsv_state row = RSettled" using e by (auto simp: reservation.defs)
    moreover have "count_where (settles row) (db_deliveries (wire_db w')) = 1"
      using soundD(3) [OF reaches_sound_db] w' row(1) \<open>rsv_state row = RSettled\<close> by (auto simp: settled_once_def wire_ok_def)
    ultimately show ?thesis using row by blast
  qed
  let ?ids = "(\<lambda>e. map_option rsv_id (evd_reservation e)) ` set rows"
  from rows(2) have "card ?ids = 2" and some: "\<forall>x \<in> ?ids. \<exists>k. x = Some k" by (auto simp: settled_pair_def Let_def)
  moreover from this obtain x y where xy: "?ids = {x, y}" "x \<noteq> y" by (auto simp: card_2_iff)
  ultimately obtain k1 k2 where "x = Some k1" "y = Some k2" by (metis insertCI)
  with xy have "Some k1 \<in> ?ids" "Some k2 \<in> ?ids" "k1 \<noteq> k2" by auto
  with settled [of k1] settled [of k2] have "\<exists>h1 \<in> set (db_reservations (wire_db w')). \<exists>h2 \<in> set (db_reservations (wire_db w')).
      rsv_id h1 \<noteq> rsv_id h2 \<and> (\<forall>h \<in> {h1, h2}. rsv_tenant h = cfg_tenant cfg \<and> rsv_cost h = 10000 \<and> rsv_state h = RSettled \<and>
        count_where (settles h) (db_deliveries (wire_db w')) = 1)" by fastforce
  moreover from rows(1,3) genuine_rows(2) [of cfg "wire_db w'"]
  have "\<exists>d \<in> set (db_deliveries (wire_db w')). dr_tenant d = cfg_tenant cfg \<and> dr_status d = Duplicate"
    by (fastforce simp: list_all_iff)
  ultimately show ?thesis by blast
qed

subsection \<open>A run that is resumed\<close>

text \<open>
  After the day of theory \<open>Settlement\<close>: a second reservation, a receipt of schema 99 for it, and its
  correction. A run that has verified five stages is resumed and reads the four receipts.
\<close>

definition play_receipt :: "int \<Rightarrow> string \<Rightarrow> receipt" where
  "play_receipt v e = (day_receipt e)\<lparr>rcp_version := v, rcp_reservation := ''q''\<rparr>"

definition play_hold :: "rstate \<Rightarrow> reservation_row" where
  "play_hold st = (day_hold st)\<lparr>rsv_id := ''q'', rsv_key := ''key2''\<rparr>"

definition play_delivery :: "string \<Rightarrow> int \<Rightarrow> string \<Rightarrow> dstatus \<Rightarrow> string \<Rightarrow> nat \<Rightarrow> delivery_row" where
  "play_delivery i v e st reason n = (day_delivery i e st reason n)\<lparr>dr_payload := P_receipt (play_receipt v e)\<rparr>"

definition play_trail :: "audit_row list" where
  "play_trail = [day_audit ''qx'' ''reserved'' ''q'' (dec 10000 @ '' micros held; sea-01''),
     day_audit ''fx'' ''accepted'' ''f'' ''Receipt and dispatch intent committed together'',
     day_audit ''g'' ''quarantined'' ''f'' ''unsupported_schema'',
     day_audit ''hx'' ''accepted'' ''h'' ''Receipt and dispatch intent committed together'',
     day_audit ''k'' ''settled'' ''h'' ''matched_screen_window_and_reservation'']"

definition play_db :: "int \<Rightarrow> int \<Rightarrow> rstate \<Rightarrow> delivery_row list \<Rightarrow> outbox_row list \<Rightarrow> nat \<Rightarrow> database" where
  "play_db held spent st ds obs n = day_db held spent [day_hold RSettled, play_hold st]
     ([day_delivery ''a'' ''e1'' Settled ''matched_screen_window_and_reservation'' 1,
       day_delivery ''b'' ''e2'' Duplicate ''reservation_already_settled'' 1] @ ds)
     ([day_job ''a'', day_job ''b''] @ obs) (day_trail @ take n play_trail)"

definition play1 where "play1 = play_db 10000 10000 Held [] [] 1"
definition play2 where "play2 = play_db 10000 10000 Held [play_delivery ''f'' 99 ''e3'' Accepted [] 0] [day_job ''f''] 2"
definition play3 where "play3 = play_db 10000 10000 Held [play_delivery ''f'' 99 ''e3'' Quarantined ''unsupported_schema'' 1] [day_job ''f''] 3"
definition play4 where "play4 = play_db 10000 10000 Held [play_delivery ''f'' 99 ''e3'' Quarantined ''unsupported_schema'' 1,
  play_delivery ''h'' 1 ''e4'' Accepted [] 0] [day_job ''f'', day_job ''h''] 4"
definition play5 where "play5 = play_db 0 20000 RSettled [play_delivery ''f'' 99 ''e3'' Quarantined ''unsupported_schema'' 1,
  play_delivery ''h'' 1 ''e4'' Settled ''matched_screen_window_and_reservation'' 1] [day_job ''f'', day_job ''h''] 5"

lemmas play_simps = play1_def play2_def play3_def play4_def play5_def play_db_def play_trail_def play_delivery_def play_hold_def
  play_receipt_def day_simps schema_simps add_audit_def Let_def

lemma play_ids_valid [simp]: "valid_id ''key2''" "valid_id ''q''" "valid_id ''e3''" "valid_id ''e4''"
  "valid_id ''a''" "valid_id ''b''" "valid_id ''f''" "valid_id ''h''"
  by (simp_all add: valid_id_def less_eq_char_def)

lemma play_runs:
  "fst (reserve day_digest (day_ids ''q'') day_times ''t'' ''key2'' day_input day3) = play1"
  "fst (accept day_digest (day_ids ''f'') day_times ''t'' (play_receipt 99 ''e3'') play1) = play2"
  "fst (process (day_ids ''g'') day_times ''t'' ''f'' play2) = play3"
  "fst (accept day_digest (day_ids ''h'') day_times ''t'' (play_receipt 1 ''e4'') play3) = play4"
  "fst (process (day_ids ''k'') day_times ''t'' ''h'' play4) = play5"
  by (simp_all add: reserve_def affected_def reservation.defs hold_time_def accept_def process_def decision_def envelope_reason_def
      match_reason_def reservation_of_def settle_money_def play_simps)

lemma play_reaches: "engine_reaches day_digest play5"
proof -
  have "engine_reaches day_digest play1" using reached_db.closed [OF day_reaches(4) e_reserve] play_runs(1) by metis
  then have "engine_reaches day_digest play2" using reached_db.closed [OF _ e_accept] play_runs(2) by metis
  then have "engine_reaches day_digest play3" using reached_db.closed [OF _ e_process] play_runs(3) by metis
  then have "engine_reaches day_digest play4" using reached_db.closed [OF _ e_accept] play_runs(4) by metis
  then show ?thesis using reached_db.closed [OF _ e_process] play_runs(5) by metis
qed

definition quiet_config :: server_config where
  "quiet_config = day_config\<lparr>cfg_reset := False\<rparr>"

definition quiet_network :: network where
  "quiet_network = \<lparr>net_host = ''localhost'', net_fate = (\<lambda>_. Delivered), net_env = day_env \<circ> of_nat, net_work = (\<lambda>_. []), net_lag = (\<lambda>_. 0)\<rparr>"

definition quiet_wire :: "payload option \<Rightarrow> nat \<Rightarrow> wire" where
  "quiet_wire p n = \<lparr>wir_server = day_server 60 0 play5, wir_body = p, wir_no = n\<rparr>"

definition play_row :: "string \<Rightarrow> int \<Rightarrow> string \<Rightarrow> dstatus \<Rightarrow> string \<Rightarrow> string \<Rightarrow> evidence" where
  "play_row i v e st reason h = \<lparr>evd_delivery = \<lparr>dlv_id = i, dlv_receipt = (day_receipt e)\<lparr>rcp_version := v, rcp_reservation := h\<rparr>,
       dlv_status = st, dlv_reason = reason, dlv_received = 1000, dlv_attempts = 1\<rparr>,
     evd_reservation = Some (reservation.truncate ((day_hold RSettled)\<lparr>rsv_id := h\<rparr>)), evd_outbox = ''pending'',
     evd_attempts = 0, evd_observed = 1000\<rparr>"

definition play_rows :: "(string \<times> evidence) list" where
  "play_rows = [(''a'', play_row ''a'' 1 ''e1'' Settled ''matched_screen_window_and_reservation'' ''r''),
     (''b'', play_row ''b'' 1 ''e2'' Duplicate ''reservation_already_settled'' ''r''),
     (''f'', play_row ''f'' 99 ''e3'' Quarantined ''unsupported_schema'' ''q''),
     (''h'', play_row ''h'' 1 ''e4'' Settled ''matched_screen_window_and_reservation'' ''q'')]"

lemma play_evidence: "(i, e) \<in> set play_rows \<Longrightarrow> evidence_of 1000 ''t'' i play5 = Inr e"
  by (auto simp: play_rows_def evidence_of_def play_row_def play_simps reservation.defs)

lemma play_encoded: "encode_uri ''a'' = ''a''" "encode_uri ''b'' = ''b''" "encode_uri ''f'' = ''f''" "encode_uri ''h'' = ''h''"
  by (simp_all add: encode_uri_def unreserved_def less_eq_char_def)

lemma play_paths:
  assumes "i \<in> {''a'', ''b'', ''f'', ''h''}"
  shows "path_value ''/api/v1/deliveries/'' [] (''/api/v1/deliveries/'' @ encode_uri i) = Some i"
    "path_value ''/api/v1/campaigns/'' ''/assurance'' (''/api/v1/deliveries/'' @ encode_uri i) = None"
proof -
  show "path_value ''/api/v1/deliveries/'' [] (''/api/v1/deliveries/'' @ encode_uri i) = Some i"
    using assms by (elim insertE) (simp_all add: play_encoded path_value_def)
  show "path_value ''/api/v1/campaigns/'' ''/assurance'' (''/api/v1/deliveries/'' @ encode_uri i) = None"
    using assms by (elim insertE) (simp_all add: play_encoded path_value_def)
qed

lemma play_row_ids: "(i, e) \<in> set play_rows \<Longrightarrow> i \<in> {''a'', ''b'', ''f'', ''h''}"
  by (auto simp: play_rows_def)

lemma play_answer:
  assumes "(i, e) \<in> set play_rows" and "rq_path rq = ''/api/v1/deliveries/'' @ encode_uri i" and "\<not> rq_post rq"
  shows "handle_api quiet_config (day_env x) (browser_call ''localhost'' rq) (day_server 60 0 play5) = Some (day_server 60 0 play5, 200, P_evidence e)"
  using play_paths [OF play_row_ids [OF assms(1)]] play_evidence [OF assms(1)] assms(2,3)
  by (simp add: handle_api_def admit_def authorized_def stale_generation_def quiet_config_def day_config_def browser_call_def day_env_def
      api_route_def other_routes_def on_db_def day_server_def day_times_def)

lemma play_carry:
  assumes "(i, e) \<in> set play_rows" and "rq_path rq = ''/api/v1/deliveries/'' @ encode_uri i" and "\<not> rq_post rq"
  shows "carry quiet_config quiet_network rq (quiet_wire p n) =
    (Responded \<lparr>rs_status = 200, rs_generation = None, rs_retry_after = None\<rparr>, quiet_wire (Some (P_evidence e)) (Suc n))"
  using play_answer [OF assms, of "of_nat n"]
  by (simp add: carry_def Let_def quiet_network_def quiet_wire_def let_work_def generation_header_def quiet_config_def retry_header_def
      day_server_def)

lemma quiet_on_wire:
  "on_wire quiet_config quiet_network (quiet_wire p n) (Fetch rq) s =
     (case carry quiet_config quiet_network rq (quiet_wire p n) of (r, w') \<Rightarrow> (r, s, w'))"
  "on_wire quiet_config quiet_network (quiet_wire (Some b) n) (ReadBody rq) s = (Body b, s, quiet_wire (Some b) (Suc n))"
  by (simp_all add: on_wire_def Let_def quiet_network_def quiet_wire_def let_work_def day_server_def)

lemma play_request:
  assumes "(i, e) \<in> set play_rows" and "\<not> invalidated s"
  shows "drive (request (delivery_request i) s) (on_wire quiet_config quiet_network) (quiet_wire p n) =
    (Inr (P_evidence e), s, quiet_wire (Some (P_evidence e)) (Suc (Suc n)))"
  using assms(2) play_carry [OF assms(1), of "stamp s (delivery_request i)"]
  by (simp add: request_def send_def receive_def read_or_null_def read_json_def async_simps quiet_on_wire delivery_request_def stamp_def
      ok_def Let_def)

definition play_batch :: "int \<Rightarrow> batch_response" where
  "play_batch n = (example_batch n)\<lparr>bat_results := map (\<lambda>i. (example_result 0)\<lparr>brs_id := Some i\<rparr>) [''a'', ''b'', ''f''] @ [example_result 3]\<rparr>"

definition play_run :: proof_run where
  "play_run = finished_run\<lparr>run_steps := replicate 5 (Some 9) @ [None], run_batch := Some (play_batch 0),
     run_replay := Some (play_batch 3), run_corrected := Some ''h'', run_final := None, run_completed := None\<rparr>"

lemma play_run_ok: "run_ok play_run"
proof -
  have "stage_ok i play_run" if "i < 5" for i
  proof -
    from that consider "i = 0" | "i = 1" | "i = 2" | "i = 3" | "i = 4" by linarith
    then show ?thesis
    proof cases
      case 1
      then show ?thesis by (simp add: stage_ok_def play_run_def finished_run_def Let_def plan_payload_def plan_receipt_def)
    next
      case 4
      have "run_initial play_run = run_initial finished_run" by (simp add: play_run_def)
      moreover have "run_initial finished_run \<noteq> None" by (simp add: finished_run_def Let_def)
      ultimately show ?thesis using 4 finished_initial_ok by (auto simp: stage_ok_def)
    qed (simp_all add: stage_ok_def play_run_def play_batch_def mixed_ok_def same_ids_def array_slice_def array_at_def
        example_batch_def example_result_def upt_rec)
  qed
  moreover have "is_done play_run i \<longleftrightarrow> i < 5" for i
    by (auto simp: is_done_def play_run_def nth_append less_Suc_eq numeral_eq_Suc)
  ultimately show ?thesis by (auto simp: run_ok_def play_run_def finished_run_def example_run_def Let_def)
qed

lemma play_read_rows:
  assumes "set rows \<subseteq> set play_rows" and "\<not> invalidated s"
  shows "\<exists>p' n'. drive (read_rows (map fst rows) s) (on_wire quiet_config quiet_network) (quiet_wire p n) =
    (Inr (map snd rows), s, quiet_wire p' n')"
  using assms
proof (induction rows arbitrary: p n)
  case (Cons x rows)
  have "x \<in> set play_rows" using Cons.prems by simp
  moreover obtain p' n' where "drive (read_rows (map fst rows) s) (on_wire quiet_config quiet_network)
      (quiet_wire (Some (P_evidence (snd x))) (Suc (Suc n))) = (Inr (map snd rows), s, quiet_wire p' n')"
    using Cons.IH Cons.prems by fastforce
  ultimately show ?case
    using play_request [of "fst x" "snd x" s p n] Cons.prems(2) by (auto simp: bind_def drive_simps shaped_def ret_def async_simps)
qed (auto simp: async_simps)

lemma play_observe:
  assumes "\<not> invalidated s"
  shows "\<exists>p' n'. drive (observe (map fst play_rows) s) (on_wire quiet_config quiet_network) (quiet_wire p n) =
    (Inr (map snd play_rows), s, quiet_wire p' n')"
proof -
  have fuel: "poll_fuel = Suc 58" by (simp add: poll_fuel_def)
  have "list_all (\<lambda>e. dlv_status (evd_delivery e) \<noteq> Accepted) (map snd play_rows)"
    by (simp add: play_rows_def play_row_def)
  then show ?thesis
    using play_read_rows [OF subset_refl assms, of p n]
    unfolding observe_def fuel bind_def gets_def abind.simps(1) observe_until.simps by (auto simp: drive_simps ret_def) blast
qed

lemma play_final: "final_ok (map snd play_rows)"
  by (auto simp: final_ok_def play_outcome_iff kept_quarantine_def two_settled_def reservation_map_def one_cent_settled_def
      play_rows_def play_row_def day_hold_def day_receipt_def reservation.defs array_at_def Let_def)

lemma refresh_keeps_run:
  fixes s :: "'a proof_page_scheme"
  assumes "drive (refresh collate s) (on_wire cfg net) w = (x, s', w')"
  shows "x = Inr () \<and> proof_own s' = proof_own s"
proof -
  have "keeps proof_own (\<lambda>_ _. True) (\<lambda>_ _. True) (\<lambda>_ v. v = proof_own s) (\<lambda>_ _. False) (refresh collate s)"
    by (rule keeps_refresh [OF console_frame_proof]) auto
  note k = this
  have env: "on_wire cfg net w q s = (r, s', w') \<Longrightarrow> True \<and> proof_own s' = proof_own s" for w q s r w' and s' :: "'a proof_page_scheme"
    by (auto simp: on_wire_def Let_def proof_own_def split: awaiting.splits prod.splits)
  from drive_keeps [OF k, where env = "on_wire cfg net" and w = w, OF env] assms show ?thesis by (cases x) auto
qed

lemma play_verify:
  assumes "\<not> invalidated s" and "pf_run s = Some (play_run\<lparr>run_current := c\<rparr>)"
  shows "\<exists>p' n' r. drive (stage_verify s) (on_wire quiet_config quiet_network) (quiet_wire p n) =
      (Inr (), s\<lparr>pf_run := Some r\<rparr>, quiet_wire p' n') \<and> run_steps r = run_steps play_run"
proof -
  have ids: "accepted_ids (play_batch 0) @ [''h''] = map fst play_rows"
    by (simp add: accepted_ids_def array_slice_def play_batch_def result_id_def play_rows_def)
  obtain p' n' where obs: "drive (observe (map fst play_rows) s) (on_wire quiet_config quiet_network) (quiet_wire p n) =
    (Inr (map snd play_rows), s, quiet_wire p' n')" using play_observe [OF assms(1)] by blast
  obtain e2 e3 where e: "array_at (map snd play_rows) 2 = Some e2" "kept_quarantine e2" "array_at (map snd play_rows) 3 = Some e3"
    "dlv_status (evd_delivery e3) = Settled" "play_outcome (map snd play_rows) = ''duplicate,settled''" "two_settled (map snd play_rows)"
    using play_final by (auto simp: final_ok_def)
  have "drive (stage_verify s) (on_wire quiet_config quiet_network) (quiet_wire p n) =
    (Inr (), s\<lparr>pf_run := Some (play_run\<lparr>run_current := c, run_final := Some (map snd play_rows), run_completed := Some (clock s)\<rparr>)\<rparr>, quiet_wire p' n')"
    using assms(2) obs e ids by (simp add: stage_verify_def stage_simps bind_def [of "observe _"] drive_simps play_run_def)
  moreover have "run_steps (play_run\<lparr>run_current := c, run_final := Some (map snd play_rows), run_completed := Some (clock s)\<rparr>) = run_steps play_run"
    by simp
  ultimately show ?thesis by blast
qed

lemma step_done: "pf_run s = Some r \<Longrightarrow> is_done r i \<Longrightarrow> step i fn s = Return s ()"
  by (simp add: step_def the_run_bind ret_def)

lemma play_finishes:
  "\<exists>x s' w' r. drive (execute flat [] (demo_proof (Some play_run))) (on_wire quiet_config quiet_network) (quiet_wire None 0) = (x, s', w') \<and>
     pf_run s' = Some r \<and> all_done r"
proof -
  let ?env = "on_wire quiet_config quiet_network" and ?s = "(demo_proof (Some play_run))\<lparr>pf_running := True\<rparr>"
  let ?s1 = "?s\<lparr>pf_run := Some (play_run\<lparr>run_current := 5\<rparr>), pf_message := snd (snd (stages ! 5))\<rparr>"
  have d: "is_done play_run i \<longleftrightarrow> i < 5" for i
    by (auto simp: is_done_def play_run_def nth_append less_Suc_eq numeral_eq_Suc)
  obtain p' n' r where v: "drive (stage_verify ?s1) ?env (quiet_wire None 0) = (Inr (), ?s1\<lparr>pf_run := Some r\<rparr>, quiet_wire p' n')"
    "run_steps r = run_steps play_run" using play_verify [of ?s1 5 None 0] by auto
  have "six_steps ?s = step 5 stage_verify ?s"
    using step_done [of ?s play_run] d by (simp add: six_steps_def seq_def)
  let ?r = "r\<lparr>run_steps := (run_steps r)[5 := Some (clock ?s1)]\<rparr>"
  let ?s2 = "(save (?s1\<lparr>pf_run := Some ?r\<rparr>))\<lparr>pf_message := ''All six stages verified against persisted receipt and reservation records.''\<rparr>"
  from \<open>six_steps ?s = _\<close> have six: "drive (six_steps ?s) ?env (quiet_wire None 0) = (Inr (), save (?s1\<lparr>pf_run := Some ?r\<rparr>), quiet_wire p' n')"
    using v(1) d [of 5] by (simp add: step_def stage_simps seq_def [of stage_verify] drive_simps modify_def)
  obtain x s3 w3 where r: "drive (refresh flat ?s2) ?env (quiet_wire p' n') = (x, s3, w3)" by (metis prod_cases3)
  from refresh_keeps_run [OF r] have s3: "x = Inr ()" "proof_own s3 = proof_own ?s2" by auto
  have "\<not> needs_new_run (Some play_run)" by (simp add: needs_new_run_def all_done_def play_run_def)
  then have "drive (execute flat [] (demo_proof (Some play_run))) ?env (quiet_wire None 0) = (Inr (), s3\<lparr>pf_running := False\<rparr>, w3)"
    using six r s3(1)
    by (simp add: execute_def execute_body_def try_finally_def try_catch_def gets_bind modify_seq drive_simps
        seq_def [of six_steps] seq_def [of "ret ()"] ret_def)
  moreover have "pf_run (s3\<lparr>pf_running := False\<rparr>) = Some ?r" using s3(2) by (simp add: proof_own_def)
  moreover have "all_done ?r" using v(2) by (simp add: all_done_def play_run_def list_update_append list_all_iff)
  ultimately show ?thesis by blast
qed

theorem verified_run_is_true_witness:
  "let s = srv_db (wir_server (snd (snd (drive (execute flat [] (demo_proof (Some play_run))) (on_wire quiet_config quiet_network) (quiet_wire None 0))))) in
   \<exists>h1 \<in> set (db_reservations s). \<exists>h2 \<in> set (db_reservations s). rsv_id h1 \<noteq> rsv_id h2 \<and> rsv_state h1 = RSettled \<and> rsv_state h2 = RSettled"
proof -
  obtain x s' w' r where d: "drive (execute flat [] (demo_proof (Some play_run))) (on_wire quiet_config quiet_network) (quiet_wire None 0) = (x, s', w')"
    and r: "pf_run s' = Some r" "all_done r" using play_finishes by blast
  have "engine_reaches (cfg_digest quiet_config) (srv_db (wir_server (quiet_wire None 0)))" "wir_body (quiet_wire None 0) = None"
    by (simp_all add: quiet_config_def day_config_def quiet_wire_def day_server_def play_reaches)
  moreover have "\<forall>r0. pf_run (demo_proof (Some play_run)) = Some r0 \<longrightarrow> run_ok r0 \<and> run_final r0 = None"
    using play_run_ok by (simp add: play_run_def)
  ultimately show ?thesis using verified_run_is_true [OF _ _ _ _ d r] d by (fastforce simp: Let_def)
qed

end
