(* ===== verification/TrafficStore.thy ===== *)
theory TrafficStore
  imports Tables "HOL-Library.Product_Lexorder"
begin

text \<open>
  The foot-traffic service, \<open>internal/foottraffic\<close>: \<open>store.go\<close> (importing batches of hourly counts,
  replacing and emptying a sample, the report with its threshold) and \<open>examples.go\<close> (the sample
  feeds). Times are Unix milliseconds. A transaction commits and returns the new tables or rolls
  back and returns the old ones. The SHA-256 of a JSON value (\<open>digest\<close>), the first byte of the
  SHA-256 of a text (\<open>byte\<close>) and the bytes of \<open>crypto/rand\<close> are parameters. The relative change of a
  zone is the exact quotient, where the code has the nearest double.
\<close>

subsection \<open>Tables\<close>

record batch_row =
  btr_tenant :: string
  btr_id :: string
  btr_print :: string
  btr_inserted :: nat

record window_row =
  wnr_tenant :: string
  wnr_source :: string
  wnr_zone :: string
  wnr_start :: int
  wnr_count :: int

record traffic_db =
  tdb_scopes :: "string list"
  tdb_batches :: "batch_row list"
  tdb_windows :: "window_row list"

definition empty_traffic :: traffic_db where
  "empty_traffic = \<lparr>tdb_scopes = [], tdb_batches = [], tdb_windows = []\<rparr>"

definition threshold :: int where "threshold = 20"

definition source :: string where "source = ''synthetic-partner-v1''"

definition zones :: "(string \<times> string \<times> string) list" where
  "zones = [
     (''downtown'', ''Downtown corridor'', ''Synthetic street-level zone''),
     (''transit'', ''Transit concourse'', ''Synthetic transit zone''),
     (''retail'', ''Retail district'', ''Synthetic retail zone''),
     (''neighborhood'', ''Neighborhood plaza'', ''Synthetic low-volume zone'')]"

datatype traffic_error = Invalid_batch | Batch_conflict

record ingest_result =
  igr_id :: string
  igr_inserted :: nat
  igr_replayed :: bool

subsection \<open>Importing a batch\<close>

definition hour_ms :: int where "hour_ms = 3600000"

definition truncate_hour :: "int \<Rightarrow> int" where
  "truncate_hour now = now - now mod hour_ms"

definition identity_char :: "char \<Rightarrow> bool" where
  "identity_char c \<longleftrightarrow> CHR ''a'' \<le> c \<and> c \<le> CHR ''z'' \<or> CHR ''A'' \<le> c \<and> c \<le> CHR ''Z'' \<or> is_digit c \<or>
     c = CHR ''_'' \<or> c = CHR ''-''"

definition identity :: "string \<Rightarrow> bool" where
  "identity t \<longleftrightarrow> 1 \<le> length t \<and> length t \<le> 100 \<and> list_all identity_char t"

definition window_key :: "traffic_window \<Rightarrow> int \<times> string" where
  "window_key w = (win_start w, win_zone w)"

definition sort_windows :: "traffic_batch \<Rightarrow> traffic_batch" where
  "sort_windows b = b\<lparr>tba_windows := sort_key window_key (tba_windows b)\<rparr>"

definition valid_window :: "int \<Rightarrow> traffic_window \<Rightarrow> bool" where
  "valid_window end w \<longleftrightarrow> win_zone w \<in> set (map fst zones) \<and> 0 \<le> win_count w \<and> win_count w \<le> 1000000 \<and>
     win_start w mod hour_ms = 0 \<and> end - 7 * 24 * hour_ms \<le> win_start w \<and> win_start w < end"

fun check_windows :: "int \<Rightarrow> traffic_window option \<Rightarrow> traffic_window list \<Rightarrow> bool" where
  "check_windows end prev [] = True"
| "check_windows end prev (w # ws) \<longleftrightarrow> valid_window end w \<and>
     (case prev of None \<Rightarrow> True | Some p \<Rightarrow> \<not> (win_zone p = win_zone w \<and> win_start p = win_start w)) \<and>
     check_windows end (Some w) ws"

definition lock_scope :: "string \<Rightarrow> traffic_db \<Rightarrow> traffic_db" where
  "lock_scope tenant s = (if tenant \<in> set (tdb_scopes s) then s else s\<lparr>tdb_scopes := tdb_scopes s @ [tenant]\<rparr>)"

definition has_batch :: "string \<Rightarrow> string \<Rightarrow> batch_row \<Rightarrow> bool" where
  "has_batch tenant i r \<longleftrightarrow> btr_tenant r = tenant \<and> btr_id r = i"

definition has_window :: "string \<Rightarrow> string \<Rightarrow> traffic_window \<Rightarrow> window_row \<Rightarrow> bool" where
  "has_window tenant src w r \<longleftrightarrow> wnr_tenant r = tenant \<and> wnr_source r = src \<and> wnr_zone r = win_zone w \<and> wnr_start r = win_start w"

definition window_of :: "string \<Rightarrow> string \<Rightarrow> traffic_window \<Rightarrow> window_row" where
  "window_of tenant src w = \<lparr>wnr_tenant = tenant, wnr_source = src, wnr_zone = win_zone w,
     wnr_start = win_start w, wnr_count = win_count w\<rparr>"

text \<open>The loop over the windows: a new window is inserted, a known one must have the same count.\<close>

fun insert_windows ::
  "string \<Rightarrow> string \<Rightarrow> traffic_window list \<Rightarrow> window_row list \<Rightarrow> nat \<Rightarrow> traffic_error + window_row list \<times> nat" where
  "insert_windows tenant src [] rows n = Inr (rows, n)"
| "insert_windows tenant src (w # ws) rows n =
     (case array_find (has_window tenant src w) rows of
        None \<Rightarrow> insert_windows tenant src ws (rows @ [window_of tenant src w]) (Suc n)
      | Some r \<Rightarrow> if wnr_count r \<noteq> win_count w then Inl Batch_conflict else insert_windows tenant src ws rows n)"

definition ingest_as ::
  "(payload \<Rightarrow> string) \<Rightarrow> bool \<Rightarrow> string \<Rightarrow> traffic_batch \<Rightarrow> int \<Rightarrow> traffic_db \<Rightarrow>
     traffic_db \<times> (traffic_error + ingest_result)" where
  "ingest_as digest replace tenant b0 now s =
     (let b = sort_windows b0; i = tba_id b; src = tba_source b; fp = digest (P_traffic_batch b) in
      if \<not> identity tenant \<or> \<not> identity i \<or> src \<noteq> source \<or> length (tba_windows b) < 1 \<or> 96 < length (tba_windows b)
      then (s, Inl Invalid_batch)
      else if \<not> check_windows (truncate_hour now) None (tba_windows b) then (s, Inl Invalid_batch)
      else case array_find (has_batch tenant i) (tdb_batches s) of
        Some r \<Rightarrow> (s, if btr_print r \<noteq> fp then Inl Batch_conflict
                    else Inr \<lparr>igr_id = i, igr_inserted = btr_inserted r, igr_replayed = True\<rparr>)
      | None \<Rightarrow>
        let s1 = lock_scope tenant s;
            batches = tdb_batches s1 @ [\<lparr>btr_tenant = tenant, btr_id = i, btr_print = fp, btr_inserted = 0\<rparr>];
            batches1 = (if replace then filter (\<lambda>r. \<not> (btr_tenant r = tenant \<and> btr_id r \<noteq> i)) batches else batches);
            windows1 = (if replace then filter (\<lambda>r. wnr_tenant r \<noteq> tenant) (tdb_windows s1) else tdb_windows s1) in
        case insert_windows tenant src (tba_windows b) windows1 0 of
          Inl e \<Rightarrow> (s, Inl e)
        | Inr (windows2, n) \<Rightarrow>
            (s1\<lparr>tdb_batches := update_where (has_batch tenant i) (\<lambda>r. r\<lparr>btr_inserted := n\<rparr>) batches1,
                tdb_windows := windows2\<rparr>,
             Inr \<lparr>igr_id = i, igr_inserted = n, igr_replayed = False\<rparr>))"

definition ingest_sample ::
  "(payload \<Rightarrow> string) \<Rightarrow> string \<Rightarrow> traffic_batch \<Rightarrow> int \<Rightarrow> traffic_db \<Rightarrow> traffic_db \<times> (traffic_error + ingest_result)" where
  "ingest_sample digest = ingest_as digest False"

definition replace_sample ::
  "(payload \<Rightarrow> string) \<Rightarrow> string \<Rightarrow> traffic_batch \<Rightarrow> int \<Rightarrow> traffic_db \<Rightarrow> traffic_db \<times> (traffic_error + ingest_result)" where
  "replace_sample digest = ingest_as digest True"

text \<open>Emptying a sample; the result counts the removed batches and windows.\<close>

definition empty_sample :: "string \<Rightarrow> traffic_db \<Rightarrow> traffic_db \<times> (traffic_error + nat \<times> nat)" where
  "empty_sample tenant s =
     (if \<not> identity tenant then (s, Inl Invalid_batch)
      else let s1 = lock_scope tenant s in
        (s1\<lparr>tdb_windows := filter (\<lambda>r. wnr_tenant r \<noteq> tenant) (tdb_windows s1),
            tdb_batches := filter (\<lambda>r. btr_tenant r \<noteq> tenant) (tdb_batches s1)\<rparr>,
         Inr (affected (\<lambda>r. btr_tenant r = tenant) (tdb_batches s1),
              affected (\<lambda>r. wnr_tenant r = tenant) (tdb_windows s1))))"

subsection \<open>The report\<close>

text \<open>The windows of the period, and the map the rows are read into.\<close>

definition period_rows :: "string \<Rightarrow> int \<Rightarrow> traffic_db \<Rightarrow> window_row list" where
  "period_rows tenant now s =
     (let end = truncate_hour now; start = end - 6 * hour_ms in
      filter (\<lambda>r. wnr_tenant r = tenant \<and> wnr_source r = source \<and> start - 24 * hour_ms \<le> wnr_start r \<and> wnr_start r < end)
        (tdb_windows s))"

definition window_values :: "window_row list \<Rightarrow> string \<times> int \<rightharpoonup> int" where
  "window_values rows = foldl (\<lambda>m r. m((wnr_zone r, wnr_start r) \<mapsto> wnr_count r)) Map.empty rows"

definition traffic_cell_at :: "(string \<times> int \<rightharpoonup> int) \<Rightarrow> string \<Rightarrow> int \<Rightarrow> traffic_cell" where
  "traffic_cell_at values zone t =
     (case values (zone, t) of
        None \<Rightarrow> \<lparr>cel_start = t, cel_status = Missing, cel_observations = None\<rparr>
      | Some n \<Rightarrow> if threshold \<le> n then \<lparr>cel_start = t, cel_status = Reported, cel_observations = Some n\<rparr>
                 else \<lparr>cel_start = t, cel_status = Suppressed, cel_observations = None\<rparr>)"

definition observed :: "traffic_cell \<Rightarrow> int" where
  "observed c = (case cel_observations c of None \<Rightarrow> 0 | Some n \<Rightarrow> n)"

definition zone_report :: "(string \<times> int \<rightharpoonup> int) \<Rightarrow> int \<Rightarrow> string \<times> string \<times> string \<Rightarrow> traffic_zone" where
  "zone_report values start z =
     (let hours = map (\<lambda>i. start + int i * hour_ms) [0..<6];
          cs = map (traffic_cell_at values (fst z)) hours;
          ps = map (\<lambda>t. traffic_cell_at values (fst z) (t - 24 * hour_ms)) hours;
          pairs = filter (\<lambda>(a, b). cel_observations a \<noteq> None \<and> cel_observations b \<noteq> None) (zip cs ps);
          current = sum_list (map (observed \<circ> fst) pairs);
          previous = sum_list (map (observed \<circ> snd) pairs) in
      \<lparr>zon_id = fst z, zon_name = fst (snd z), zon_context = snd (snd z), zon_current = cs, zon_previous = ps,
       zon_published = sum_where (\<lambda>c. cel_status c = Reported) observed cs, zon_comparable = length pairs,
       zon_change = (if 0 < length pairs \<and> 0 < previous
                     then Some (100 * of_int (current - previous) / of_int previous) else None)\<rparr>)"

definition traffic_scope :: string where
  "traffic_scope = ''Synthetic observations in fixed hourly zones. Not unique people, verified ad exposure, store visits or causal campaign lift. Comparisons use only paired reportable windows, 24 hours apart. Small-count suppression alone is not an anonymity guarantee.''"

definition traffic_report_of :: "string \<Rightarrow> int \<Rightarrow> traffic_db \<Rightarrow> traffic_report" where
  "traffic_report_of tenant now s =
     (let end = truncate_hour now; start = end - 6 * hour_ms;
          zs = map (zone_report (window_values (period_rows tenant now s)) start) zones;
          cells = concat (map zon_current zs) in
      \<lparr>trp_zones = zs, trp_source = source, trp_synthetic = True,
       trp_published = sum_where (\<lambda>c. cel_status c = Reported) observed cells,
       trp_released = count_where (\<lambda>c. cel_status c = Reported) cells,
       trp_suppressed = count_where (\<lambda>c. cel_status c = Suppressed) cells,
       trp_missing = count_where (\<lambda>c. cel_status c = Missing) cells,
       trp_as_of = now, trp_start = start, trp_end = end, trp_minimum = threshold, trp_scope = traffic_scope\<rparr>)"

subsection \<open>Sample feeds\<close>

definition valid_scenario :: "string \<Rightarrow> bool" where
  "valid_scenario i \<longleftrightarrow> i \<in> {''baseline'', ''busy'', ''gaps'', ''quiet'', ''commuter'', ''retail'',
     ''threshold'', ''interruption'', ''random''}"

text \<open>\<open>scenarioTenant\<close>; \<open>hex\<close> is the SHA-256 of a text in hexadecimal digits.\<close>

definition scenario_tenant :: "(string \<Rightarrow> string) \<Rightarrow> string \<Rightarrow> string \<Rightarrow> string" where
  "scenario_tenant hex tenant scenario =
     (if scenario = ''baseline'' then tenant
      else ''traffic-sample-'' @ hex (tenant @ [CHR 0x00] @ scenario))"

text \<open>An integer in decimal digits.\<close>

definition int_digits :: "int \<Rightarrow> string" where
  "int_digits n = (if n < 0 then ''-'' else []) @ dec (nat \<bar>n\<bar>)"

definition example_count :: "(string \<Rightarrow> nat) \<Rightarrow> nat \<Rightarrow> string \<Rightarrow> int \<Rightarrow> int" where
  "example_count byte i zone t =
     (let h = int (byte (zone @ ''-'' @ int_digits (t div 1000))) in
      if zone = ''neighborhood'' then 6 + h mod 25 else 35 + int i * 18 + h mod 95)"

definition example_times :: "int \<Rightarrow> int list" where
  "example_times now = concat (map (\<lambda>day. map (\<lambda>h. truncate_hour now - (int h + int day * 24) * hour_ms) [1..<7]) [0..<2])"

definition sample_batch :: "(string \<Rightarrow> nat) \<Rightarrow> int \<Rightarrow> traffic_batch" where
  "sample_batch byte now =
     \<lparr>tba_id = ''sample-'' @ int_digits (truncate_hour now div 1000), tba_source = source,
      tba_windows = concat (map (\<lambda>t. map (\<lambda>(i, z). \<lparr>win_zone = fst z, win_start = t,
        win_count = example_count byte i (fst z) t\<rparr>) (enumerate 0 zones)) (example_times now))\<rparr>"

text \<open>The hour of day of a window's start, in UTC.\<close>

definition utc_hour :: "int \<Rightarrow> int" where
  "utc_hour t = t div hour_ms mod 24"

text \<open>The remainder of Go, which has the sign of the dividend; the divisor is positive here.\<close>

definition go_rem :: "int \<Rightarrow> int \<Rightarrow> int" where
  "go_rem a b = (if a < 0 then - (- a mod b) else a mod b)"

text \<open>What a scenario makes of a window of the basic sample; \<open>None\<close> leaves it out.\<close>

definition scenario_window :: "(string \<Rightarrow> nat) \<Rightarrow> string \<Rightarrow> traffic_window \<Rightarrow> traffic_window option" where
  "scenario_window byte scenario w =
     (let z = win_zone w; t = win_start w; k = t div hour_ms;
          h = int (byte (scenario @ ''-'' @ z @ ''-'' @ int_digits t));
          with = (\<lambda>n. Some (w\<lparr>win_count := n\<rparr>)) in
      if scenario = ''busy'' then with (600 + h * 4)
      else if scenario = ''gaps''
      then (if z = ''transit'' \<or> z = ''retail'' \<and> go_rem k 2 = 0 then None else Some w)
      else if scenario = ''quiet'' then with (if z = ''downtown'' then 20 + h mod 15 else 3 + h mod 17)
      else if scenario = ''commuter''
      then with (if z = ''transit''
                 then (150 + h) * (if 7 \<le> utc_hour t \<and> utc_hour t \<le> 9 \<or> 16 \<le> utc_hour t \<and> utc_hour t \<le> 18 then 4 else 1)
                 else 50 + h mod 100)
      else if scenario = ''retail'' then with (if z = ''retail'' then 350 + h * 3 else 35 + h mod 90)
      else if scenario = ''threshold'' then with (19 + go_rem (k + int (length z)) 2)
      else if scenario = ''interruption'' then (if go_rem k 6 < 2 then None else Some w)
      else Some w)"

text \<open>The random sample; \<open>entropy\<close> is the sequence of bytes that were drawn.\<close>

definition random_window :: "(nat \<Rightarrow> nat) \<Rightarrow> nat \<times> traffic_window \<Rightarrow> traffic_window option" where
  "random_window entropy x =
     (let (i, w) = x; n = entropy (16 + i * 2) + 256 * entropy (17 + i * 2);
          kind = (if i = 0 then 5 else if i = 1 then 1 else if i = 2 then 0 else n mod 10) in
      if kind = 0 then None
      else Some (w\<lparr>win_count := (if kind < 3 then 2 + int n mod 18 else 20 + int n mod 981)\<rparr>))"

definition hex_byte :: "nat \<Rightarrow> string" where
  "hex_byte n = [''0123456789abcdef'' ! (n div 16 mod 16), ''0123456789abcdef'' ! (n mod 16)]"

definition random_example :: "(string \<Rightarrow> nat) \<Rightarrow> (nat \<Rightarrow> nat) \<Rightarrow> int \<Rightarrow> traffic_batch" where
  "random_example byte entropy now =
     (sample_batch byte now)\<lparr>tba_id := ''random-'' @ concat (map (\<lambda>i. hex_byte (entropy i)) [0..<16]),
       tba_windows := List.map_filter (random_window entropy) (enumerate 0 (tba_windows (sample_batch byte now)))\<rparr>"

definition example_for_scenario ::
  "(string \<Rightarrow> nat) \<Rightarrow> (nat \<Rightarrow> nat) \<Rightarrow> int \<Rightarrow> string \<Rightarrow> traffic_error + traffic_batch" where
  "example_for_scenario byte entropy now scenario =
     (if \<not> valid_scenario scenario then Inl Invalid_batch
      else if scenario = ''random'' then Inr (random_example byte entropy now)
      else if scenario = ''baseline'' then Inr (sample_batch byte now)
      else Inr ((sample_batch byte now)\<lparr>
        tba_id := ''sample-'' @ scenario @ ''-'' @ int_digits (truncate_hour now div 1000),
        tba_windows := List.map_filter (scenario_window byte scenario) (tba_windows (sample_batch byte now))\<rparr>))"

end
