(* ===== verification/TrafficLaws.thy ===== *)
theory TrafficLaws
  imports TrafficStore
begin

text \<open>
  Properties of the foot-traffic service: counts below the threshold have no influence on a report,
  importing a batch is the union of two maps or nothing, a batch that was imported once answers a
  retry for as long as its sample is neither emptied nor replaced, and the sample feeds never
  contradict each other.
\<close>

subsection \<open>The report\<close>

text \<open>Rows for the same window whose counts are the same or both below the threshold.\<close>

definition indistinguishable :: "window_row \<Rightarrow> window_row \<Rightarrow> bool" where
  "indistinguishable a b \<longleftrightarrow> wnr_tenant a = wnr_tenant b \<and> wnr_source a = wnr_source b \<and>
     wnr_zone a = wnr_zone b \<and> wnr_start a = wnr_start b \<and>
     (wnr_count a = wnr_count b \<or> wnr_count a < threshold \<and> wnr_count b < threshold)"

lemma list_all2_filter:
  "list_all2 R xs ys \<Longrightarrow> (\<And>x y. R x y \<Longrightarrow> p x = q y) \<Longrightarrow> list_all2 R (filter p xs) (filter q ys)"
  by (induction rule: list_all2_induct) auto

lemma cells_same_foldl:
  assumes "list_all2 indistinguishable xs ys" and "traffic_cell_at m = traffic_cell_at m'"
  shows "traffic_cell_at (foldl (\<lambda>m r. m((wnr_zone r, wnr_start r) \<mapsto> wnr_count r)) m xs) =
    traffic_cell_at (foldl (\<lambda>m r. m((wnr_zone r, wnr_start r) \<mapsto> wnr_count r)) m' ys)"
  using assms
proof (induction xs ys arbitrary: m m' rule: list_all2_induct)
  case (Cons x xs y ys)
  have "traffic_cell_at (m((wnr_zone x, wnr_start x) \<mapsto> wnr_count x)) zone t =
      traffic_cell_at (m'((wnr_zone y, wnr_start y) \<mapsto> wnr_count y)) zone t" for zone t
    using Cons.hyps(1) fun_cong [OF fun_cong [OF Cons.prems], of zone t]
    by (auto simp: traffic_cell_at_def indistinguishable_def)
  then have "traffic_cell_at (m((wnr_zone x, wnr_start x) \<mapsto> wnr_count x)) =
      traffic_cell_at (m'((wnr_zone y, wnr_start y) \<mapsto> wnr_count y))" by blast
  from Cons.IH [OF this] show ?case by simp
qed simp

lemma zone_report_cells:
  assumes "traffic_cell_at m = traffic_cell_at m'" shows "zone_report m = zone_report m'"
  by (intro ext) (simp only: zone_report_def assms)

lemma report_depends_on_cells:
  "traffic_cell_at (window_values (period_rows tenant now s)) = traffic_cell_at (window_values (period_rows tenant now s')) \<Longrightarrow>
   traffic_report_of tenant now s = traffic_report_of tenant now s'"
  using zone_report_cells [of "window_values (period_rows tenant now s)" "window_values (period_rows tenant now s')"]
  by (simp add: traffic_report_of_def)

text \<open>
  C10. A count below the threshold leaves no trace in a report: databases whose windows differ only in
  counts that are below the threshold on both sides have the same report, in every field and at
  every time, for every tenant.
\<close>

theorem small_counts_hidden:
  assumes "list_all2 indistinguishable (tdb_windows s) (tdb_windows s')"
  shows "traffic_report_of tenant now s = traffic_report_of tenant now s'"
proof -
  have "list_all2 indistinguishable (period_rows tenant now s) (period_rows tenant now s')"
    unfolding period_rows_def Let_def
    by (rule list_all2_filter [OF assms]) (auto simp: indistinguishable_def)
  then show ?thesis
    by (intro report_depends_on_cells) (simp add: window_values_def cells_same_foldl)
qed

definition one_window :: "int \<Rightarrow> traffic_db" where
  "one_window n = \<lparr>tdb_scopes = [''local-demo''], tdb_batches = [], tdb_windows =
     [\<lparr>wnr_tenant = ''local-demo'', wnr_source = source, wnr_zone = ''retail'', wnr_start = 3600000, wnr_count = n\<rparr>]\<rparr>"

theorem small_counts_hidden_witness:
  "one_window 3 \<noteq> one_window 19 \<and>
   traffic_report_of ''local-demo'' 8000000 (one_window 3) = traffic_report_of ''local-demo'' 8000000 (one_window 19)"
  using small_counts_hidden [of "one_window 3" "one_window 19" "''local-demo''" 8000000]
  by (simp add: one_window_def indistinguishable_def threshold_def)

lemma cells_count:
  "count_where (\<lambda>c. cel_status c = Reported) cs + count_where (\<lambda>c. cel_status c = Suppressed) cs +
   count_where (\<lambda>c. cel_status c = Missing) cs = int (length cs)"
proof (induction cs)
  case (Cons c cs)
  then show ?case by (cases "cel_status c") simp_all
qed simp

lemma zone_report_shape [simp]:
  "length (zon_current (zone_report m start z)) = 6" "length (zon_previous (zone_report m start z)) = 6"
  by (simp_all add: zone_report_def Let_def)

lemma zone_report_cell:
  "c \<in> set (zon_current (zone_report m start z)) \<union> set (zon_previous (zone_report m start z)) \<Longrightarrow>
   case cel_observations c of None \<Rightarrow> cel_status c \<noteq> Reported | Some n \<Rightarrow> cel_status c = Reported \<and> threshold \<le> n"
  by (auto simp: zone_report_def Let_def traffic_cell_at_def split: option.splits if_splits)

lemma report_zones:
  "trp_zones (traffic_report_of tenant now s) =
   map (zone_report (window_values (period_rows tenant now s)) (truncate_hour now - 6 * hour_ms)) zones"
  by (simp add: traffic_report_of_def Let_def)

lemma sum_where_concat: "sum_where p g (concat xss) = sum_list (map (sum_where p g) xss)"
  by (induction xss) simp_all

text \<open>A report accounts for its 24 windows: each is released, suppressed or missing, a cell shows a
  count exactly when it is released and then at least the threshold, and the published total is the
  sum of the zones' totals.\<close>

theorem report_accounts:
  "let r = traffic_report_of tenant now s in
   trp_released r + trp_suppressed r + trp_missing r = 24 \<and>
   trp_published r = sum_list (map zon_published (trp_zones r)) \<and>
   list_all (\<lambda>z. list_all (\<lambda>c. case cel_observations c of None \<Rightarrow> cel_status c \<noteq> Reported
     | Some n \<Rightarrow> cel_status c = Reported \<and> threshold \<le> n) (zon_current z @ zon_previous z)) (trp_zones r)"
proof -
  let ?r = "traffic_report_of tenant now s"
  let ?zs = "trp_zones ?r"
  let ?cells = "concat (map zon_current ?zs)"
  have "length ?cells = 24" by (simp add: report_zones length_concat zones_def)
  moreover have "trp_released ?r + trp_suppressed ?r + trp_missing ?r = int (length ?cells)"
    using cells_count [of ?cells] by (simp add: traffic_report_of_def Let_def)
  moreover have "zon_published z = sum_where (\<lambda>c. cel_status c = Reported) observed (zon_current z)"
    if "z \<in> set ?zs" for z using that by (auto simp: report_zones zone_report_def Let_def)
  then have "trp_published ?r = sum_list (map zon_published ?zs)"
    by (simp add: traffic_report_of_def Let_def sum_where_concat zone_report_def comp_def)
  moreover have "\<forall>z \<in> set ?zs. \<forall>c \<in> set (zon_current z) \<union> set (zon_previous z).
      case cel_observations c of None \<Rightarrow> cel_status c \<noteq> Reported | Some n \<Rightarrow> cel_status c = Reported \<and> threshold \<le> n"
    using zone_report_cell by (fastforce simp: report_zones)
  ultimately show ?thesis by (simp add: Let_def list_all_iff)
qed

subsection \<open>Importing a batch\<close>

text \<open>The counts that are stored for a tenant, by zone and hour, and those of a batch.\<close>

definition stored :: "string \<Rightarrow> traffic_db \<Rightarrow> string \<times> int \<rightharpoonup> int" where
  "stored tenant s k = map_option wnr_count
     (array_find (\<lambda>r. wnr_tenant r = tenant \<and> wnr_source r = source \<and> (wnr_zone r, wnr_start r) = k) (tdb_windows s))"

definition batch_counts :: "traffic_window list \<Rightarrow> string \<times> int \<rightharpoonup> int" where
  "batch_counts ws = map_of (map (\<lambda>w. ((win_zone w, win_start w), win_count w)) ws)"

text \<open>A batch that the service does not refuse as invalid.\<close>

definition acceptable :: "string \<Rightarrow> traffic_batch \<Rightarrow> int \<Rightarrow> bool" where
  "acceptable tenant b now \<longleftrightarrow> identity tenant \<and> identity (tba_id b) \<and> tba_source b = source \<and>
     1 \<le> length (tba_windows b) \<and> length (tba_windows b) \<le> 96 \<and>
     check_windows (truncate_hour now) None (tba_windows (sort_windows b))"

definition window_pos :: "traffic_window \<Rightarrow> string \<times> int" where
  "window_pos w = (win_zone w, win_start w)"

lemma window_pos_inj: "window_pos v = window_pos w \<longleftrightarrow> window_key v = window_key w"
  by (auto simp: window_pos_def window_key_def)

lemma sort_windows_simps [simp]:
  "tba_id (sort_windows b) = tba_id b" "tba_source (sort_windows b) = tba_source b"
  "tba_windows (sort_windows b) = sort_key window_key (tba_windows b)"
  by (simp_all add: sort_windows_def)

lemma check_windows_ahead:
  "check_windows end (Some p) ws \<Longrightarrow> sorted (map window_key (p # ws)) \<Longrightarrow> \<forall>w \<in> set ws. window_key p < window_key w"
proof (induction ws arbitrary: p)
  case (Cons w ws)
  have "window_key p < window_key w" using Cons.prems by (auto simp: window_key_def order_less_le)
  moreover have "\<forall>v \<in> set ws. window_key w < window_key v" using Cons by simp
  ultimately show ?case by auto
qed simp

lemma check_windows_distinct:
  "check_windows end prev ws \<Longrightarrow> sorted (map window_key ws) \<Longrightarrow> distinct (map window_pos ws)"
proof (induction ws arbitrary: prev)
  case (Cons w ws)
  have "\<forall>v \<in> set ws. window_key w < window_key v"
    using Cons.prems check_windows_ahead [of "end" w ws] by simp
  moreover have "distinct (map window_pos ws)" using Cons.IH [of "Some w"] Cons.prems by simp
  ultimately show ?case by (auto simp: window_pos_inj)
qed simp

lemma acceptable_distinct:
  "acceptable tenant b now \<Longrightarrow> distinct (map window_pos (sort_key window_key (tba_windows b)))"
  by (auto simp: acceptable_def intro!: check_windows_distinct)

lemma has_window_pos:
  "has_window tenant source w = (\<lambda>r. wnr_tenant r = tenant \<and> wnr_source r = source \<and> (wnr_zone r, wnr_start r) = window_pos w)"
  by (auto simp: has_window_def window_pos_def)

lemma stored_has_window:
  "map_option wnr_count (array_find (has_window tenant source w) (tdb_windows s)) = stored tenant s (window_pos w)"
  by (simp add: has_window_pos stored_def)

text \<open>The loop: it fails on the first window with another count, else it appends the new ones.\<close>

lemma insert_windows_spec:
  assumes "distinct (map window_pos ws)"
  shows "insert_windows tenant source ws (tdb_windows s) n =
    (if \<forall>w \<in> set ws. stored tenant s (window_pos w) \<in> {None, Some (win_count w)}
     then Inr (tdb_windows s @ map (window_of tenant source) (filter (\<lambda>w. stored tenant s (window_pos w) = None) ws),
               n + length (filter (\<lambda>w. stored tenant s (window_pos w) = None) ws))
     else Inl Batch_conflict)"
  using assms
proof (induction ws arbitrary: s n)
  case (Cons w ws)
  show ?case
  proof (cases "array_find (has_window tenant source w) (tdb_windows s)")
    case None
    let ?s = "s\<lparr>tdb_windows := tdb_windows s @ [window_of tenant source w]\<rparr>"
    have "stored tenant ?s (window_pos v) = stored tenant s (window_pos v)" if "v \<in> set ws" for v
    proof -
      have "window_pos w \<noteq> window_pos v" using Cons.prems that by force
      then show ?thesis
        by (auto simp: stored_def array_find_append window_of_def window_pos_def split: option.split)
    qed
    note same = this
    then have "(\<forall>v \<in> set ws. stored tenant ?s (window_pos v) \<in> {None, Some (win_count v)}) \<longleftrightarrow>
        (\<forall>v \<in> set ws. stored tenant s (window_pos v) \<in> {None, Some (win_count v)})" by simp
    moreover have "filter (\<lambda>v. stored tenant ?s (window_pos v) = None) ws = filter (\<lambda>v. stored tenant s (window_pos v) = None) ws"
      using same by (intro filter_cong) simp_all
    moreover have "stored tenant s (window_pos w) = None"
      using None unfolding stored_has_window [symmetric] by (metis option.map_disc_iff)
    moreover have "insert_windows tenant source (w # ws) (tdb_windows s) n = insert_windows tenant source ws (tdb_windows ?s) (Suc n)"
      using None by (simp del: array_find_None_iff)
    ultimately show ?thesis using Cons.IH [of ?s "Suc n"] Cons.prems by (simp del: insert_windows.simps)
  next
    case (Some r)
    moreover have "stored tenant s (window_pos w) = Some (wnr_count r)" using Some stored_has_window [of tenant w s] by simp
    ultimately show ?thesis using Cons by auto
  qed
qed simp

text \<open>
  The import as the page describes it, on the counts alone: the union of what is stored and of the
  batch, or nothing when the two contradict each other.
\<close>

definition union_import ::
  "(string \<times> int \<rightharpoonup> int) \<Rightarrow> (string \<times> int \<rightharpoonup> int) \<Rightarrow> (string \<times> int \<rightharpoonup> int) option" where
  "union_import m c = (if m ++ c = c ++ m then Some (m ++ c) else None)"

lemma batch_counts_alt: "batch_counts ws = map_of (map (\<lambda>w. (window_pos w, win_count w)) ws)"
  by (simp add: batch_counts_def window_pos_def)

lemma batch_counts_dom: "dom (batch_counts ws) = window_pos ` set ws"
  by (auto simp: batch_counts_alt dom_map_of_conv_image_fst image_image)

lemma batch_counts_pos:
  "distinct (map window_pos ws) \<Longrightarrow> w \<in> set ws \<Longrightarrow> batch_counts ws (window_pos w) = Some (win_count w)"
  unfolding batch_counts_alt by (rule map_of_is_SomeI) (auto simp: comp_def)

lemma batch_counts_sort:
  assumes "distinct (map window_pos (sort_key window_key ws))"
  shows "batch_counts (sort_key window_key ws) = batch_counts ws"
proof -
  have "distinct (map window_pos ws)"
    using assms by (metis distinct_map distinct_sort set_sort)
  then show ?thesis
    unfolding batch_counts_alt using assms
    by (subst map_of_inject_set) (simp_all add: comp_def)
qed

lemma compatible_iff:
  assumes "distinct (map window_pos ws)"
  shows "(\<forall>w \<in> set ws. m (window_pos w) \<in> {None, Some (win_count w)}) \<longleftrightarrow> m ++ batch_counts ws = batch_counts ws ++ m"
proof
  assume agree: "\<forall>w \<in> set ws. m (window_pos w) \<in> {None, Some (win_count w)}"
  show "m ++ batch_counts ws = batch_counts ws ++ m"
  proof
    fix k
    show "(m ++ batch_counts ws) k = (batch_counts ws ++ m) k"
      using agree batch_counts_pos [OF assms] batch_counts_dom [of ws]
      by (cases "k \<in> window_pos ` set ws") (auto simp: map_add_def split: option.split)
  qed
next
  assume eq: "m ++ batch_counts ws = batch_counts ws ++ m"
  show "\<forall>w \<in> set ws. m (window_pos w) \<in> {None, Some (win_count w)}"
  proof
    fix w assume "w \<in> set ws"
    then show "m (window_pos w) \<in> {None, Some (win_count w)}"
      using fun_cong [OF eq, of "window_pos w"] batch_counts_pos [OF assms \<open>w \<in> set ws\<close>]
      by (cases "m (window_pos w)") (simp_all add: map_add_def)
  qed
qed

lemma stored_cong: "tdb_windows s = tdb_windows s' \<Longrightarrow> stored t s = stored t s'"
  by (simp add: stored_def fun_eq_iff)

lemma stored_window_of:
  "map_option wnr_count (array_find (\<lambda>r. wnr_tenant r = t \<and> wnr_source r = source \<and> (wnr_zone r, wnr_start r) = k)
     (map (window_of tenant source) ws)) = (if t = tenant then batch_counts ws k else None)"
  by (induction ws) (auto simp: batch_counts_def window_of_def)

lemma stored_append:
  assumes "tdb_windows s' = tdb_windows s @ map (window_of tenant source) ws"
  shows "stored t s' = (if t = tenant then batch_counts ws ++ stored t s else stored t s)"
  using stored_window_of [of t _ tenant ws] unfolding stored_def assms array_find_append
  by (auto simp: fun_eq_iff map_add_def simp del: array_find_None_iff split: option.split)

lemma new_windows:
  assumes "distinct (map window_pos ws)" and "m ++ batch_counts ws = batch_counts ws ++ m"
  defines "new \<equiv> filter (\<lambda>w. m (window_pos w) = None) ws"
  shows "batch_counts new ++ m = m ++ batch_counts ws" and "length new = card (dom (batch_counts ws) - dom m)"
proof -
  have d: "distinct (map window_pos new)" unfolding new_def using assms(1) by (simp add: distinct_map_filter)
  show "batch_counts new ++ m = m ++ batch_counts ws" unfolding assms(2)
  proof
    fix k
    show "(batch_counts new ++ m) k = (batch_counts ws ++ m) k"
    proof (cases "m k")
      case None
      show ?thesis
      proof (cases "k \<in> window_pos ` set ws")
        case True
        then show ?thesis
          using None batch_counts_pos [OF assms(1)] batch_counts_pos [OF d] by (auto simp: map_add_def new_def)
      next
        case False
        then have "k \<notin> dom (batch_counts new)" "k \<notin> dom (batch_counts ws)"
          by (auto simp: batch_counts_dom new_def)
        then show ?thesis using None by (simp add: map_add_def domIff)
      qed
    qed (simp add: map_add_def)
  qed
  have "dom (batch_counts ws) - dom m = set (map window_pos new)"
    by (auto simp: batch_counts_dom new_def)
  then show "length new = card (dom (batch_counts ws) - dom m)" using distinct_card [OF d] by simp
qed

lemma stored_filter_tenant:
  "stored t (s\<lparr>tdb_windows := filter (\<lambda>r. wnr_tenant r \<noteq> tenant) (tdb_windows s)\<rparr>) =
   (if t = tenant then Map.empty else stored t s)"
proof -
  have "array_find p (filter q rows) = array_find (\<lambda>r. q r \<and> p r) rows" for p q and rows :: "window_row list"
    by (induction rows) auto
  then show ?thesis by (auto simp: stored_def fun_eq_iff intro!: arg_cong [where f = "\<lambda>p. map_option _ (array_find p _)"])
qed

text \<open>The windows that an import starts from.\<close>

definition cleared :: "bool \<Rightarrow> string \<Rightarrow> traffic_db \<Rightarrow> traffic_db" where
  "cleared replace tenant s =
     (if replace then s\<lparr>tdb_windows := filter (\<lambda>r. wnr_tenant r \<noteq> tenant) (tdb_windows s)\<rparr> else s)"

lemma ingest_fresh:
  assumes "acceptable tenant b now" and "array_find (has_batch tenant (tba_id b)) (tdb_batches s) = None"
  shows "ingest_as digest replace tenant b now s =
    (case insert_windows tenant source (sort_key window_key (tba_windows b)) (tdb_windows (cleared replace tenant s)) 0 of
       Inl e \<Rightarrow> (s, Inl e)
     | Inr (ws, n) \<Rightarrow>
         ((lock_scope tenant s)\<lparr>tdb_batches := (if replace then filter (\<lambda>r. \<not> (btr_tenant r = tenant \<and> btr_id r \<noteq> tba_id b)) (tdb_batches s)
             else tdb_batches s) @ [\<lparr>btr_tenant = tenant, btr_id = tba_id b,
               btr_print = digest (P_traffic_batch (sort_windows b)), btr_inserted = n\<rparr>], tdb_windows := ws\<rparr>,
          Inr \<lparr>igr_id = tba_id b, igr_inserted = n, igr_replayed = False\<rparr>))"
proof -
  have old: "\<forall>r \<in> set (tdb_batches s). \<not> has_batch tenant (tba_id b) r" using assms(2) by simp
  have same: "update_where (has_batch tenant (tba_id b)) f rows = rows"
    if "set rows \<subseteq> set (tdb_batches s)" for f rows
    using that old by (intro update_where_none) (auto simp: affected_iff)
  have app: "update_where p f (xs @ ys) = update_where p f xs @ update_where p f ys" for p f and xs ys :: "batch_row list"
    by (simp add: update_where_def)
  have lock [simp]: "tdb_batches (lock_scope tenant s) = tdb_batches s" "tdb_windows (lock_scope tenant s) = tdb_windows s"
    by (simp_all add: lock_scope_def)
  show ?thesis
    using assms(1) unfolding ingest_as_def Let_def assms(2) cleared_def acceptable_def
    by (auto simp: assms(2) app same has_batch_def simp del: array_find_None_iff split: sum.split)
qed

lemma cleared_stored:
  "stored t (cleared replace tenant s) = (if replace \<and> t = tenant then Map.empty else stored t s)"
  by (simp add: cleared_def stored_filter_tenant)

text \<open>The loop on an acceptable batch, by the stored counts \<open>m\<close> and those of the batch.\<close>

lemma insert_acceptable:
  fixes s1 :: traffic_db
  assumes "acceptable tenant b now"
  defines "m \<equiv> stored tenant s1" and "c \<equiv> batch_counts (tba_windows b)"
  shows "if m ++ c = c ++ m
    then \<exists>new. insert_windows tenant source (sort_key window_key (tba_windows b)) (tdb_windows s1) 0 =
        Inr (tdb_windows s1 @ map (window_of tenant source) new, card (dom c - dom m)) \<and> batch_counts new ++ m = m ++ c
    else insert_windows tenant source (sort_key window_key (tba_windows b)) (tdb_windows s1) 0 = Inl Batch_conflict"
proof -
  note d = acceptable_distinct [OF assms(1)]
  have c: "batch_counts (sort_key window_key (tba_windows b)) = c" by (simp add: c_def batch_counts_sort [OF d])
  show ?thesis
    using insert_windows_spec [OF d, of tenant s1 0, folded m_def, unfolded compatible_iff [OF d, of m] c]
      new_windows [OF d, of m, unfolded c] by auto
qed

lemma ingest_union:
  fixes s :: traffic_db and replace :: bool
  assumes "acceptable tenant b now" and "array_find (has_batch tenant (tba_id b)) (tdb_batches s) = None"
  defines "m \<equiv> stored tenant (cleared replace tenant s)" and "c \<equiv> batch_counts (tba_windows b)"
  assumes "m ++ c = c ++ m"
  obtains s' where "ingest_as digest replace tenant b now s =
      (s', Inr \<lparr>igr_id = tba_id b, igr_inserted = card (dom c - dom m), igr_replayed = False\<rparr>)"
    and "\<And>t. stored t s' = (if t = tenant then m ++ c else stored t s)"
    and "set (tdb_batches s') \<subseteq> insert \<lparr>btr_tenant = tenant, btr_id = tba_id b,
      btr_print = digest (P_traffic_batch (sort_windows b)), btr_inserted = card (dom c - dom m)\<rparr> (set (tdb_batches s))"
proof -
  obtain new where loop: "insert_windows tenant source (sort_key window_key (tba_windows b)) (tdb_windows (cleared replace tenant s)) 0 =
        Inr (tdb_windows (cleared replace tenant s) @ map (window_of tenant source) new, card (dom c - dom m))"
    and new: "batch_counts new ++ m = m ++ c"
    using insert_acceptable [OF assms(1), of "cleared replace tenant s", folded m_def c_def] assms(5) by auto
  have "stored t s' = (if t = tenant then m ++ c else stored t s)"
    if "tdb_windows s' = tdb_windows (cleared replace tenant s) @ map (window_of tenant source) new" for s' t
    using stored_append [OF that, of t] new by (simp add: m_def cleared_stored)
  then show thesis
    by (intro that [OF ingest_fresh [OF assms(1,2), of digest replace, unfolded loop, simplified]]) auto
qed

lemma ingest_conflict:
  assumes "acceptable tenant b now" and "array_find (has_batch tenant (tba_id b)) (tdb_batches s) = None"
    and "stored tenant (cleared replace tenant s) ++ batch_counts (tba_windows b) \<noteq>
      batch_counts (tba_windows b) ++ stored tenant (cleared replace tenant s)"
  shows "ingest_as digest replace tenant b now s = (s, Inl Batch_conflict)"
  using insert_acceptable [OF assms(1), of "cleared replace tenant s"] assms(3)
  by (simp add: ingest_fresh [OF assms(1,2)])

text \<open>
  C14. Importing a batch is atomic and additive: a valid batch under a new identifier either agrees with
  every stored count it meets, and then the stored counts become the union of both and the result
  tells how many windows were new, or it conflicts and nothing changes. A replacing import starts
  from no counts. Other tenants' counts never change.
\<close>

theorem import_refines_union:
  assumes "acceptable tenant b now" and "array_find (has_batch tenant (tba_id b)) (tdb_batches s) = None"
  shows "let m = (if replace then Map.empty else stored tenant s); c = batch_counts (tba_windows b);
             (s', r) = ingest_as digest replace tenant b now s in
    (case union_import m c of
       None \<Rightarrow> s' = s \<and> r = Inl Batch_conflict
     | Some m' \<Rightarrow> stored tenant s' = m' \<and>
         r = Inr \<lparr>igr_id = tba_id b, igr_inserted = card (dom c - dom m), igr_replayed = False\<rparr>) \<and>
    (t \<noteq> tenant \<longrightarrow> stored t s' = stored t s)"
proof -
  define m where "m = stored tenant (cleared replace tenant s)"
  define c where "c = batch_counts (tba_windows b)"
  have m: "(if replace then Map.empty else stored tenant s) = m" by (simp add: m_def cleared_stored)
  show ?thesis
  proof (cases "m ++ c = c ++ m")
    case True
    obtain s' where "ingest_as digest replace tenant b now s =
        (s', Inr \<lparr>igr_id = tba_id b, igr_inserted = card (dom c - dom m), igr_replayed = False\<rparr>)"
      and "\<And>u. stored u s' = (if u = tenant then m ++ c else stored u s)"
      by (rule ingest_union [OF assms, of replace digest, folded m_def c_def, OF True]) (rule that)
    then show ?thesis unfolding m c_def [symmetric] union_import_def if_P [OF True] by (simp add: True)
  next
    case False
    then show ?thesis
      using ingest_conflict [OF assms, of replace digest]
      unfolding m c_def [symmetric] m_def [symmetric] union_import_def if_not_P [OF False] by simp
  qed
qed

definition one_batch :: traffic_batch where
  "one_batch = \<lparr>tba_id = ''batch-1'', tba_source = source,
     tba_windows = [\<lparr>win_zone = ''transit'', win_start = 3600000, win_count = 40\<rparr>]\<rparr>"

lemma one_batch_acceptable: "acceptable ''local-demo'' one_batch 8000000"
  by (simp add: acceptable_def one_batch_def identity_def identity_char_def is_digit_def less_eq_char_def
      valid_window_def zones_def truncate_hour_def hour_ms_def)

theorem import_refines_union_witness:
  "let (s', r) = ingest_as (\<lambda>_. []) False ''local-demo'' one_batch 8000000 (one_window 25) in
     r = Inr \<lparr>igr_id = ''batch-1'', igr_inserted = 1, igr_replayed = False\<rparr> \<and>
     stored ''local-demo'' s' (''transit'', 3600000) = Some 40 \<and> stored ''local-demo'' s' (''retail'', 3600000) = Some 25"
proof -
  let ?m = "stored ''local-demo'' (one_window 25)" and ?c = "batch_counts (tba_windows one_batch)"
  have m: "?m = [(''retail'', 3600000) \<mapsto> 25]" by (auto simp: stored_def one_window_def fun_eq_iff)
  have c: "?c = [(''transit'', 3600000) \<mapsto> 40]" by (simp add: batch_counts_def one_batch_def)
  have "union_import ?m ?c = Some (?m ++ ?c)" unfolding m c by (auto simp: union_import_def fun_eq_iff map_add_def)
  moreover have "card (dom ?c - dom ?m) = 1" by (simp add: m c)
  ultimately show ?thesis
    using import_refines_union [OF one_batch_acceptable, of "one_window 25" False "\<lambda>_. []" "''other''"]
    by (simp add: one_window_def Let_def split: prod.splits) (simp add: m [unfolded one_window_def] one_batch_def batch_counts_def map_add_def)
qed

subsection \<open>Retries\<close>

text \<open>Operations of the service that neither empty nor replace the sample of one tenant.\<close>

inductive other_step :: "(payload \<Rightarrow> string) \<Rightarrow> string \<Rightarrow> traffic_db \<Rightarrow> traffic_db \<Rightarrow> bool" for digest tenant where
  o_ingest: "other_step digest tenant s (fst (ingest_sample digest t b now s))"
| o_replace: "t \<noteq> tenant \<Longrightarrow> other_step digest tenant s (fst (replace_sample digest t b now s))"
| o_empty: "t \<noteq> tenant \<Longrightarrow> other_step digest tenant s (fst (empty_sample t s))"

lemma sort_key_Nil [simp]: "sort_key f xs = [] \<longleftrightarrow> xs = []"
  using length_sort [of f xs] by (metis length_0_conv)

lemma ingest_known:
  assumes "acceptable tenant b now" and "array_find (has_batch tenant (tba_id b)) (tdb_batches s) = Some r"
  shows "ingest_as digest replace tenant b now s =
    (s, if btr_print r \<noteq> digest (P_traffic_batch (sort_windows b)) then Inl Batch_conflict
        else Inr \<lparr>igr_id = tba_id b, igr_inserted = btr_inserted r, igr_replayed = True\<rparr>)"
  using assms by (auto simp: ingest_as_def Let_def acceptable_def)

lemma ingest_refused:
  "\<not> acceptable tenant b now \<Longrightarrow> ingest_as digest replace tenant b now s = (s, Inl Invalid_batch)"
  unfolding ingest_as_def Let_def acceptable_def by (auto simp: Suc_le_eq)

text \<open>The three outcomes of an import.\<close>

lemma ingest_cases:
  obtains (refused) "\<not> acceptable tenant b now" "ingest_as digest replace tenant b now s = (s, Inl Invalid_batch)"
  | (known) r where "acceptable tenant b now" "array_find (has_batch tenant (tba_id b)) (tdb_batches s) = Some r"
      "ingest_as digest replace tenant b now s =
       (s, if btr_print r \<noteq> digest (P_traffic_batch (sort_windows b)) then Inl Batch_conflict
           else Inr \<lparr>igr_id = tba_id b, igr_inserted = btr_inserted r, igr_replayed = True\<rparr>)"
  | (fresh) "acceptable tenant b now" "array_find (has_batch tenant (tba_id b)) (tdb_batches s) = None"
  using ingest_refused ingest_known by (metis not_None_eq)

lemma array_find_filter_same:
  "(\<And>x. p x \<Longrightarrow> q x) \<Longrightarrow> array_find p (filter q xs) = array_find p xs"
  by (induction xs) auto

lemma ingest_keeps_batch:
  assumes "array_find (has_batch tenant i) (tdb_batches s) = Some r" and "replace \<Longrightarrow> t \<noteq> tenant"
  shows "array_find (has_batch tenant i) (tdb_batches (fst (ingest_as digest replace t b now s))) = Some r"
proof (cases rule: ingest_cases [where tenant = t and b = b and now = now and s = s and digest = digest and replace = replace])
  case fresh
  have "array_find (has_batch tenant i) (if replace then filter (\<lambda>r. \<not> (btr_tenant r = t \<and> btr_id r \<noteq> tba_id b)) (tdb_batches s)
      else tdb_batches s) = Some r"
    using assms by (cases replace) (auto simp: has_batch_def intro!: array_find_filter_same [THEN trans])
  then show ?thesis
    using assms(1) unfolding ingest_fresh [OF fresh, of digest replace]
    by (auto simp: array_find_append split: sum.split)
qed (use assms in auto)

lemma other_step_keeps_batch:
  assumes "(other_step digest tenant)\<^sup>*\<^sup>* s s'" and "array_find (has_batch tenant i) (tdb_batches s) = Some r"
  shows "array_find (has_batch tenant i) (tdb_batches s') = Some r"
  using assms
proof (induction rule: rtranclp_induct)
  case (step y z)
  from step.hyps(2) step.IH [OF step.prems] show ?case
  proof cases
    case (o_empty t)
    have "array_find (has_batch tenant i) (filter (\<lambda>r. btr_tenant r \<noteq> t) rows) = array_find (has_batch tenant i) rows" for rows
      using o_empty(2) by (intro array_find_filter_same) (simp add: has_batch_def)
    then show ?thesis
      using o_empty step.IH [OF step.prems] by (simp add: empty_sample_def Let_def lock_scope_def)
  qed (simp_all add: ingest_sample_def replace_sample_def ingest_keeps_batch)
qed

lemma ingest_leaves_batch:
  assumes "ingest_as digest replace tenant b now s = (s', Inr res)"
  shows "array_find (has_batch tenant (tba_id b)) (tdb_batches s') = Some \<lparr>btr_tenant = tenant, btr_id = tba_id b,
      btr_print = digest (P_traffic_batch (sort_windows b)), btr_inserted = igr_inserted res\<rparr> \<and> igr_id res = tba_id b"
proof (cases rule: ingest_cases [where tenant = tenant and b = b and now = now and s = s and digest = digest and replace = replace])
  case (known r)
  then have "has_batch tenant (tba_id b) r" using array_find_SomeD by metis
  then show ?thesis using known assms by (auto simp: has_batch_def split: if_splits)
next
  case fresh
  have none: "array_find (has_batch tenant (tba_id b)) (if replace then filter (\<lambda>r. \<not> (btr_tenant r = tenant \<and> btr_id r \<noteq> tba_id b)) (tdb_batches s)
      else tdb_batches s) = None"
    using fresh(2) by auto
  show ?thesis
    using assms none unfolding ingest_fresh [OF fresh, of digest replace]
    by (auto simp: array_find_append has_batch_def simp del: array_find_None_iff split: sum.splits)
qed (use assms in auto)

lemma singleton_list: "distinct xs \<Longrightarrow> set xs = {k} \<Longrightarrow> xs = [k]"
  by (cases xs; cases "tl xs") auto

lemma sort_key_permuted:
  assumes "mset xs = mset ys" and "distinct (map f ys)"
  shows "sort_key f xs = sort_key f ys"
proof (rule properties_for_sort_key)
  show "mset (sort_key f ys) = mset xs" using assms(1) by simp
  fix k assume "k \<in> set (sort_key f ys)"
  then have k: "k \<in> set ys" by simp
  have inj: "inj_on f (set ys)" and d: "distinct ys" using assms(2) by (auto simp: distinct_map)
  have "filter (\<lambda>x. f k = f x) zs = [k]" if "mset zs = mset ys" for zs
  proof -
    have s: "set zs = set ys" and "distinct zs" using that d by (auto dest: mset_eq_setD mset_eq_imp_distinct_iff)
    then have "distinct (filter (\<lambda>x. f k = f x) zs)" and "set (filter (\<lambda>x. f k = f x) zs) = {k}"
      using inj k by (auto simp: inj_on_def)
    then show ?thesis by (rule singleton_list)
  qed
  then show "filter (\<lambda>x. f k = f x) (sort_key f ys) = filter (\<lambda>x. f k = f x) xs"
    using assms(1) by (metis mset_sort)
qed simp

lemma acceptable_permuted:
  assumes "acceptable tenant b now" and "mset ws = mset (tba_windows b)"
  shows "acceptable tenant (b\<lparr>tba_windows := ws\<rparr>) now" and "sort_windows (b\<lparr>tba_windows := ws\<rparr>) = sort_windows b"
proof -
  have "distinct (map window_pos (tba_windows b))"
    using acceptable_distinct [OF assms(1)] by (metis distinct_map distinct_sort set_sort)
  then have "distinct (map window_key (tba_windows b))" by (auto simp: distinct_map inj_on_def window_pos_inj)
  then have sort: "sort_key window_key ws = sort_key window_key (tba_windows b)"
    by (rule sort_key_permuted [OF assms(2)])
  have "length ws = length (tba_windows b)" using assms(2) by (rule mset_eq_length)
  with sort assms(1) show "acceptable tenant (b\<lparr>tba_windows := ws\<rparr>) now" by (simp add: acceptable_def)
  show "sort_windows (b\<lparr>tba_windows := ws\<rparr>) = sort_windows b" by (simp add: sort_windows_def sort)
qed

text \<open>
  C25. A retry of an imported batch, with its windows in any order and after any other operations that
  neither empty nor replace its sample, returns the original result as a replay and changes nothing.
  The windows must not have become older than a week.
\<close>

theorem retry_returns_original:
  assumes "ingest_as digest replace tenant b now s = (s1, Inr res)"
    and "(other_step digest tenant)\<^sup>*\<^sup>* s1 s2"
    and "acceptable tenant b later" and "mset ws = mset (tba_windows b)"
  shows "ingest_as digest replace' tenant (b\<lparr>tba_windows := ws\<rparr>) later s2 = (s2, Inr (res\<lparr>igr_replayed := True\<rparr>))"
proof -
  note left = ingest_leaves_batch [OF assms(1)]
  note kept = other_step_keeps_batch [OF assms(2) left [THEN conjunct1]]
  note ok = acceptable_permuted [OF assms(3,4)]
  show ?thesis using ingest_known [OF ok(1), of s2] kept left ok(2) by simp
qed

theorem retry_returns_original_witness:
  "let (s1, r) = ingest_as (\<lambda>_. []) False ''local-demo'' one_batch 8000000 (one_window 25) in
     ingest_as (\<lambda>_. []) False ''local-demo'' one_batch 9000000 s1 =
     (s1, Inr \<lparr>igr_id = ''batch-1'', igr_inserted = 1, igr_replayed = True\<rparr>)"
proof -
  obtain s1 where run: "ingest_as (\<lambda>_. []) False ''local-demo'' one_batch 8000000 (one_window 25) =
      (s1, Inr \<lparr>igr_id = ''batch-1'', igr_inserted = 1, igr_replayed = False\<rparr>)"
    using ingest_fresh [OF one_batch_acceptable, of "one_window 25" "\<lambda>_. []" False]
    by (simp add: one_window_def one_batch_def cleared_def has_window_def)
  moreover have "acceptable ''local-demo'' one_batch 9000000"
    using one_batch_acceptable by (simp add: acceptable_def truncate_hour_def hour_ms_def)
  ultimately show ?thesis
    using retry_returns_original [OF run rtranclp.rtrancl_refl, of 9000000 "tba_windows one_batch" False] by simp
qed

end
