(* ===== verification/Reloads.thy ===== *)
theory Reloads
  imports FootTraffic TrafficLaws
begin

text \<open>
  The foot-traffic page across a reload: what one document writes into the session's storage as JSON and
  the next one reads back, against the rules by which the service accepts a batch. The kept attempts of
  batches that the service accepted survive exactly as long as none of their windows is a week old, and
  can then be sent again unchanged.
\<close>

subsection \<open>Writing and reading the attempts\<close>

lemma json_windows: "those (map json_window (map window_json ws)) = Some ws"
  by (induction ws) (simp_all add: json_window_def window_json_def)

lemma json_batch_json: "json_batch (batch_json (P_traffic_batch b)) = P_traffic_batch b"
  using json_windows [of "tba_windows b"] by (simp add: json_batch_def)

lemma map_of_map_filter:
  "map_of (List.map_filter (\<lambda>i. map_option (\<lambda>a. (i, f a)) (m i)) is) i = (if i \<in> set is then map_option f (m i) else None)"
  by (induction "is") (auto simp: List.map_filter_simps split: option.split)

lemma every_young_windows:
  "every_young now (map window_json ws) =
     Some (\<forall>w \<in> set ws. safe_integer (win_start w) \<and> now - 7 * 86400000 \<le> win_start w)"
  by (induction ws) (auto simp: window_json_def)

text \<open>A batch that the service accepts at some time has the shape the page asks for.\<close>

lemma acceptable_windows:
  assumes "acceptable tenant b t" and "w \<in> set (tba_windows b)"
  shows "valid_window (truncate_hour t) w"
proof -
  have "check_windows e prev ws \<Longrightarrow> v \<in> set ws \<Longrightarrow> valid_window e v" for e prev ws v
    by (induction ws arbitrary: prev) auto
  from this [of "truncate_hour t" None "tba_windows (sort_windows b)" w] assms show ?thesis
    by (simp add: acceptable_def sort_windows_def)
qed

lemma acceptable_safe:
  assumes "acceptable tenant b t" and "0 \<le> t" and "t < 2 ^ 53" and "w \<in> set (tba_windows b)"
  shows "safe_integer (win_start w)"
proof -
  have "0 \<le> t mod 3600000" "t mod 3600000 < 3600000" by simp_all
  moreover have "t - t mod 3600000 - 604800000 \<le> win_start w" "win_start w < t - t mod 3600000"
    using acceptable_windows [OF assms(1,4)] by (simp_all add: valid_window_def truncate_hour_def hour_ms_def)
  ultimately show ?thesis using assms(2,3) unfolding safe_integer_def by (auto simp del: mod_pos_pos_trivial)
qed

lemma good_batch_acceptable:
  assumes "acceptable tenant b t" and "0 \<le> t" and "t < 2 ^ 53"
  shows "good_batch now (batch_json (P_traffic_batch b)) =
    Some (list_all (\<lambda>w. now - 7 * 86400000 \<le> win_start w) (tba_windows b))"
proof -
  have "tba_source b = ''synthetic-partner-v1''" "tba_windows b \<noteq> []" "length (tba_windows b) \<le> 96"
    using assms(1) by (auto simp: acceptable_def source_def)
  then show ?thesis
    using acceptable_safe [OF assms] by (simp add: good_batch_def every_young_windows list_all_iff)
qed

text \<open>Attempts of batches that the service accepted at some time.\<close>

definition accepted_attempts :: "string \<Rightarrow> (string \<rightharpoonup> traffic_attempt) \<Rightarrow> bool" where
  "accepted_attempts tenant m \<longleftrightarrow> (\<forall>a \<in> ran m. \<exists>b t. att_batch a = P_traffic_batch b \<and> acceptable tenant b t \<and> 0 \<le> t \<and> t < 2 ^ 53)"

definition still_young :: "int \<Rightarrow> traffic_attempt \<Rightarrow> bool" where
  "still_young now a = (case att_batch a of
     P_traffic_batch b \<Rightarrow> list_all (\<lambda>w. now - 7 * 86400000 \<le> win_start w) (tba_windows b) | _ \<Rightarrow> False)"

lemma load_attempts_saved:
  assumes "accepted_attempts tenant m" and "\<forall>i \<in> set is. Option.bind saved (property i) = map_option attempt_json (m i)"
  shows "load_attempts now saved is m0 i =
    (if i \<in> set is \<and> (\<exists>a. m i = Some a \<and> still_young now a) then m i else m0 i)"
  using assms(2)
proof (induction "is" arbitrary: m0)
  case (Cons j js)
  show ?case
  proof (cases "m j")
    case None
    with Cons show ?thesis by auto
  next
    case (Some a)
    then obtain b t where b: "att_batch a = P_traffic_batch b" "acceptable tenant b t" "0 \<le> t" "t < 2 ^ 53"
      using assms(1) unfolding accepted_attempts_def by (meson ranI)
    have a: "\<lparr>att_batch = P_traffic_batch b, att_confirmed = att_confirmed a\<rparr> = a"
      and "good_batch now (batch_json (P_traffic_batch b)) = Some (still_young now a)"
      using b(1) good_batch_acceptable [OF b(2-4)] by (simp_all only: still_young_def payload.case) simp
    then have "load_attempts now saved (j # js) m0 = load_attempts now saved js (if still_young now a then m0(j \<mapsto> a) else m0)"
      using Cons.prems Some b(1) by (simp add: attempt_json_def json_batch_json a del: batch_json.simps)
    with Cons Some show ?thesis by auto
  qed
qed simp

text \<open>
  C40. A reload keeps what can be retried. A document writes its selection and its attempts as JSON; a later document of
  the session, with a clock of its own, reads them. The selection is the same one. When the attempts are
  batches that the service accepted at some time, an attempt is restored unchanged, confirmed or not, exactly if none of
  its windows started more than a week before the new document's clock, and nothing else is restored. If the
  selected sample's attempt is among them, replaying it sends the import of the same batch for the same sample.
\<close>

theorem traffic_save_load:
  assumes "\<not> invalidated s" and "storage_ok s" and "tr_selected s \<in> set sample_ids"
    and "dom (tr_attempts s) \<subseteq> set sample_ids" and "accepted_attempts tenant (tr_attempts s)"
    and "storage_ok s'" and "session_store s' traffic_key = session_store (traffic_remember s) traffic_key"
  shows "tr_selected (traffic_load s') = tr_selected s \<and>
    (\<forall>i a. tr_attempts (traffic_load s') i = Some a \<longleftrightarrow> tr_attempts s i = Some a \<and> still_young (clock s') a) \<and>
    (\<forall>a. tr_attempts s (tr_selected s) = Some a \<and> still_young (clock s') a \<and> \<not> traffic_busy s' \<and> \<not> invalidated s' \<longrightarrow>
      (\<exists>g s1 k. ingest True (traffic_load s') =
         Await s1 (Fetch ((import_request (tr_selected s) (att_batch a))\<lparr>rq_generation := g\<rparr>)) k))"
proof -
  have saved: "saved_traffic s' = Some (save_json (tr_selected s) (tr_attempts s))"
    using assms(1,2,6,7) by (simp add: saved_traffic_def traffic_remember_def set_item_def)
  have sel: "tr_selected (traffic_load s') = tr_selected s"
    using assms(3) by (simp add: traffic_load_def saved save_json_def)
  have atts: "Option.bind (Option.bind (saved_traffic s') (property ''attempts'')) (property i) =
      map_option attempt_json (tr_attempts s i)" if "i \<in> set sample_ids" for i
    using that by (simp add: saved save_json_def map_of_map_filter)
  have "tr_attempts (traffic_load s') i = (if \<exists>a. tr_attempts s i = Some a \<and> still_young (clock s') a then tr_attempts s i else None)" for i
    using load_attempts_saved [OF assms(5), of sample_ids "Option.bind (saved_traffic s') (property ''attempts'')" "clock s'" Map.empty i]
      atts assms(4) by (auto simp: traffic_load_def Let_def)
  then have kept: "tr_attempts (traffic_load s') i = Some a \<longleftrightarrow> tr_attempts s i = Some a \<and> still_young (clock s') a" for i a
    by auto
  have rest: "traffic_busy (traffic_load s') = traffic_busy s'" "invalidated (traffic_load s') = invalidated s'"
    "storage_ok (traffic_load s')" using assms(6) by (simp_all add: traffic_load_def Let_def traffic_busy_def)
  have "\<exists>g s1 k. ingest True (traffic_load s') =
      Await s1 (Fetch ((import_request (tr_selected s) (att_batch a))\<lparr>rq_generation := g\<rparr>)) k"
    if "tr_attempts s (tr_selected s) = Some a" "still_young (clock s') a" "\<not> traffic_busy s'" "\<not> invalidated s'" for a
  proof -
    have "tr_attempts (traffic_load s') (tr_selected (traffic_load s')) = Some a" using that(1,2) by (simp add: sel kept)
    from replay_sends [OF _ this] that(3,4) rest sel obtain s1 k
      where "ingest True (traffic_load s') = Await s1 (Fetch (stamp s1 (import_request (tr_selected s) (att_batch a)))) k"
      by auto
    moreover have "\<exists>g. stamp s1 rq = rq\<lparr>rq_generation := g\<rparr>" for rq by (auto simp: stamp_def intro: exI [of _ "rq_generation rq"])
    ultimately show ?thesis by metis
  qed
  with sel kept show ?thesis by blast
qed

definition reloaded_traffic :: "int \<Rightarrow> traffic_page" where
  "reloaded_traffic now = fresh_traffic\<lparr>clock := now,
     session_store := [traffic_key \<mapsto> SavedTraffic (save_json ''baseline'' (tr_attempts loaded_traffic))]\<rparr>"

lemma reloaded_traffic_sel [simp]:
  "clock (reloaded_traffic now) = now" "storage_ok (reloaded_traffic now)" "\<not> traffic_busy (reloaded_traffic now)"
  "\<not> invalidated (reloaded_traffic now)"
  "session_store (reloaded_traffic now) traffic_key = session_store (traffic_remember loaded_traffic) traffic_key"
  by (simp_all add: reloaded_traffic_def traffic_remember_def set_item_def, simp_all add: fresh_traffic_simps traffic_busy_def)

theorem traffic_save_load_witness:
  "tr_attempts (traffic_load (reloaded_traffic 3600000)) ''baseline'' =
     Some \<lparr>att_batch = P_traffic_batch example_feed, att_confirmed = True\<rparr> \<and>
   tr_attempts (traffic_load (reloaded_traffic 700000000)) ''baseline'' = None"
proof -
  have "acceptable ''t'' example_feed 3600000"
    by (simp add: acceptable_def example_feed_def identity_def identity_char_def less_eq_char_def source_def sort_windows_def
        valid_window_def zones_def truncate_hour_def hour_ms_def)
  then have ok: "accepted_attempts ''t'' (tr_attempts loaded_traffic)"
    by (auto simp: accepted_attempts_def intro!: exI [of _ "3600000"])
  have "tr_selected loaded_traffic \<in> set sample_ids" "dom (tr_attempts loaded_traffic) \<subseteq> set sample_ids" by simp_all
  note load = traffic_save_load [OF loaded_traffic_sel(5,6) this ok reloaded_traffic_sel(2,5), THEN conjunct2, THEN conjunct1,
      rule_format, of _ "''baseline''"]
  have "tr_attempts (traffic_load (reloaded_traffic now)) ''baseline'' = Some a \<longleftrightarrow>
      \<lparr>att_batch = P_traffic_batch example_feed, att_confirmed = True\<rparr> = a \<and> now - 7 * 86400000 \<le> 0" for now a
    unfolding load by (auto simp: still_young_def example_feed_def)
  from this [of 3600000] this [of 700000000] show ?thesis by (simp, metis option.exhaust)
qed

end
