(* ===== verification/SampleFeeds.thy ===== *)
theory SampleFeeds
  imports TrafficLaws
begin

text \<open>
  The sample feeds of the foot-traffic service. The feed of a scenario is a function of zone and
  hour, so feeds made at different times agree where they overlap; whatever was loaded before, a
  fresh feed is accepted.
\<close>

subsection \<open>The windows of a feed\<close>

definition feed :: "(string \<Rightarrow> nat) \<Rightarrow> string \<Rightarrow> int \<Rightarrow> traffic_batch" where
  "feed byte scenario made = (case example_for_scenario byte (\<lambda>_. 0) made scenario of Inr b \<Rightarrow> b | Inl _ \<Rightarrow> sample_batch byte made)"

definition base_window :: "(string \<Rightarrow> nat) \<Rightarrow> int \<Rightarrow> nat \<times> string \<times> string \<times> string \<Rightarrow> traffic_window" where
  "base_window byte t x = (case x of (i, z) \<Rightarrow>
     \<lparr>win_zone = fst z, win_start = t, win_count = example_count byte i (fst z) t\<rparr>)"

lemma sample_windows:
  "tba_windows (sample_batch byte made) =
   concat (map (\<lambda>t. map (base_window byte t) (enumerate 0 zones)) (example_times made))"
  by (simp add: sample_batch_def base_window_def [abs_def])

definition fixed_scenario :: "string \<Rightarrow> bool" where
  "fixed_scenario scenario \<longleftrightarrow> valid_scenario scenario \<and> scenario \<noteq> ''random''"

lemma scenario_window_baseline [simp]: "scenario_window byte ''baseline'' = Some"
  by (simp add: fun_eq_iff scenario_window_def Let_def)

lemma feed_windows:
  "fixed_scenario scenario \<Longrightarrow>
   tba_windows (feed byte scenario made) = List.map_filter (scenario_window byte scenario) (tba_windows (sample_batch byte made))"
  by (auto simp: feed_def fixed_scenario_def example_for_scenario_def List.map_filter_def)

lemma scenario_window_pos: "scenario_window byte scenario w = Some v \<Longrightarrow> window_pos v = window_pos w"
  by (auto simp: scenario_window_def Let_def window_pos_def split: if_splits)

lemma map_filter_map: "(\<And>x y. f x = Some y \<Longrightarrow> g y = h x) \<Longrightarrow> map g (List.map_filter f xs) = map h (filter (\<lambda>x. f x \<noteq> None) xs)"
  by (induction xs) (auto simp: List.map_filter_simps split: option.split)

lemma example_times_distinct: "distinct (example_times made)"
  by (simp add: example_times_def hour_ms_def upt_rec numeral_eq_Suc)

lemma sample_positions: "distinct (map window_pos (tba_windows (sample_batch byte made)))"
proof -
  have zone: "map window_pos (map (base_window byte t) (enumerate 0 zones)) = map (\<lambda>z. (fst z, t)) zones" for t
    by (simp add: zones_def base_window_def window_pos_def)
  have "map window_pos (tba_windows (sample_batch byte made)) = concat (map (\<lambda>t. map (\<lambda>z. (fst z, t)) zones) (example_times made))"
    unfolding sample_windows map_concat map_map comp_def zone [unfolded map_map comp_def] by simp
  moreover have "distinct (concat (map (\<lambda>t. map (\<lambda>z. (fst z, t)) zones) ts))" if "distinct ts" for ts :: "int list"
    using that by (induction ts) (auto simp: zones_def)
  ultimately show ?thesis using example_times_distinct by metis
qed

lemma feed_positions:
  assumes "fixed_scenario scenario"
  shows "distinct (map window_pos (tba_windows (feed byte scenario made)))"
proof -
  have "map window_pos (List.map_filter (scenario_window byte scenario) ws) =
      map window_pos (filter (\<lambda>w. scenario_window byte scenario w \<noteq> None) ws)" for ws
    by (rule map_filter_map) (rule scenario_window_pos)
  then show ?thesis
    using sample_positions [of byte made] by (simp add: feed_windows [OF assms] distinct_map_filter)
qed

lemma feed_window_cases:
  assumes "fixed_scenario scenario" and "w \<in> set (tba_windows (feed byte scenario made))"
  obtains t x where "t \<in> set (example_times made)" and "x \<in> set (enumerate 0 zones)"
    and "scenario_window byte scenario (base_window byte t x) = Some w" and "window_pos w = (fst (snd x), t)"
proof -
  obtain v where "v \<in> set (tba_windows (sample_batch byte made))" and w: "scenario_window byte scenario v = Some w"
    using assms(2) by (auto simp: feed_windows [OF assms(1)] map_filter_def)
  then obtain t x where "t \<in> set (example_times made)" "x \<in> set (enumerate 0 zones)" "v = base_window byte t x"
    by (auto simp: sample_windows)
  then show thesis
    using that w scenario_window_pos [OF w] by (cases x) (simp add: base_window_def window_pos_def)
qed

lemma zones_inj: "inj_on (\<lambda>x. fst (snd x)) (set (enumerate 0 zones))"
proof -
  have "distinct (map (\<lambda>x. fst (snd x)) (enumerate 0 zones))" by (simp add: zones_def)
  then show ?thesis by (simp only: distinct_map)
qed

text \<open>The count of a window depends on its zone and hour alone.\<close>

lemma feeds_agree:
  assumes "fixed_scenario scenario" and "v \<in> set (tba_windows (feed byte scenario made))"
    and "w \<in> set (tba_windows (feed byte scenario made'))" and "window_pos v = window_pos w"
  shows "v = w"
proof -
  obtain t x where v: "x \<in> set (enumerate 0 zones)" "scenario_window byte scenario (base_window byte t x) = Some v" "window_pos v = (fst (snd x), t)"
    by (rule feed_window_cases [OF assms(1,2)]) (rule that)
  obtain t' y where w: "y \<in> set (enumerate 0 zones)" "scenario_window byte scenario (base_window byte t' y) = Some w" "window_pos w = (fst (snd y), t')"
    by (rule feed_window_cases [OF assms(1,3)]) (rule that)
  have "t' = t" and "fst (snd x) = fst (snd y)" using v(3) w(3) assms(4) by simp_all
  moreover have "x = y"
    using inj_onD [OF zones_inj, of x y] v(1) w(1) \<open>fst (snd x) = fst (snd y)\<close> by simp
  ultimately show ?thesis using v(2) w(2) by simp
qed

subsection \<open>A feed is acceptable\<close>

text \<open>Times that the service can meet: from the second day of 1970 on, in 64 bits.\<close>

definition usable_time :: "int \<Rightarrow> bool" where
  "usable_time made \<longleftrightarrow> 48 * hour_ms \<le> made \<and> made < 2 ^ 63"

lemma truncate_hour_facts:
  "truncate_hour now mod hour_ms = 0" "truncate_hour now \<le> now" "now - hour_ms < truncate_hour now"
  "a \<le> b \<Longrightarrow> truncate_hour a \<le> truncate_hour b"
proof -
  show "truncate_hour now mod hour_ms = 0" by (simp add: truncate_hour_def mod_diff_left_eq)
  show "truncate_hour now \<le> now" "now - hour_ms < truncate_hour now"
    by (simp_all add: truncate_hour_def hour_ms_def)
  have "truncate_hour n = hour_ms * (n div hour_ms)" for n by (simp add: truncate_hour_def minus_mod_eq_mult_div)
  then show "a \<le> b \<Longrightarrow> truncate_hour a \<le> truncate_hour b"
    by (simp add: hour_ms_def zdiv_mono1)
qed

lemma example_time_facts:
  assumes "t \<in> set (example_times made)"
  shows "t mod hour_ms = 0" and "truncate_hour made - 30 * hour_ms \<le> t" and "t < truncate_hour made"
proof -
  obtain day h :: nat where "t = truncate_hour made - (int h + int day * 24) * hour_ms" "1 \<le> h" "h < 7" "day < 2"
    using assms unfolding example_times_def by auto blast
  then obtain n :: int where n: "t = truncate_hour made - n * hour_ms" "1 \<le> n" "n \<le> 30"
    by (intro that [of "int h + int day * 24"]) simp_all
  then show "t mod hour_ms = 0" using truncate_hour_facts(1) [of made] by (metis diff_zero mod_diff_right_eq mod_mult_self2_is_0)
  show "truncate_hour made - 30 * hour_ms \<le> t" "t < truncate_hour made" using n by (simp_all add: hour_ms_def)
qed

lemma example_count_bounds:
  assumes "i < 4" shows "0 \<le> example_count byte i z t" and "example_count byte i z t \<le> 1000000"
proof -
  have "0 \<le> h mod 25" "h mod 25 < 25" "0 \<le> h mod 95" "h mod 95 < 95" for h :: int by simp_all
  note mods = this [of "int (byte (z @ ''-'' @ int_digits (t div 1000)))"]
  show "0 \<le> example_count byte i z t" "example_count byte i z t \<le> 1000000"
    using assms mods unfolding example_count_def Let_def by auto
qed

lemma scenario_window_form:
  assumes "scenario_window byte scenario v = Some w"
  defines "h \<equiv> int (byte (scenario @ ''-'' @ win_zone v @ ''-'' @ int_digits (win_start v)))"
    and "r \<equiv> go_rem (win_start v div hour_ms + int (length (win_zone v))) 2"
  shows "w = v \<or> (\<exists>n \<in> {600 + h * 4, 20 + h mod 15, 3 + h mod 17, (150 + h) * 4, (150 + h) * 1, 50 + h mod 100,
      350 + h * 3, 35 + h mod 90, 19 + r}. w = v\<lparr>win_count := n\<rparr>)"
proof -
  have pick: "(\<exists>n \<in> {a1, a2, a3, a4, a5, a6, a7, a8, a9}. w = f n) \<longleftrightarrow>
      w = f a1 \<or> w = f a2 \<or> w = f a3 \<or> w = f a4 \<or> w = f a5 \<or> w = f a6 \<or> w = f a7 \<or> w = f a8 \<or> w = f a9"
    for f :: "int \<Rightarrow> traffic_window" and a1 a2 a3 a4 a5 a6 a7 a8 a9 by blast
  show ?thesis
    using assms(1) unfolding pick scenario_window_def Let_def h_def [symmetric] r_def [symmetric]
    by (simp only: split: if_split_asm) (simp only: option.inject option.distinct simp_thms)+
qed

lemma scenario_window_count:
  assumes "scenario_window byte scenario v = Some w" and "0 \<le> win_count v" and "win_count v \<le> 1000000"
    and "\<And>u. byte u < 256" and "0 \<le> win_start v"
  shows "0 \<le> win_count w \<and> win_count w \<le> 1000000"
proof -
  define h where "h = int (byte (scenario @ ''-'' @ win_zone v @ ''-'' @ int_digits (win_start v)))"
  define r where "r = go_rem (win_start v div hour_ms + int (length (win_zone v))) 2"
  have h: "0 \<le> h" "h < 256" using assms(4) by (simp_all add: h_def)
  have mod: "0 \<le> h mod k \<and> h mod k < 256" if "0 < k" for k
    using that h zmod_le_nonneg_dividend [of h k] by simp
  have "0 \<le> k mod 2 \<and> k mod 2 \<le> 1" for k :: int by presburger
  moreover have "0 \<le> win_start v div hour_ms" using assms(5) by (simp add: hour_ms_def pos_imp_zdiv_nonneg_iff)
  ultimately have r: "0 \<le> r" "r \<le> 1" by (simp_all add: r_def go_rem_def)
  have small: "\<forall>n \<in> {600 + h * 4, 20 + a, 3 + b, (150 + h) * 4, (150 + h) * 1, 50 + c, 350 + h * 3, 35 + d, 19 + r}. 0 \<le> n \<and> n \<le> 1000000"
    if "0 \<le> a \<and> a < 256" "0 \<le> b \<and> b < 256" "0 \<le> c \<and> c < 256" "0 \<le> d \<and> d < 256" for a b c d
    using that h r by simp
  have "\<forall>n \<in> {600 + h * 4, 20 + h mod 15, 3 + h mod 17, (150 + h) * 4, (150 + h) * 1, 50 + h mod 100,
      350 + h * 3, 35 + h mod 90, 19 + r}. 0 \<le> n \<and> n \<le> 1000000"
    by (intro small mod) simp_all
  with scenario_window_form [OF assms(1), folded h_def r_def] obtain n
    where "w = v \<or> w = v\<lparr>win_count := n\<rparr>" "0 \<le> n \<and> n \<le> 1000000" by blast
  with assms(2,3) show ?thesis by auto
qed

lemma check_windows_distinctI:
  "\<forall>w \<in> set ws. valid_window end w \<Longrightarrow> distinct (map window_pos ws) \<Longrightarrow>
   (case prev of None \<Rightarrow> True | Some p \<Rightarrow> window_pos p \<notin> window_pos ` set ws) \<Longrightarrow> check_windows end prev ws"
  by (induction ws arbitrary: prev) (auto simp: window_pos_def split: option.splits)

lemma feed_id:
  assumes "fixed_scenario scenario"
  shows "tba_id (feed byte scenario made) =
    ''sample-'' @ (if scenario = ''baseline'' then [] else scenario @ ''-'') @ int_digits (truncate_hour made div 1000)"
  using assms by (auto simp: feed_def fixed_scenario_def example_for_scenario_def sample_batch_def)

lemma feed_source: "fixed_scenario scenario \<Longrightarrow> tba_source (feed byte scenario made) = source"
  by (auto simp: feed_def fixed_scenario_def example_for_scenario_def sample_batch_def)

lemma feed_by_hour: "truncate_hour a = truncate_hour b \<Longrightarrow> feed byte scenario a = feed byte scenario b"
  by (simp add: feed_def example_for_scenario_def sample_batch_def example_times_def random_example_def)

lemma feed_id_identity:
  assumes "fixed_scenario scenario" and "usable_time made"
  shows "identity (tba_id (feed byte scenario made))"
proof -
  let ?d = "dec (nat (truncate_hour made div 1000))"
  have "0 \<le> truncate_hour made" "truncate_hour made < 2 ^ 63"
    using assms(2) truncate_hour_facts(2,3) [of made] by (auto simp: usable_time_def hour_ms_def)
  then have "nat (truncate_hour made div 1000) < 10 ^ 19" and d: "int_digits (truncate_hour made div 1000) = ?d"
    by (auto simp: int_digits_def nat_less_iff pos_imp_zdiv_nonneg_iff)
  then have "length ?d \<le> 19" by (intro dec_length) simp_all
  moreover have "list_all identity_char ?d"
    using dec_digits [of "nat (truncate_hour made div 1000)"] by (auto simp: list_all_iff identity_char_def)
  moreover have "length scenario \<le> 12" and "list_all identity_char scenario"
    using assms(1) by (auto simp: fixed_scenario_def valid_scenario_def identity_char_def less_eq_char_def)
  ultimately show ?thesis
    unfolding feed_id [OF assms(1)] d by (auto simp: identity_def identity_char_def less_eq_char_def)
qed

lemma feed_id_inj:
  assumes "fixed_scenario scenario" and "usable_time a" and "usable_time b"
    and "tba_id (feed byte scenario a) = tba_id (feed byte scenario b)"
  shows "feed byte scenario a = feed byte scenario b"
proof (rule feed_by_hour)
  have nonneg: "0 \<le> truncate_hour n div 1000" if "usable_time n" for n
    using that truncate_hour_facts(3) [of n] by (simp add: usable_time_def hour_ms_def pos_imp_zdiv_nonneg_iff)
  have "dec (nat (truncate_hour a div 1000)) = dec (nat (truncate_hour b div 1000))"
    using assms nonneg [OF assms(2)] nonneg [OF assms(3)] by (auto simp: feed_id int_digits_def)
  then have "nat (truncate_hour a div 1000) = nat (truncate_hour b div 1000)" by (metis decimal_dec)
  then have "truncate_hour a div 1000 = truncate_hour b div 1000"
    using nonneg [OF assms(2)] nonneg [OF assms(3)] by simp
  moreover have "1000 dvd truncate_hour n" for n
    using truncate_hour_facts(1) [of n] by (auto simp: hour_ms_def dvd_eq_mod_eq_0 [symmetric] elim: dvd_trans [rotated])
  ultimately show "truncate_hour a = truncate_hour b" by (metis dvd_div_mult_self)
qed

lemma feed_nonempty:
  assumes "fixed_scenario scenario" and "usable_time made"
  shows "tba_windows (feed byte scenario made) \<noteq> []"
proof -
  define K where "K = truncate_hour made div hour_ms"
  have K: "truncate_hour made = K * hour_ms" "47 \<le> K"
    using truncate_hour_facts [of made] assms(2) by (auto simp: K_def usable_time_def hour_ms_def)
  have "(K - 1) mod 6 \<ge> 2 \<or> (K - 3) mod 6 \<ge> 2" by presburger
  then obtain h :: nat where h: "h = 1 \<or> h = 3" "(K - int h) mod 6 \<ge> 2" by (metis of_nat_1 of_nat_numeral)
  let ?t = "truncate_hour made - int h * hour_ms"
  let ?x = "(0, ''downtown'', ''Downtown corridor'', ''Synthetic street-level zone'')"
  have "?t = (K - int h) * hour_ms" unfolding K(1) by (simp add: left_diff_distrib)
  then have t: "?t div hour_ms = K - int h" by (simp only: nonzero_mult_div_cancel_right) (simp add: hour_ms_def)
  have "?t \<in> set (example_times made)" using h(1) by (auto simp: example_times_def intro!: bexI [of _ 0] image_eqI [of _ _ h])
  moreover have "?x \<in> set (enumerate 0 zones)" by (simp add: zones_def)
  ultimately have "base_window byte ?t ?x \<in> set (tba_windows (sample_batch byte made))"
    unfolding sample_windows by auto
  moreover have "scenario_window byte scenario (base_window byte ?t ?x) \<noteq> None"
    using h K(2) by (auto simp: scenario_window_def Let_def base_window_def t go_rem_def)
  ultimately show ?thesis by (force simp: feed_windows [OF assms(1)] map_filter_def filter_empty_conv)
qed

lemma feed_length: "fixed_scenario scenario \<Longrightarrow> length (tba_windows (feed byte scenario made)) \<le> 96"
proof -
  assume "fixed_scenario scenario"
  moreover have "length (tba_windows (sample_batch byte made)) = 48"
    by (simp add: sample_windows length_concat comp_def zones_def example_times_def sum_list_triv)
  then have "length (List.map_filter f (tba_windows (sample_batch byte made))) \<le> 48" for f :: "traffic_window \<Rightarrow> traffic_window option"
    using length_filter_le [of "\<lambda>w. f w \<noteq> None" "tba_windows (sample_batch byte made)"] by (simp add: map_filter_def)
  then have "length (List.map_filter (scenario_window byte scenario) (tba_windows (sample_batch byte made))) \<le> 96"
    by (rule order_trans) simp
  ultimately show ?thesis by (simp add: feed_windows)
qed

text \<open>A batch of windows of the last thirty hours, made at most five days ago, is acceptable.\<close>

lemma example_acceptable:
  assumes "made \<le> now" and "now \<le> made + 5 * 24 * hour_ms" and "identity tenant" and "identity (tba_id b)"
    and "tba_source b = source" and "tba_windows b \<noteq> []" and "length (tba_windows b) \<le> 96"
    and "distinct (map window_pos (tba_windows b))"
    and "\<And>w. w \<in> set (tba_windows b) \<Longrightarrow> win_zone w \<in> set (map fst zones) \<and> win_start w \<in> set (example_times made) \<and>
      0 \<le> win_count w \<and> win_count w \<le> 1000000"
  shows "acceptable tenant b now"
proof -
  have "valid_window (truncate_hour now) w" if "w \<in> set (tba_windows b)" for w
  proof -
    note w = assms(9) [OF that]
    note facts = example_time_facts [OF conjunct1 [OF conjunct2 [OF w]]]
    have "truncate_hour now - 7 * 24 * hour_ms \<le> win_start w" "win_start w < truncate_hour now"
      using facts(2,3) truncate_hour_facts(4) [OF assms(1)] truncate_hour_facts(2) [of now] truncate_hour_facts(3) [of made] assms(2)
      by (simp_all add: hour_ms_def)
    then show ?thesis using w facts(1) by (simp add: valid_window_def)
  qed
  moreover have "distinct (map window_pos (sort_key window_key (tba_windows b)))" using assms(8) by (simp add: distinct_map)
  ultimately have "check_windows (truncate_hour now) None (sort_key window_key (tba_windows b))"
    by (intro check_windows_distinctI) simp_all
  moreover have "1 \<le> length (tba_windows b)" using assms(6) by (simp add: Suc_le_eq)
  ultimately show ?thesis using assms(3-5,7) by (simp add: acceptable_def)
qed

lemma feed_acceptable:
  assumes "fixed_scenario scenario" and "usable_time made" and "made \<le> now" and "now \<le> made + 5 * 24 * hour_ms"
    and "identity tenant" and "\<And>u. byte u < 256"
  shows "acceptable tenant (feed byte scenario made) now"
proof (rule example_acceptable [OF assms(3-5)])
  fix w assume member: "w \<in> set (tba_windows (feed byte scenario made))"
  obtain t x where t: "t \<in> set (example_times made)" "x \<in> set (enumerate 0 zones)"
    "scenario_window byte scenario (base_window byte t x) = Some w" "window_pos w = (fst (snd x), t)"
    by (rule feed_window_cases [OF assms(1) member]) (rule that)
  have "0 \<le> t" using example_time_facts(2) [OF t(1)] truncate_hour_facts(3) [of made] assms(2)
    by (simp add: usable_time_def hour_ms_def)
  moreover have "fst x < 4" using t(2) by (auto simp: zones_def)
  ultimately have "0 \<le> win_count w \<and> win_count w \<le> 1000000"
    using scenario_window_count [OF t(3)] assms(6) by (cases x) (simp add: base_window_def example_count_bounds)
  moreover have "fst (snd x) \<in> set (map fst zones)" using t(2) by (auto simp: zones_def)
  ultimately show "win_zone w \<in> set (map fst zones) \<and> win_start w \<in> set (example_times made) \<and>
      0 \<le> win_count w \<and> win_count w \<le> 1000000"
    using t(1,4) by (simp add: window_pos_def)
qed (use feed_id_identity feed_source feed_nonempty feed_length feed_positions assms(1,2) in blast)+

text \<open>The random feed: an identifier of hexadecimal digits, some of the windows of the basic sample, the first of them always.\<close>

lemma hex_digit: "identity_char (''0123456789abcdef'' ! (n mod 16))"
proof -
  have "list_all (\<lambda>i. identity_char (''0123456789abcdef'' ! i)) [0..<16]"
    by (simp add: upt_rec identity_char_def is_digit_def less_eq_char_def)
  then show ?thesis by (simp add: list_all_iff)
qed

lemma random_id_identity: "identity (tba_id (random_example byte entropy made))"
proof -
  have "length (concat (map (\<lambda>i. hex_byte (entropy i)) [0..<16])) = 32" by (simp add: hex_byte_def upt_rec)
  moreover have "list_all identity_char (concat (map (\<lambda>i. hex_byte (entropy i)) [0..<16]))"
    by (auto simp: list_all_iff hex_byte_def intro: hex_digit)
  ultimately show ?thesis
    unfolding identity_def by (simp add: random_example_def identity_char_def less_eq_char_def)
qed

lemma random_window_form:
  assumes "random_window entropy x = Some w"
  shows "window_pos w = window_pos (snd x) \<and> 0 \<le> win_count w \<and> win_count w \<le> 1000000"
proof -
  have "0 \<le> n mod 18 \<and> n mod 18 < 18" "0 \<le> n mod 981 \<and> n mod 981 < 981" for n :: int by simp_all
  note mods = this [of "int (entropy (16 + fst x * 2)) + 256 * int (entropy (17 + fst x * 2))"]
  have "\<exists>n. w = (snd x)\<lparr>win_count := n\<rparr> \<and>
    (n = 2 + (int (entropy (16 + fst x * 2)) + 256 * int (entropy (17 + fst x * 2))) mod 18 \<or>
     n = 20 + (int (entropy (16 + fst x * 2)) + 256 * int (entropy (17 + fst x * 2))) mod 981)"
    using assms by (auto simp: random_window_def Let_def case_prod_beta split: if_split_asm)
  then show ?thesis using mods by (auto simp: window_pos_def)
qed

lemma sample_nonempty: "\<exists>w ws. tba_windows (sample_batch byte made) = w # ws"
  by (simp add: sample_windows example_times_def zones_def upt_rec)

lemma random_acceptable:
  assumes "made \<le> now" and "now \<le> made + 5 * 24 * hour_ms" and "identity tenant"
  shows "acceptable tenant (random_example byte entropy made) now"
proof (rule example_acceptable [OF assms random_id_identity])
  let ?ws = "tba_windows (sample_batch byte made)"
  have form: "tba_windows (random_example byte entropy made) = List.map_filter (random_window entropy) (enumerate 0 ?ws)"
    by (simp add: random_example_def)
  have pos: "map window_pos (List.map_filter (random_window entropy) xs) =
      map (\<lambda>x. window_pos (snd x)) (filter (\<lambda>x. random_window entropy x \<noteq> None) xs)" for xs
    by (rule map_filter_map) (use random_window_form in blast)
  have "distinct (map (\<lambda>x. window_pos (snd x)) (enumerate 0 ?ws))"
    using sample_positions [of byte made] by (simp only: map_map [symmetric, unfolded comp_def] map_snd_enumerate)
  then show "distinct (map window_pos (tba_windows (random_example byte entropy made)))"
    unfolding form pos by (rule distinct_map_filter)
  have "length ?ws = 48" by (simp add: sample_windows length_concat comp_def zones_def example_times_def sum_list_triv)
  then show "length (tba_windows (random_example byte entropy made)) \<le> 96"
    using length_filter_le [of "\<lambda>x. random_window entropy x \<noteq> None" "enumerate 0 ?ws"] by (simp add: form map_filter_def)
  obtain w ws where "?ws = w # ws" using sample_nonempty by blast
  then show "tba_windows (random_example byte entropy made) \<noteq> []"
    by (simp add: form map_filter_simps random_window_def Let_def)
  show "tba_source (random_example byte entropy made) = source" by (simp add: random_example_def sample_batch_def)
  fix w assume "w \<in> set (tba_windows (random_example byte entropy made))"
  then obtain x where x: "x \<in> set (enumerate 0 ?ws)" "random_window entropy x = Some w"
    by (auto simp: form map_filter_def)
  then have "snd x \<in> set ?ws" using set_zip_rightD [of "fst x" "snd x"] by (simp add: enumerate_eq_zip)
  then have "win_zone (snd x) \<in> set (map fst zones) \<and> win_start (snd x) \<in> set (example_times made)"
    by (auto simp: sample_windows base_window_def zones_def)
  with random_window_form [OF x(2)] show "win_zone w \<in> set (map fst zones) \<and> win_start w \<in> set (example_times made) \<and>
      0 \<le> win_count w \<and> win_count w \<le> 1000000"
    by (simp add: window_pos_def)
qed

lemma replace_random:
  assumes "made \<le> now" and "now \<le> made + 5 * 24 * hour_ms" and "identity tenant"
    and "\<forall>r \<in> set (tdb_batches s). \<not> has_batch tenant (tba_id (random_example byte entropy made)) r"
  shows "\<exists>s' res. replace_sample digest tenant (random_example byte entropy made) now s = (s', Inr res) \<and>
    stored tenant s' = batch_counts (tba_windows (random_example byte entropy made))"
proof -
  let ?b = "random_example byte entropy made"
  have ok: "acceptable tenant ?b now" by (rule random_acceptable [OF assms(1-3)])
  have new: "array_find (has_batch tenant (tba_id ?b)) (tdb_batches s) = None" using assms(4) by simp
  have none: "stored tenant (cleared True tenant s) = Map.empty" by (simp add: cleared_stored)
  obtain s' where "ingest_as digest True tenant ?b now s = (s', Inr \<lparr>igr_id = tba_id ?b,
        igr_inserted = card (dom (batch_counts (tba_windows ?b)) - dom (stored tenant (cleared True tenant s))), igr_replayed = False\<rparr>)"
    "\<And>t. stored t s' = (if t = tenant then stored tenant (cleared True tenant s) ++ batch_counts (tba_windows ?b) else stored t s)"
    by (rule ingest_union [where digest = digest and replace = True, OF ok new]) (simp_all add: none)
  then show ?thesis by (simp add: replace_sample_def none)
qed

subsection \<open>Loading feeds\<close>

text \<open>A feed made at the first time and imported at the second.\<close>

definition timely :: "int \<times> int \<Rightarrow> bool" where
  "timely x \<longleftrightarrow> usable_time (fst x) \<and> fst x \<le> snd x \<and> snd x \<le> fst x + 5 * 24 * hour_ms"

fun load_feeds ::
  "(payload \<Rightarrow> string) \<Rightarrow> (string \<Rightarrow> nat) \<Rightarrow> string \<Rightarrow> string \<Rightarrow> (int \<times> int) list \<Rightarrow> traffic_db \<Rightarrow> traffic_db" where
  "load_feeds digest byte scenario tenant [] s = s"
| "load_feeds digest byte scenario tenant (x # xs) s =
     load_feeds digest byte scenario tenant xs (fst (ingest_sample digest tenant (feed byte scenario (fst x)) (snd x) s))"

text \<open>Everything that is stored for the tenant comes from feeds of the scenario.\<close>

definition fed :: "(payload \<Rightarrow> string) \<Rightarrow> (string \<Rightarrow> nat) \<Rightarrow> string \<Rightarrow> string \<Rightarrow> traffic_db \<Rightarrow> bool" where
  "fed digest byte scenario tenant s \<longleftrightarrow>
     (\<forall>k v. stored tenant s k = Some v \<longrightarrow> (\<exists>made. batch_counts (tba_windows (feed byte scenario made)) k = Some v)) \<and>
     (\<forall>r \<in> set (tdb_batches s). btr_tenant r = tenant \<longrightarrow> (\<exists>made. usable_time made \<and> btr_id r = tba_id (feed byte scenario made) \<and>
        btr_print r = digest (P_traffic_batch (sort_windows (feed byte scenario made)))))"

lemma fed_empty: "fed digest byte scenario tenant empty_traffic"
  by (simp add: fed_def empty_traffic_def stored_def)

lemma feed_counts_agree:
  assumes "fixed_scenario scenario" and "batch_counts (tba_windows (feed byte scenario a)) k = Some m"
    and "batch_counts (tba_windows (feed byte scenario b)) k = Some n"
  shows "m = n"
proof -
  obtain v w where "v \<in> set (tba_windows (feed byte scenario a))" "window_pos v = k" "win_count v = m"
      "w \<in> set (tba_windows (feed byte scenario b))" "window_pos w = k" "win_count w = n"
    using assms(2,3) by (auto simp: batch_counts_alt dest!: map_of_SomeD)
  then show ?thesis using feeds_agree [OF assms(1)] by metis
qed

lemma load_feed:
  assumes "fed digest byte scenario tenant s" and "fixed_scenario scenario" and "timely (made, now)"
    and "identity tenant" and "\<And>u. byte u < 256"
  shows "\<exists>s' res. ingest_sample digest tenant (feed byte scenario made) now s = (s', Inr res) \<and> fed digest byte scenario tenant s'"
proof -
  let ?b = "feed byte scenario made"
  let ?c = "batch_counts (tba_windows ?b)"
  have made: "usable_time made" "made \<le> now" "now \<le> made + 5 * 24 * hour_ms" using assms(3) by (simp_all add: timely_def)
  note ok = feed_acceptable [of scenario made now tenant byte, OF assms(2) made assms(4,5)]
  show ?thesis
  proof (cases "array_find (has_batch tenant (tba_id ?b)) (tdb_batches s)")
    case (Some r)
    then have r: "r \<in> set (tdb_batches s)" "btr_tenant r = tenant" "btr_id r = tba_id ?b"
      using array_find_SomeD [OF Some] by (auto simp: has_batch_def)
    then obtain made' where made': "usable_time made'" "btr_id r = tba_id (feed byte scenario made')"
      "btr_print r = digest (P_traffic_batch (sort_windows (feed byte scenario made')))"
      using assms(1) unfolding fed_def by blast
    have "feed byte scenario made' = ?b"
      by (rule feed_id_inj [OF assms(2) made'(1) made(1)]) (rule trans [OF made'(2) [symmetric] r(3)])
    with made'(3) have "btr_print r = digest (P_traffic_batch (sort_windows ?b))" by (simp only:)
    then show ?thesis using ingest_known [OF ok Some, of digest False] assms(1) by (simp add: ingest_sample_def)
  next
    case None
    have agree: "stored tenant s k = ?c k" if "stored tenant s k \<noteq> None" "?c k \<noteq> None" for k
    proof -
      from that obtain m n where mn: "stored tenant s k = Some m" "?c k = Some n" by blast
      with assms(1) obtain made' where "batch_counts (tba_windows (feed byte scenario made')) k = Some m"
        unfolding fed_def by blast
      from feed_counts_agree [OF assms(2) this mn(2)] mn show ?thesis by simp
    qed
    have comm: "stored tenant (cleared False tenant s) ++ ?c = ?c ++ stored tenant (cleared False tenant s)"
      using agree by (intro ext) (force simp: map_add_def cleared_stored split: option.split)
    obtain s' where s': "ingest_as digest False tenant ?b now s = (s', Inr \<lparr>igr_id = tba_id ?b,
          igr_inserted = card (dom ?c - dom (stored tenant (cleared False tenant s))), igr_replayed = False\<rparr>)"
      "\<And>t. stored t s' = (if t = tenant then stored tenant (cleared False tenant s) ++ ?c else stored t s)"
      "set (tdb_batches s') \<subseteq> insert \<lparr>btr_tenant = tenant, btr_id = tba_id ?b, btr_print = digest (P_traffic_batch (sort_windows ?b)),
          btr_inserted = card (dom ?c - dom (stored tenant (cleared False tenant s)))\<rparr> (set (tdb_batches s))"
      by (rule ingest_union [where digest = digest, OF ok None comm]) (rule that)
    have "fed digest byte scenario tenant s'"
      unfolding fed_def
    proof (intro conjI allI impI ballI)
      fix k v assume "stored tenant s' k = Some v"
      then show "\<exists>made. batch_counts (tba_windows (feed byte scenario made)) k = Some v"
        using assms(1) unfolding s'(2) fed_def by (cases k) (auto simp: map_add_Some_iff cleared_stored)
    next
      fix r assume r: "r \<in> set (tdb_batches s')" "btr_tenant r = tenant"
      then consider "r \<in> set (tdb_batches s)" | "btr_id r = tba_id ?b" "btr_print r = digest (P_traffic_batch (sort_windows ?b))"
        using subsetD [OF s'(3) r(1)] by (elim insertE) simp_all
      then show "\<exists>made. usable_time made \<and> btr_id r = tba_id (feed byte scenario made) \<and>
          btr_print r = digest (P_traffic_batch (sort_windows (feed byte scenario made)))"
        using assms(1) made(1) r(2) unfolding fed_def by cases blast+
    qed
    then show ?thesis using s'(1) by (simp add: ingest_sample_def)
  qed
qed

lemma load_feeds_fed:
  assumes "fed digest byte scenario tenant s" and "fixed_scenario scenario" and "list_all timely xs"
    and "identity tenant" and "\<And>u. byte u < 256"
  shows "fed digest byte scenario tenant (load_feeds digest byte scenario tenant xs s)"
  using assms(1,3)
proof (induction xs arbitrary: s)
  case (Cons x xs)
  obtain s' res where "ingest_sample digest tenant (feed byte scenario (fst x)) (snd x) s = (s', Inr res)"
    and "fed digest byte scenario tenant s'"
    using load_feed [OF Cons.prems(1) assms(2), of "fst x" "snd x"] Cons.prems(2) assms(4,5) by auto
  then show ?case using Cons by simp
qed simp

text \<open>
  C27. A sample can always be loaded, within five days of its making. For a scenario other than the random
  one, however many of its feeds were imported before, at whatever hours, the feed that the service makes now is
  accepted when it is imported, because feeds agree on every zone and hour they share and reuse their
  identifier only for the same content. The random feed, whose counts are drawn anew and would conflict with
  those of an earlier one, is accepted when it replaces the sample, whatever the sample holds, if its
  identifier is new, and the sample then holds the counts of this feed only. The hash of a text has a first byte below 256.
\<close>

theorem sample_feeds_load:
  assumes "example_for_scenario byte entropy made scenario = Inr b"
    and "list_all timely xs" and "timely (made, now)" and "identity tenant" and "\<And>u. byte u < 256"
  shows "(scenario \<noteq> ''random'' \<longrightarrow>
      (\<exists>s' res. ingest_sample digest tenant b now (load_feeds digest byte scenario tenant xs empty_traffic) = (s', Inr res))) \<and>
    (scenario = ''random'' \<and> (\<forall>r \<in> set (tdb_batches s). \<not> has_batch tenant (tba_id b) r) \<longrightarrow>
      (\<exists>s' res. replace_sample digest tenant b now s = (s', Inr res) \<and> stored tenant s' = batch_counts (tba_windows b)))"
proof (cases "scenario = ''random''")
  case True
  then have "b = random_example byte entropy made"
    using assms(1) by (simp add: example_for_scenario_def valid_scenario_def)
  then show ?thesis using replace_random [of made now tenant s] assms(3,4) True by (simp add: timely_def)
next
  case False
  have fixed: "fixed_scenario scenario"
    using assms(1) False by (auto simp: example_for_scenario_def fixed_scenario_def split: if_splits)
  then have "b = feed byte scenario made"
    using assms(1) False by (auto simp: feed_def example_for_scenario_def fixed_scenario_def split: if_splits)
  then show ?thesis
    using False load_feed [of digest byte, OF load_feeds_fed [of digest byte, OF fed_empty fixed assms(2,4,5)] fixed assms(3,4,5)]
    by blast
qed

definition gaps_loads :: "(int \<times> int) list" where
  "gaps_loads = [(200000000000, 200000000000), (200000000000, 200000001000), (200007200000, 200010800000)]"

theorem sample_feeds_load_witness:
  "(\<exists>s' res. ingest_sample (\<lambda>_. []) ''local-demo'' (feed (\<lambda>_. 7) ''gaps'' 200000003000) 200000004000
     (load_feeds (\<lambda>_. []) (\<lambda>_. 7) ''gaps'' ''local-demo'' gaps_loads empty_traffic) = (s', Inr res)) \<and>
   (\<exists>s' res. replace_sample (\<lambda>_. []) ''local-demo'' (random_example (\<lambda>_. 7) (\<lambda>n. n) 200000003000) 200000004000 empty_traffic = (s', Inr res))"
proof -
  have ok: "list_all timely gaps_loads" "timely (200000003000, 200000004000)" "identity ''local-demo''"
    by (simp_all add: gaps_loads_def timely_def usable_time_def hour_ms_def identity_def identity_char_def less_eq_char_def)
  have "example_for_scenario (\<lambda>_. 7) (\<lambda>_. 0) 200000003000 ''gaps'' = Inr (feed (\<lambda>_. 7) ''gaps'' 200000003000)"
    by (simp add: feed_def example_for_scenario_def valid_scenario_def)
  from sample_feeds_load [OF this ok] have "\<exists>s' res. ingest_sample (\<lambda>_. []) ''local-demo'' (feed (\<lambda>_. 7) ''gaps'' 200000003000) 200000004000
     (load_feeds (\<lambda>_. []) (\<lambda>_. 7) ''gaps'' ''local-demo'' gaps_loads empty_traffic) = (s', Inr res)" by simp
  moreover have "example_for_scenario (\<lambda>_. 7) (\<lambda>n. n) 200000003000 ''random'' = Inr (random_example (\<lambda>_. 7) (\<lambda>n. n) 200000003000)"
    by (simp add: example_for_scenario_def valid_scenario_def)
  from sample_feeds_load [OF this ok, of "\<lambda>_. []" empty_traffic] have "\<exists>s' res. replace_sample (\<lambda>_. []) ''local-demo''
     (random_example (\<lambda>_. 7) (\<lambda>n. n) 200000003000) 200000004000 empty_traffic = (s', Inr res)" by (auto simp: empty_traffic_def)
  ultimately show ?thesis by blast
qed

end
