(* ===== verification/TrafficHttp.thy ===== *)
theory TrafficHttp
  imports SampleFeeds
begin

text \<open>
  The HTTP handlers of the foot-traffic service, \<open>internal/foottraffic/http.go\<close>, as functions of a
  call and the tables. A call has its method (GET or POST), its path, the values of its \<open>scenario\<close>
  parameter, whether its content type is JSON, and its body as the strict decoder sees it. Failures
  of the database itself, which the handlers answer with status 503, and the response headers are
  not modelled.
\<close>

subsection \<open>Calls\<close>

text \<open>
  The first JSON value of a body: an object with fields of a batch only (absent fields are zero), an
  object without fields, \<open>null\<close>, anything else the decoder refuses, or more bytes than allowed.
\<close>

datatype traffic_json = Batch_object traffic_batch | Empty_object | Json_null | Refused_json | Oversized_json

record traffic_call =
  tcl_post :: bool
  tcl_path :: string
  tcl_scenarios :: "string list option"
  tcl_json :: bool
  tcl_body :: traffic_json
  tcl_trailing :: bool

datatype traffic_reply = T_detail string | T_not_found | T_method | T_emptied nat nat |
  T_report traffic_report | T_batch traffic_batch | T_result ingest_result

type_synonym traffic_answer = "traffic_db \<times> int \<times> traffic_reply"

text \<open>What the service is started with and what it reads from its environment.\<close>

record service =
  tea_demo :: bool
  tea_tenant :: string
  tea_digest :: "payload \<Rightarrow> string"
  tea_hex :: "string \<Rightarrow> string"
  tea_byte :: "string \<Rightarrow> nat"
  tea_entropy :: "nat \<Rightarrow> nat"
  tea_now :: int

subsection \<open>Handlers\<close>

fun fail_traffic :: "traffic_error \<Rightarrow> int \<times> traffic_reply" where
  "fail_traffic Invalid_batch = (422, T_detail (''Use synthetic-partner-v1, known zones and 1'' @ [CHR 0xE2, CHR 0x80, CHR 0x93] @
     ''96 distinct, completed UTC-hour windows from the last seven days; counts must be between 0 and 1000000.''))"
| "fail_traffic Batch_conflict = (409, T_detail ''immutable batch or window conflicts with stored content'')"

definition scenario_for :: "traffic_call \<Rightarrow> string option" where
  "scenario_for c = (case tcl_scenarios c of
     None \<Rightarrow> Some ''baseline''
   | Some [v] \<Rightarrow> if valid_scenario v then Some v else None
   | Some _ \<Rightarrow> None)"

definition bad_scenario :: "int \<times> traffic_reply" where
  "bad_scenario = (400, T_detail ''Choose a supported sample scenario: baseline, busy, gaps, quiet, commuter, retail, threshold, interruption or random.'')"

definition sample_of :: "service \<Rightarrow> string \<Rightarrow> string" where
  "sample_of e scenario = scenario_tenant (tea_hex e) (tea_tenant e) scenario"

definition handle_empty :: "service \<Rightarrow> traffic_call \<Rightarrow> traffic_db \<Rightarrow> traffic_answer" where
  "handle_empty e c s = (case scenario_for c of
     None \<Rightarrow> (s, bad_scenario)
   | Some scenario \<Rightarrow>
       if \<not> tcl_json c then (s, 415, T_detail ''application/json required'')
       else if tcl_body c \<noteq> Empty_object then (s, 400, T_detail ''An empty JSON object is required'')
       else if tcl_trailing c then (s, 400, T_detail ''One JSON object required'')
       else case empty_sample (sample_of e scenario) s of
           (s', Inl err) \<Rightarrow> (s', fail_traffic err)
         | (s', Inr (batches, windows)) \<Rightarrow> (s', 200, T_emptied batches windows))"

definition handle_report :: "service \<Rightarrow> traffic_call \<Rightarrow> traffic_db \<Rightarrow> traffic_answer" where
  "handle_report e c s = (case scenario_for c of
     None \<Rightarrow> (s, bad_scenario)
   | Some scenario \<Rightarrow> (s, 200, T_report (traffic_report_of (sample_of e scenario) (tea_now e) s)))"

definition handle_example :: "service \<Rightarrow> traffic_call \<Rightarrow> traffic_db \<Rightarrow> traffic_answer" where
  "handle_example e c s = (case scenario_for c of
     None \<Rightarrow> (s, bad_scenario)
   | Some scenario \<Rightarrow> (s, case example_for_scenario (tea_byte e) (tea_entropy e) (tea_now e) scenario of
         Inl err \<Rightarrow> fail_traffic err | Inr b \<Rightarrow> (200, T_batch b)))"

text \<open>The batch that the decoder leaves in the zero value, and the import.\<close>

fun decoded_batch :: "traffic_json \<Rightarrow> traffic_batch option" where
  "decoded_batch (Batch_object b) = Some b"
| "decoded_batch Empty_object = Some \<lparr>tba_id = [], tba_source = [], tba_windows = []\<rparr>"
| "decoded_batch Json_null = Some \<lparr>tba_id = [], tba_source = [], tba_windows = []\<rparr>"
| "decoded_batch Refused_json = None"
| "decoded_batch Oversized_json = None"

definition handle_batch :: "bool \<Rightarrow> service \<Rightarrow> traffic_call \<Rightarrow> traffic_db \<Rightarrow> traffic_answer" where
  "handle_batch replace e c s = (case scenario_for c of
     None \<Rightarrow> (s, bad_scenario)
   | Some scenario \<Rightarrow>
       if replace \<and> scenario \<noteq> ''random'' then (s, 400, T_detail ''Random generation can replace only the random sample.'')
       else if \<not> tcl_json c then (s, 415, T_detail ''application/json required'')
       else case decoded_batch (tcl_body c) of
           None \<Rightarrow> (s, if tcl_body c = Oversized_json then 413 else 400,
             T_detail ''Invalid aggregate JSON; unknown fields, including device identifiers and coordinates, are rejected.'')
         | Some b \<Rightarrow>
             if tcl_trailing c then (s, 400, T_detail ''One JSON object required'')
             else case (if replace then replace_sample (tea_digest e) (sample_of e scenario) b (tea_now e) s
                        else ingest_sample (tea_digest e) (sample_of e scenario) b (tea_now e) s) of
                 (s', Inl err) \<Rightarrow> (s', fail_traffic err)
               | (s', Inr r) \<Rightarrow> (s', if igr_replayed r then 200 else 201, T_result r))"

text \<open>The routes; two of them are registered for the demonstration only.\<close>

definition traffic_routes ::
  "bool \<Rightarrow> (bool \<times> string \<times> (service \<Rightarrow> traffic_call \<Rightarrow> traffic_db \<Rightarrow> traffic_answer)) list" where
  "traffic_routes demo =
     (if demo then [(True, ''/api/v1/foot-traffic/empty'', handle_empty)] else []) @
     [(False, ''/api/v1/foot-traffic/report'', handle_report),
      (False, ''/api/v1/foot-traffic/example'', handle_example),
      (True, ''/api/v1/foot-traffic/batches'', handle_batch False)] @
     (if demo then [(True, ''/api/v1/foot-traffic/random-batches'', handle_batch True)] else [])"

definition handle_traffic :: "service \<Rightarrow> traffic_call \<Rightarrow> traffic_db \<Rightarrow> traffic_answer" where
  "handle_traffic e c s =
     (case array_find (\<lambda>(post, path, _). post = tcl_post c \<and> path = tcl_path c) (traffic_routes (tea_demo e)) of
        Some (_, _, h) \<Rightarrow> h e c s
      | None \<Rightarrow> if list_ex (\<lambda>(_, path, _). path = tcl_path c) (traffic_routes (tea_demo e))
                then (s, 405, T_method) else (s, 404, T_not_found))"

subsection \<open>Effects of a call\<close>

lemma ingest_keeps_stored:
  assumes "stored t s k = Some v" and "replace \<Longrightarrow> t \<noteq> tenant"
  shows "stored t (fst (ingest_as digest replace tenant b now s)) k = Some v"
proof (cases rule: ingest_cases [where tenant = tenant and b = b and now = now and s = s and digest = digest and replace = replace])
  case fresh
  let ?m = "stored tenant (cleared replace tenant s)" and ?c = "batch_counts (tba_windows b)"
  show ?thesis
  proof (cases "?m ++ ?c = ?c ++ ?m")
    case True
    then obtain s' res where "ingest_as digest replace tenant b now s = (s', Inr res)"
      and s': "stored t s' = (if t = tenant then ?c ++ ?m else stored t s)"
      using ingest_union [OF fresh, where digest = digest and replace = replace] by metis
    moreover have "?m k = Some v" if "t = tenant" using that assms by (auto simp: cleared_stored)
    ultimately show ?thesis using assms(1) by simp
  qed (use ingest_conflict [OF fresh, where digest = digest and replace = replace] assms(1) in simp)
qed (use assms in auto)

lemma ingest_other_tenant:
  assumes "t \<noteq> tenant"
  shows "stored t (fst (ingest_as digest replace tenant b now s)) = stored t s"
proof (cases rule: ingest_cases [where tenant = tenant and b = b and now = now and s = s and digest = digest and replace = replace])
  case fresh
  let ?m = "stored tenant (cleared replace tenant s)" and ?c = "batch_counts (tba_windows b)"
  show ?thesis
  proof (cases "?m ++ ?c = ?c ++ ?m")
    case True
    then obtain s' res where "ingest_as digest replace tenant b now s = (s', Inr res)"
      and "stored t s' = (if t = tenant then ?c ++ ?m else stored t s)"
      using ingest_union [OF fresh, where digest = digest and replace = replace] by metis
    then show ?thesis using assms by simp
  qed (use ingest_conflict [OF fresh, where digest = digest and replace = replace] in simp)
qed (use assms in auto)

lemma ingest_error:
  assumes "snd (ingest_as digest replace tenant b now s) = Inl err"
  shows "fst (ingest_as digest replace tenant b now s) = s"
proof (cases rule: ingest_cases [where tenant = tenant and b = b and now = now and s = s and digest = digest and replace = replace])
  case fresh
  show ?thesis
    using assms unfolding ingest_fresh [OF fresh, of digest replace] by (auto split: sum.splits)
qed (use assms in auto)

lemma ingest_replayed:
  assumes "snd (ingest_as digest replace tenant b now s) = Inr r" and "igr_replayed r"
  shows "fst (ingest_as digest replace tenant b now s) = s"
proof (cases rule: ingest_cases [where tenant = tenant and b = b and now = now and s = s and digest = digest and replace = replace])
  case fresh
  show ?thesis
    using assms unfolding ingest_fresh [OF fresh, of digest replace] by (auto split: sum.splits)
qed (use assms in auto)

lemma empty_other_tenant:
  assumes "t \<noteq> tenant" shows "stored t (fst (empty_sample tenant s)) = stored t s"
proof (cases "identity tenant")
  case True
  have "stored t (fst (empty_sample tenant s)) = stored t (s\<lparr>tdb_windows := filter (\<lambda>r. wnr_tenant r \<noteq> tenant) (tdb_windows s)\<rparr>)"
    using True by (intro stored_cong) (simp add: empty_sample_def Let_def lock_scope_def)
  then show ?thesis using assms by (simp add: stored_filter_tenant)
qed (simp add: empty_sample_def)

lemma empty_error: "snd (empty_sample tenant s) = Inl err \<Longrightarrow> fst (empty_sample tenant s) = s"
  by (auto simp: empty_sample_def Let_def split: if_splits)

lemma route_cases:
  assumes "array_find (\<lambda>(post, path, _). post = tcl_post c \<and> path = tcl_path c) (traffic_routes demo) = Some (p, q, h)"
  shows "h \<in> {handle_report, handle_example, handle_batch False} \<or> demo \<and> h \<in> {handle_empty, handle_batch True}"
  using array_find_SomeD [OF assms] by (auto simp: traffic_routes_def split: if_splits)

lemmas handlers = handle_report_def handle_example_def handle_empty_def handle_batch_def

lemma handle_batch_cases:
  "fst (handle_batch replace e c s) = s \<or> (\<exists>scenario b. scenario_for c = Some scenario \<and>
     handle_batch replace e c s = (case ingest_as (tea_digest e) replace (sample_of e scenario) b (tea_now e) s of
       (s', Inl err) \<Rightarrow> (s', fail_traffic err) | (s', Inr r) \<Rightarrow> (s', if igr_replayed r then 200 else 201, T_result r)))"
  unfolding handle_batch_def ingest_sample_def replace_sample_def by (force split: option.split)

lemma handle_empty_cases:
  "fst (handle_empty e c s) = s \<or> (\<exists>scenario. scenario_for c = Some scenario \<and>
     handle_empty e c s = (case empty_sample (sample_of e scenario) s of
       (s', Inl err) \<Rightarrow> (s', fail_traffic err) | (s', Inr (batches, windows)) \<Rightarrow> (s', 200, T_emptied batches windows)))"
  unfolding handle_empty_def by (force split: option.split)

text \<open>The outcomes of a call: no effect, an import or an emptying of the sample that was chosen.\<close>

lemma handle_cases:
  obtains (none) "fst (handle_traffic e c s) = s"
  | (import) scenario replace b where "scenario_for c = Some scenario" "replace \<Longrightarrow> tea_demo e"
      "handle_traffic e c s = (case ingest_as (tea_digest e) replace (sample_of e scenario) b (tea_now e) s of
         (s', Inl err) \<Rightarrow> (s', fail_traffic err) | (s', Inr r) \<Rightarrow> (s', if igr_replayed r then 200 else 201, T_result r))"
  | (empty) scenario where "scenario_for c = Some scenario" "tea_demo e"
      "handle_traffic e c s = (case empty_sample (sample_of e scenario) s of
         (s', Inl err) \<Rightarrow> (s', fail_traffic err) | (s', Inr (batches, windows)) \<Rightarrow> (s', 200, T_emptied batches windows))"
proof (cases "array_find (\<lambda>(post, path, _). post = tcl_post c \<and> path = tcl_path c) (traffic_routes (tea_demo e))")
  case None
  then show thesis using none unfolding handle_traffic_def by (simp del: array_find_None_iff)
next
  case (Some route)
  obtain p q h where "route = (p, q, h)" by (cases route)
  with Some have h: "handle_traffic e c s = h e c s" and route:
      "h \<in> {handle_report, handle_example, handle_batch False} \<or> tea_demo e \<and> h \<in> {handle_empty, handle_batch True}"
    using route_cases unfolding handle_traffic_def by (simp_all del: array_find_None_iff) blast
  consider "h = handle_report \<or> h = handle_example" | "h = handle_empty" "tea_demo e"
    | r where "h = handle_batch r" "r \<Longrightarrow> tea_demo e" using route by blast
  then show thesis
  proof cases
    case 1
    then show thesis using none h by (auto simp: handlers split: option.split)
  next
    case 2
    from handle_empty_cases [of e c s] show thesis
      by (elim disjE exE conjE) (use none empty h 2 in simp_all)
  next
    case (3 r)
    from handle_batch_cases [of r e c s] show thesis
    proof (elim disjE exE conjE)
      fix scenario b
      assume "scenario_for c = Some scenario" and "handle_batch r e c s =
        (case ingest_as (tea_digest e) r (sample_of e scenario) b (tea_now e) s of
         (s', Inl err) \<Rightarrow> (s', fail_traffic err) | (s', Inr r) \<Rightarrow> (s', if igr_replayed r then 200 else 201, T_result r))"
      then show thesis using h 3 by (intro import [of scenario r b]) simp_all
    qed (use none h 3 in simp)
  qed
qed

text \<open>
  C26. What a call may do to the counts: it changes at most those of the sample it names, a call that
  is refused or replayed changes nothing at all, and outside the demonstration no call removes or
  changes a stored count.
\<close>

theorem traffic_calls_bounded:
  "let (s', status, reply) = handle_traffic e c s in
     (status \<noteq> 201 \<and> (\<forall>n m. reply \<noteq> T_emptied n m) \<longrightarrow> s' = s) \<and>
     (stored t s' \<noteq> stored t s \<longrightarrow> (\<exists>scenario. scenario_for c = Some scenario \<and> t = sample_of e scenario)) \<and>
     (\<not> tea_demo e \<longrightarrow> stored t s \<subseteq>\<^sub>m stored t s')"
proof (cases rule: handle_cases [where e = e and c = c and s = s])
  case none
  then show ?thesis by (cases "handle_traffic e c s") simp
next
  case (import scenario replace b)
  obtain s' x where run: "ingest_as (tea_digest e) replace (sample_of e scenario) b (tea_now e) s = (s', x)" by fastforce
  note facts = ingest_error [of "tea_digest e" replace "sample_of e scenario" b "tea_now e" s, unfolded run]
    ingest_replayed [of "tea_digest e" replace "sample_of e scenario" b "tea_now e" s, unfolded run]
    ingest_other_tenant [of t "sample_of e scenario" "tea_digest e" replace b "tea_now e" s, unfolded run]
  have "stored t s \<subseteq>\<^sub>m stored t s'" if "\<not> tea_demo e"
    unfolding map_le_def
  proof
    fix k assume "k \<in> dom (stored t s)"
    then obtain v where v: "stored t s k = Some v" by blast
    have "\<not> replace" using import(2) that by blast
    then show "stored t s k = stored t s' k"
      using ingest_keeps_stored [OF v, of replace "sample_of e scenario" "tea_digest e" b "tea_now e"] v run by simp
  qed
  then show ?thesis
    using facts import(1) unfolding import(3) run by (auto split: sum.split)
next
  case (empty scenario)
  obtain s' x where run: "empty_sample (sample_of e scenario) s = (s', x)" by fastforce
  note facts = empty_error [of "sample_of e scenario" s, unfolded run]
    empty_other_tenant [of t "sample_of e scenario" s, unfolded run]
  show ?thesis
    using facts empty(1,2) unfolding empty(3) run by (auto split: sum.split)
qed

definition local_service :: "bool \<Rightarrow> service" where
  "local_service demo = \<lparr>tea_demo = demo, tea_tenant = ''local-demo'', tea_digest = (\<lambda>_. []), tea_hex = (\<lambda>_. ''00''),
     tea_byte = (\<lambda>_. 7), tea_entropy = (\<lambda>_. 0), tea_now = 200000000000\<rparr>"

definition empty_call :: traffic_call where
  "empty_call = \<lparr>tcl_post = True, tcl_path = ''/api/v1/foot-traffic/empty'', tcl_scenarios = None, tcl_json = True,
     tcl_body = Empty_object, tcl_trailing = False\<rparr>"

lemma emptying_needs_demo:
  "handle_traffic (local_service False) empty_call (one_window 25) = (one_window 25, 404, T_not_found)"
  "tdb_windows (fst (handle_traffic (local_service True) empty_call (one_window 25))) = []"
  by (simp_all add: handle_traffic_def traffic_routes_def local_service_def empty_call_def handle_empty_def
      scenario_for_def sample_of_def scenario_tenant_def empty_sample_def identity_def identity_char_def
      less_eq_char_def lock_scope_def one_window_def)

theorem traffic_calls_bounded_witness:
  "tdb_windows (fst (handle_traffic (local_service True) empty_call (one_window 25))) = [] \<and>
   stored ''local-demo'' (one_window 25) \<subseteq>\<^sub>m
     stored ''local-demo'' (fst (handle_traffic (local_service False) empty_call (one_window 25)))"
  using traffic_calls_bounded [of "local_service False" empty_call "one_window 25" "''local-demo''"] emptying_needs_demo
  by (simp add: local_service_def)

end
