(* ===== verification/Spec2Isabelle.thy ===== *)
theory Spec2Isabelle
  imports Controls EndToEnd Reloads SampleFeeds TrafficHttp
begin

text \<open>
  Afterglow reconciles playback receipts of digital advertising screens with reserved campaign
  budgets. A Go service keeps campaigns, reservations, receipts and their decisions in a SQL
  database; a browser console (\<open>src/internal/console/web\<close>, plain scripts without a framework) shows
  them, reserves budget, sends receipts and runs a six-stage live proof against the service. This
  library models both sides. Of the console: what its scripts keep, what they send, in which order,
  what they do when a reply is late, lost, repeated, unreadable or from another dataset, and the HTML
  they write. Of the service: the transactions of its settlement engine, the worker that dispatches
  receipts, the HTTP API in front of them, and the foot-traffic service with its handlers.

  \<^bold>\<open>Parts and theories.\<close>
  \<^item> \<open>Prelude\<close>: shared collections of facts and the array operations of JavaScript.
  \<^item> \<open>Api\<close>: the JSON bodies that cross the boundary to the service, as records; only the fields the
    scripts read are kept. A body is a value of \<^verbatim>\<open>payload\<close>, typed by what the service sends, or an object of another
    shape with its fields; JSON is modelled as a value, not as text.
  \<^item> \<open>Async\<close>: an \<open>async\<close> function is a function from the document's state to a resumption that has
    returned, thrown, or waits for a fetch, a body or a timer and continues with the reply and
    with whatever the state is by then. \<open>drive\<close> runs one program against a responder; \<open>reaches\<close> is
    the event loop: handlers start, replies resume any waiting task, the environment acts, in
    every order.
  \<^item> \<open>Cooperation\<close>: two disciplines proved once, as locales: \<open>cooperative\<close> (every handler keeps a
    relation and an invariant of the shared state, so every interleaving does) and \<open>exclusive\<close>
    (handlers guarded by a flag: at most one in flight, exactly while the flag is set, and what they
    promise for lost replies holds of the one in flight).
  \<^item> \<open>Session\<close> (\<open>demo-reset.js\<close>): the generation of a document, the stamped fetch, the storage
    event, the reset dialog; locale \<open>session_client\<close> for everything built on it.
  \<^item> \<open>JsText\<close>, \<open>Price\<close>, \<open>Ledger\<close>, \<open>Console\<close> (\<open>app.js\<close>, and \<open>priceMicros\<close> of \<open>intake.js\<close>): escaping and
    printing, the two price fields with the rounding of doubles written out, filtering, sorting
    and paging of deliveries, requests, polling, routing, the failure lab and the reserve form.
  \<^item> \<open>Navigation\<close> (\<open>navigation.js\<close>), \<open>Assurance\<close> (\<open>assurance.js\<close>), \<open>Intake\<close> (\<open>intake.js\<close>), \<open>LiveProof\<close> and
    \<open>ProofRuns\<close> (\<open>proof.js\<close>), \<open>FootTraffic\<close> (\<open>foottraffic.js\<close>): one page each. The records extend one
    another, so that all pages share one document. \<open>Reloads\<close>: the foot-traffic page's attempts, written as JSON by one
    document and read by the next.
  \<^item> \<open>Document\<close> and this theory: all handlers of all scripts in one event loop.
  \<^item> \<open>Markup\<close>: templates as lists of pieces (literal text, characters beyond ASCII, inserted values)
    and a reader of HTML with its open elements; \<open>Views\<close> (\<open>app.js\<close>) and \<open>PageViews\<close> (the other scripts):
    every template of the console, and \<open>inner_html\<close>, the table of all texts that become HTML.
  \<^item> \<open>Controls\<close>: which handler a click starts, when a button is disabled, what the partial updates of
    the pages write, the downloads, the map; the interpretation of \<open>one_dataset\<close> on all handlers.
  \<^item> \<open>Tables\<close>, \<open>Engine\<close> (\<open>internal/core\<close>: \<open>store.go\<close>, \<open>queue.go\<close>, \<open>evidence.go\<close>, \<open>assurance.go\<close>, \<open>schema.sql\<close>;
    \<open>localdemo/reset.go\<close>): the tables as lists of rows, the constraints, and each transaction as a
    function of the database; \<open>engine_step\<close> is one transaction of any tenant, \<open>engine_reaches\<close> what any
    sequence of them, with resets in between, can make of an empty database.
  \<^item> \<open>Books\<close>, \<open>Settlement\<close>: the invariant \<open>sound_db\<close>, kept by every transaction, and what follows from it.
  \<^item> \<open>Accounts\<close>: an abstract ledger whose operations open budgets and grant, settle, release and clear holds;
    the locale \<open>simulation\<close> of labelled steps, its interpretation on the engine, in which every transaction
    has the label of what it does to the ledger, and the assurance report.
  \<^item> \<open>Constraints\<close>: the guards of the code imply the constraints of the schema.
  \<^item> \<open>Dispatch\<close> (\<open>internal/pipeline/worker.go\<close>): the worker with its pause, breaker, faults and backoff.
  \<^item> \<open>TrafficStore\<close> (\<open>internal/foottraffic\<close>: \<open>store.go\<close>, \<open>examples.go\<close>): imports, the report with its
    threshold, the sample feeds; \<open>TrafficLaws\<close> and \<open>SampleFeeds\<close>: what holds of them; \<open>TrafficHttp\<close>
    (\<open>http.go\<close>): the handlers.
  \<^item> \<open>HttpApi\<close> (\<open>internal/httpapi\<close>: \<open>server.go\<close>, \<open>batch.go\<close>, \<open>demo.go\<close>): who may call the engine and how often,
    the routes to it, partner batches, the scenarios of the failure lab. \<open>Snapshots\<close> (\<open>store.go\<close>): what the
    console polls.
  \<^item> \<open>EndToEnd\<close>: the console on the API: a responder for \<open>drive\<close> with an unreliable network, the API, the
    engine and the worker behind it; locale \<open>served\<close> for programs on a world that only moves forward.

  \<^bold>\<open>What is shown.\<close> One document never mixes two datasets, and is silent once it was retired (this
  theory). Each page has at most one write in flight and what is in flight is what the page keeps
  (\<open>Intake\<close>, \<open>FootTraffic\<close>, \<open>ProofRuns\<close>, \<open>Console\<close>). An operation with an unknown outcome is repeated
  under the same identity (reserve form, example hold, foot-traffic batch, live proof). A late
  reply never shows for another selection (\<open>Assurance\<close>, \<open>FootTraffic\<close>). A live proof that is marked
  finished has its evidence (\<open>ProofRuns\<close>). Prices are exact, text is escaped, the ledger's rows and
  pages are complete (\<open>Price\<close>, \<open>JsText\<close>, \<open>Ledger\<close>). Every text that becomes HTML is well formed and no
  value in it acts as markup (\<open>PageViews\<close>). A click starts at most one handler, a disabled button of the
  pages would do nothing, buttons are disabled exactly while an operation of theirs waits or outside the
  demo, and the map stays in its frame (\<open>Controls\<close>). A reload keeps the attempts that are less than a week
  old (\<open>Reloads\<close>).

  In the engine, balances are the sums of the reservations and stay within the budget, a play is
  paid for exactly once, accepted work stays queued, evidence and final decisions do not change short
  of a reset, repeated requests return the first outcome (\<open>Settlement\<close>); every run is, label by label, a run of the
  abstract ledger and the assurance report agrees with the balances (\<open>Accounts\<close>); no constraint stops a
  transaction and redelivery has no effect (\<open>Constraints\<close>); a healthy local worker decides everything
  that is queued once it is due, and a failing transport is retried within bounds (\<open>Dispatch\<close>). Calls reach the engine only
  through these transactions, refused ones not at all; writes are rate limited however they are
  batched; a batch can be sent again (\<open>HttpApi\<close>); a snapshot agrees with the books
  (\<open>Snapshots\<close>). A live proof that the console reports as verified is true of the database
  (\<open>EndToEnd\<close>). In the foot-traffic service,
  small counts have no influence on a report, an import is the union with what is stored or
  nothing, a retry returns the first result (\<open>TrafficLaws\<close>), sample feeds load, the random one by replacing its sample (\<open>SampleFeeds\<close>),
  and only the demonstration can remove counts (\<open>TrafficHttp\<close>).

  \<^bold>\<open>Bounds.\<close> Only the polling loop of the live proof needs fuel: 59 rounds, which
  \<open>observe_enough_fuel\<close> shows to be enough for its deadline of 20 s at pauses of 350 ms. All other
  loops are structural recursions. JavaScript numbers are integers; \<open>to_double\<close> rounds where a
  value may exceed \<open>2^53\<close>.

  \<^bold>\<open>Simplifications.\<close> Strings are bytes: messages with typographic characters are transliterated,
  \<open>trim\<close> and the case functions know ASCII only. \<open>Promise.all\<close> of reads is done in order. The
  storage keeps JSON values: \<open>JSON.parse\<close> of a written text gives the value that was written; the attempts of the
  foot-traffic page are such values field by field, a run of the live proof is kept as it is. A body of an
  unexpected shape raises the TypeError of the first property read, where the scripts read one. Whether the browser allows storage does not change
  during the life of a document. The engine's transactions take effect one after the other,
  as their row locks make them; constraints are checked at commit; readings of the clock and random
  identifiers are arguments, and \<open>digest\<close> is a parameter. Amounts are integers: costs are at most
  \<open>10^9\<close> and balances at most the budget, so 64 bits do not overflow. The event \<open>afterglow:proof-complete\<close> is the handler
  \<open>fetch_report\<close> started at any time.

  What a browser prints by its own rules (times, dates, fractions, the coordinates of the map and
  the heights of the bars) is an argument of the views, a \<open>browser\<close>, assumed to print no markup
  character where the scripts do not escape it. The relative change of a zone is the exact quotient
  instead of the nearest double, and so are the coordinates of the map in \<open>Controls\<close>.

  \<^bold>\<open>Not modelled.\<close> The heights of the charts' bars, the focus beyond the finder and the
  updates of two pages, timers that only release memory. Except in \<open>EndToEnd\<close>, the replies to the
  console are arguments of its theorems, each of which says what it needs of them. Of the service: response
  headers other than the generation and \<open>Retry-After\<close>, the routes for metrics and airports; migrations, trace carriers, the Pub/Sub
  transport and its quarantine table, deadlines that cut a transaction short, failures of the
  database itself. The scripts under \<open>src/scripts\<close> are browser tests.
\<close>

section \<open>Properties of the whole document\<close>

text \<open>A tab that knows a dataset and has a saved run; a poll and a report are begun, then a reply names another dataset.\<close>

definition known_document :: controls_page where
  "known_document = fresh_controls\<lparr>generation := Some ''g1'', session_store := [proof_key \<mapsto> Text ''run'']\<rparr>"

definition two_requests :: "controls_page event list" where
  "two_requests = [Begin (refresh flat), Begin traffic_refresh_click]"

definition foreign_reply :: reply where
  "foreign_reply = Responded \<lparr>rs_status = 200, rs_generation = Some ''g2'', rs_retry_after = None\<rparr>"

definition cleared_elsewhere :: "controls_page event list" where
  "cleared_elsewhere = two_requests @ [Deliver 0 foreign_reply]"

lemmas document_run_simps = two_requests_def cleared_elsewhere_def foreign_reply_def known_document_def
  refresh_def traffic_refresh_click_def traffic_run_simps fresh_controls_simps

lemma document_runs:
  "events_ok (page_handlers flat) fits two_requests (known_document, [])"
  "events_ok (page_handlers flat) fits cleared_elsewhere (known_document, [])"
  by (simp_all add: document_run_simps page_handlers_def document_handlers_def console_handlers_def traffic_handlers_def)

lemma document_results:
  "in_flight (snd (run_events two_requests (known_document, []))) =
     [snapshot_request\<lparr>rq_generation := Some ''g1''\<rparr>, (report_request ''baseline'')\<lparr>rq_generation := Some ''g1''\<rparr>]"
  "invalidated (fst (run_events cleared_elsewhere (known_document, [])))"
  by (simp_all add: document_run_simps stamp_def)

text \<open>
  C3. One dataset per document: in every interleaving of the handlers of all pages with the
  replies they wait for, a generation that is known stays the document's generation until the
  document is invalidated; it is invalidated at most once, with exactly one reload, and then for
  good: the saved proof run and the saved foot-traffic attempts are gone, no task that is still
  running brings them back, and the new generation is the one remembered.
\<close>

theorem one_dataset_per_document:
  assumes "retired s0" and "reaches (page_handlers collate) document_env ans s0 (s, ts)"
  shows "(\<not> invalidated s \<and> truthy (generation s0) \<longrightarrow> generation s = generation s0) \<and>
    reloads s = (if invalidated s then 1 else 0) \<and>
    (invalidated s \<and> storage_ok s \<longrightarrow> session_store s proof_key = None \<and> session_store s traffic_key = None \<and>
       session_store s generation_key = map_option Text (generation s))"
  using tab.reaches_sound [OF assms] by (auto simp: same_session_def retired_def)

theorem one_dataset_per_document_witness:
  "let s = fst (run_events cleared_elsewhere (known_document, []))
   in invalidated s \<and> reloads s = 1 \<and> session_store s proof_key = None"
proof -
  obtain s ts where run: "run_events cleared_elsewhere (known_document, []) = (s, ts)" by fastforce
  have "reaches (page_handlers flat) document_env fits known_document (s, ts)"
    using run_events_reaches_start [OF document_runs(2)] run by metis
  from one_dataset_per_document [OF _ this] have "reloads s = (if invalidated s then 1 else 0)"
    and "invalidated s \<and> storage_ok s \<longrightarrow> session_store s proof_key = None"
    by (simp_all add: retired_def known_document_def fresh_controls_simps)
  moreover have "storage_ok s" using arg_cong [OF run, of "\<lambda>c. storage_ok (fst c)"]
    by (simp add: document_run_simps)
  ultimately show ?thesis using run document_results(2) by simp
qed

text \<open>
  C32. A background task cannot write into a newer dataset: every request in flight of a document
  that is still valid and that names a generation names the document's own.
\<close>

theorem in_flight_requests_name_dataset:
  assumes "retired s0" and "reaches (page_handlers collate) document_env ans s0 (s, ts)"
    and "(Fetch rq, k) \<in> set ts" and "rq_generation rq = Some g" and "\<not> invalidated s"
  shows "generation s = Some g"
  using tab.in_flight_generation [OF assms] .

theorem in_flight_requests_name_dataset_witness:
  "case run_events two_requests (known_document, []) of (s, ts) \<Rightarrow>
     length (in_flight ts) = 2 \<and> generation s = Some ''g1''"
proof -
  obtain s ts where run: "run_events two_requests (known_document, []) = (s, ts)" by fastforce
  have r: "reaches (page_handlers flat) document_env fits known_document (s, ts)"
    using run_events_reaches_start [OF document_runs(1)] run by metis
  have fl: "in_flight ts = [snapshot_request\<lparr>rq_generation := Some ''g1''\<rparr>,
      (report_request ''baseline'')\<lparr>rq_generation := Some ''g1''\<rparr>]"
    using document_results(1) run by simp
  then obtain k where "(Fetch (snapshot_request\<lparr>rq_generation := Some ''g1''\<rparr>), k) \<in> set ts"
    using in_flight_mem [of "snapshot_request\<lparr>rq_generation := Some ''g1''\<rparr>" ts] by auto
  moreover have "\<not> invalidated s" using arg_cong [OF run, of "\<lambda>c. invalidated (fst c)"]
    by (simp add: document_run_simps)
  ultimately have "generation s = Some ''g1''"
    using in_flight_requests_name_dataset [OF _ r] by (simp add: retired_def known_document_def fresh_controls_simps)
  with run fl show ?thesis by simp
qed

text \<open>
  C18. A retired document is silent: after it was invalidated, whatever handler starts and whatever
  reply arrives, no further request leaves it, and its generation does not change.
\<close>

theorem retired_document_is_silent:
  assumes "retired s0" and "reaches (page_handlers collate) document_env ans s0 (s, ts)" and "invalidated s"
    and "loop_step (page_handlers collate) document_env ans (s, ts) (s', ts')"
  shows "invalidated s' \<and> generation s' = generation s \<and> mset (in_flight ts') \<subseteq># mset (in_flight ts)"
  using tab.silent_step [OF assms] .

theorem retired_document_is_silent_witness:
  "case run_events cleared_elsewhere (known_document, []) of (s, ts) \<Rightarrow>
   case run_event (Begin (refresh flat)) (s, ts) of (s', ts') \<Rightarrow>
     invalidated s' \<and> mset (in_flight ts') \<subseteq># mset (in_flight ts)"
proof -
  obtain s ts where run: "run_events cleared_elsewhere (known_document, []) = (s, ts)" by fastforce
  obtain s' ts' where nxt: "run_event (Begin (refresh flat)) (s, ts) = (s', ts')" by fastforce
  have r: "reaches (page_handlers flat) document_env fits known_document (s, ts)"
    using run_events_reaches_start [OF document_runs(2)] run by metis
  have "loop_step (page_handlers flat) document_env fits (s, ts) (s', ts')"
    using run_event_step [of "page_handlers flat" fits "Begin (refresh flat)" "(s, ts)"] nxt
    by (simp add: page_handlers_def handler_kinds)
  from retired_document_is_silent [OF _ r _ this] show ?thesis
    using run nxt document_results(2) by (simp add: retired_def known_document_def fresh_controls_simps)
qed

end
